(* ===== verification/Go_Prelude.thy ===== *)
theory Go_Prelude
  imports Main "HOL-Library.Word"
begin

text \<open>
  What every component of the development shares: the names of Go's machine types, slices with
  their nil value, error values, and the generic lemmas on lists and words the component proofs
  use through the simplifier or through the collections declared here.

  A Go slice is nil or holds elements, and the two differ (an empty slice prints as
  \<^verbatim>\<open>[]\<close>, a nil one as \<^verbatim>\<open>null\<close>), so \<open>'a slice\<close> is an option of a
  list. \<open>time.Duration\<close> and \<open>int64\<close> are 64-bit words read with \<^const>\<open>sint\<close>; Go's
  \<open>int\<close> is 64 bits wide on the modelled platforms and is an \<^typ>\<open>int\<close> where the code only
  compares or counts.
\<close>

subsection \<open>Collections\<close>

named_theorems go_defs \<open>definitions of small operations, unfolded together\<close>
named_theorems conn_simps \<open>effects of the connection wrapper's atomic sections on its fields\<close>

subsection \<open>Machine types\<close>

type_synonym uint8 = "8 word"
type_synonym uint16 = "16 word"
type_synonym uint32 = "32 word"
type_synonym uint64 = "64 word"
type_synonym int64 = "64 word"
type_synonym duration = "64 word"

definition Nanosecond :: duration where "Nanosecond = 1"
definition Microsecond :: duration where "Microsecond = 1000 * Nanosecond"
definition Millisecond :: duration where "Millisecond = 1000 * Microsecond"

lemma Microsecond_eq [simp]: "Microsecond = 1000"
  by (simp add: Microsecond_def Nanosecond_def)

lemma Millisecond_eq [simp]: "Millisecond = 1000000"
  by (simp add: Millisecond_def Microsecond_def Nanosecond_def)

subsection \<open>Slices\<close>

type_synonym 'a slice = "'a list option"

definition elems :: "'a slice \<Rightarrow> 'a list" where
  "elems s = (case s of None \<Rightarrow> [] | Some xs \<Rightarrow> xs)"

text \<open>\<open>append(s, xs...)\<close>: appending nothing returns the slice itself, nil included.\<close>

definition sappend :: "'a slice \<Rightarrow> 'a list \<Rightarrow> 'a slice" where
  "sappend s xs = (if xs = [] then s else Some (elems s @ xs))"

lemma elems_simps [simp]: "elems None = []" "elems (Some xs) = xs"
  by (simp_all add: elems_def)

lemma elems_sappend [simp]: "elems (sappend s xs) = elems s @ xs"
  by (simp add: sappend_def)

lemma sappend_sappend [simp]: "sappend (sappend s xs) ys = sappend s (xs @ ys)"
  by (simp add: sappend_def)

lemma sappend_Nil [simp]: "sappend s [] = s"
  by (simp add: sappend_def)

subsection \<open>Errors\<close>

text \<open>
  An error value carries its text and, when its type implements \<open>net.Error\<close>, the answer of its
  \<open>Timeout()\<close> method. The sentinel \<open>net.ErrClosed\<close> implements it and is no timeout.
\<close>

datatype goerror = GoError (error_text: string) (net_timeout: "bool option")

definition ErrClosed :: goerror where
  "ErrClosed = GoError ''use of closed network connection'' (Some False)"

abbreviation errors_New :: "string \<Rightarrow> goerror" where
  "errors_New msg \<equiv> GoError msg None"

text \<open>\<open>err, ok := err.(net.Error); ok && !err.Timeout()\<close>, false for a nil error.\<close>

definition is_hard_net_error :: "goerror option \<Rightarrow> bool" where
  "is_hard_net_error e = (case e of None \<Rightarrow> False | Some x \<Rightarrow> net_timeout x = Some False)"

subsection \<open>Lists\<close>

lemma length_filter_update:
  assumes "i < length xs"
  shows "length (filter P (xs[i := x])) + (if P (xs ! i) then 1 else 0)
       = length (filter P xs) + (if P x then 1 else 0)"
  using assms
proof (induction xs arbitrary: i)
  case Nil
  then show ?case by simp
next
  case (Cons y ys)
  then show ?case by (cases i) auto
qed

lemma filter_nth_pos: "i < length xs \<Longrightarrow> P (xs ! i) \<Longrightarrow> 0 < length (filter P xs)"
  by (auto simp: length_greater_0_conv filter_empty_conv intro!: nth_mem)

lemma sum_list_update_nat:
  fixes f :: "'a \<Rightarrow> nat"
  assumes "i < length xs"
  shows "sum_list (map f (xs[i := x])) + f (xs ! i) = sum_list (map f xs) + f x"
  using assms
proof (induction xs arbitrary: i)
  case Nil
  then show ?case by simp
next
  case (Cons y ys)
  then show ?case by (cases i) auto
qed

lemma takeWhile_app_stop:
  "(\<forall>x\<in>set xs. P x) \<Longrightarrow> ys = [] \<or> \<not> P (hd ys) \<Longrightarrow> takeWhile P (xs @ ys) = xs"
  by (cases ys) (auto simp: takeWhile_append)

lemma dropWhile_app_stop:
  "(\<forall>x\<in>set xs. P x) \<Longrightarrow> ys = [] \<or> \<not> P (hd ys) \<Longrightarrow> dropWhile P (xs @ ys) = ys"
  by (cases ys) (auto simp: dropWhile_append)

lemma filter_singleton_unique:
  assumes "length (filter P xs) = 1" "i < length xs" "P (xs ! i)" "j < length xs" "P (xs ! j)"
  shows "j = i"
proof (rule ccontr)
  assume "j \<noteq> i"
  then have "{i, j} \<subseteq> {k. k < length xs \<and> P (xs ! k)}" using assms by auto
  then have "card {i, j} \<le> card {k. k < length xs \<and> P (xs ! k)}" by (intro card_mono) auto
  then show False using assms(1) \<open>j \<noteq> i\<close> by (simp add: length_filter_conv_card)
qed

subsection \<open>Transition systems\<close>

text \<open>
  An invariant established by every initial state and kept by every step holds in every reachable
  state. When moreover a part of the steps, the runs, makes a size smaller and is possible in every
  state that is not final, then no run is longer than the size and every run that cannot go on is
  in a final state.
\<close>

locale inductive_invariant =
  fixes init :: "'a \<Rightarrow> bool" and step :: "'a \<Rightarrow> 'a \<Rightarrow> bool" and inv :: "'a \<Rightarrow> bool"
  assumes init_inv: "init s \<Longrightarrow> inv s"
    and step_inv: "inv s \<Longrightarrow> step s s' \<Longrightarrow> inv s'"
begin

lemma inv_steps:
  assumes "step\<^sup>*\<^sup>* s s'" "inv s"
  shows "inv s'"
  using assms by (induction rule: rtranclp_induct) (auto intro: step_inv)

lemma inv_reachable: "init s \<Longrightarrow> step\<^sup>*\<^sup>* s s' \<Longrightarrow> inv s'"
  by (auto intro: inv_steps init_inv)

end

locale terminating_runs = inductive_invariant init step inv
  for init :: "'a \<Rightarrow> bool" and step :: "'a \<Rightarrow> 'a \<Rightarrow> bool" and inv :: "'a \<Rightarrow> bool" +
  fixes run :: "'a \<Rightarrow> 'a \<Rightarrow> bool" and final :: "'a \<Rightarrow> bool" and size_of :: "'a \<Rightarrow> nat"
  assumes run_step: "run s s' \<Longrightarrow> step s s'"
    and run_smaller: "inv s \<Longrightarrow> run s s' \<Longrightarrow> size_of s' < size_of s"
    and progress: "inv s \<Longrightarrow> \<not> final s \<Longrightarrow> \<exists>s'. run s s'"
begin

lemma run_inv: "inv s \<Longrightarrow> run s s' \<Longrightarrow> inv s'"
  by (blast intro: step_inv run_step)

lemma run_bound:
  assumes "(run ^^ k) s s'" "inv s"
  shows "k + size_of s' \<le> size_of s"
  using assms
proof (induction k arbitrary: s')
  case (Suc k)
  then obtain t where t: "(run ^^ k) s t" "run t s'" by auto
  have "inv u" if "(run ^^ m) s u" for m u
    using that Suc.prems(2) by (induction m arbitrary: u) (auto intro: run_inv)
  then have "inv t" using t(1) by blast
  then show ?case using Suc.IH [OF t(1) Suc.prems(2)] run_smaller [OF _ t(2)] by simp
qed simp

lemma runs_inv: "run\<^sup>*\<^sup>* s s' \<Longrightarrow> inv s \<Longrightarrow> inv s'"
  by (induction rule: rtranclp_induct) (auto intro: run_inv)

lemma stuck_final: "run\<^sup>*\<^sup>* s s' \<Longrightarrow> inv s \<Longrightarrow> (\<And>t. \<not> run s' t) \<Longrightarrow> final s'"
  using progress runs_inv by blast

lemma can_finish: "inv s \<Longrightarrow> \<exists>s'. run\<^sup>*\<^sup>* s s' \<and> final s'"
proof (induction "size_of s" arbitrary: s rule: less_induct)
  case less
  show ?case
  proof (cases "final s")
    case False
    then obtain t where "run s t" using progress less.prems by blast
    then show ?thesis
      using less.hyps [OF run_smaller [OF less.prems \<open>run s t\<close>] run_inv [OF less.prems \<open>run s t\<close>]]
      by (meson converse_rtranclp_into_rtranclp)
  qed auto
qed

end

subsection \<open>Words\<close>

text \<open>A 32-bit count scaled by a small constant never reaches the sign bit of a duration.\<close>

lemma sint_ucast32_mult:
  fixes x :: uint32 and k :: duration
  assumes "uint k \<le> 1000000"
  shows "sint (ucast x * k) = uint x * uint k"
proof -
  have x: "uint x < 2 ^ 32" using uint_lt2p [of x] by simp
  have "uint x * uint k \<le> 2 ^ 32 * 1000000"
    using x assms by (intro mult_mono) auto
  then have lt: "uint x * uint k < 2 ^ 63" by simp
  have ge: "0 \<le> uint x * uint k" by simp
  have ux: "uint (ucast x :: duration) = uint x"
    using x by (simp add: unsigned_ucast_eq take_bit_int_eq_self)
  have "uint (ucast x * k) = (uint x * uint k) mod 2 ^ 64"
    by (simp add: uint_word_ariths ux)
  also have "\<dots> = uint x * uint k" using lt ge by simp
  finally have u: "uint (ucast x * k) = uint x * uint k" .
  have "sint (ucast x * k) = signed_take_bit 63 (uint (ucast x * k))"
    by (simp add: sint_uint)
  also have "\<dots> = uint x * uint k"
    unfolding u by (rule signed_take_bit_int_eq_self) (use lt ge in linarith)+
  finally show ?thesis .
qed

end
