(* ===== verification/Go_Strings.thy ===== *)
theory Go_Strings
  imports Go_Prelude
begin

text \<open>
  The parts of Go's \<open>strconv\<close>, \<open>fmt\<close> and \<open>strings\<close> packages that the program calls, over
  byte strings: decimal printing, the scanner behind \<open>fmt.Sscanf\<close> for the verbs
  \<^verbatim>\<open>%d\<close> and \<^verbatim>\<open>%s\<close>, and prefix, suffix, trimming and joining operations. White
  space is that of ASCII (tab to carriage return, and blank): the strings scanned here are kernel
  releases and header lines.
\<close>

subsection \<open>Decimal printing: strconv.FormatUint, strconv.FormatInt\<close>

definition digit_char :: "nat \<Rightarrow> char" where
  "digit_char d = char_of (48 + d)"

fun digits10 :: "nat \<Rightarrow> string" where
  "digits10 n = (if n < 10 then [digit_char n] else digits10 (n div 10) @ [digit_char (n mod 10)])"

declare digits10.simps [simp del]

definition FormatUint :: "uint64 \<Rightarrow> string" where
  "FormatUint w = digits10 (unat w)"

definition Itoa :: "int \<Rightarrow> string" where
  "Itoa i = (if i < 0 then CHR ''-'' # digits10 (nat (- i)) else digits10 (nat i))"

definition FormatInt :: "int64 \<Rightarrow> string" where
  "FormatInt w = Itoa (sint w)"

subsection \<open>Reading decimals: strconv.ParseInt in base 10\<close>

definition is_digit :: "char \<Rightarrow> bool" where
  "is_digit c \<longleftrightarrow> 48 \<le> (of_char c :: nat) \<and> (of_char c :: nat) \<le> 57"

definition digits_value :: "string \<Rightarrow> nat" where
  "digits_value ds = foldl (\<lambda>a c. 10 * a + (of_char c - 48)) 0 ds"

definition int64_range :: "int \<Rightarrow> bool" where
  "int64_range i \<longleftrightarrow> - (2 ^ 63) \<le> i \<and> i < 2 ^ 63"

subsection \<open>The scanner of fmt.Sscanf\<close>

definition isSpace :: "char \<Rightarrow> bool" where
  "isSpace c \<longleftrightarrow> (9 \<le> (of_char c :: nat) \<and> (of_char c :: nat) \<le> 13) \<or> (of_char c :: nat) = 32"

text \<open>\<open>SkipSpace\<close> of a scanner for which a newline is no space: None is its panic.\<close>

fun SkipSpace :: "string \<Rightarrow> string option" where
  "SkipSpace [] = Some []"
| "SkipSpace (c # cs) =
     (if of_char c = (10 :: nat) then None
      else if isSpace c then SkipSpace cs
      else Some (c # cs))"

text \<open>
  \<open>scanInt\<close> for \<^verbatim>\<open>%d\<close>: spaces, an optional sign, at least one digit, all the digits that
  follow, and a value that fits 64 bits. The result is the value and the unread input.
\<close>

definition scan_sign :: "string \<Rightarrow> bool \<times> string" where
  "scan_sign inp = (case inp of
     [] \<Rightarrow> (False, [])
   | c # cs \<Rightarrow> if c = CHR ''-'' then (True, cs) else if c = CHR ''+'' then (False, cs) else (False, inp))"

definition scan_number :: "bool \<times> string \<Rightarrow> (int \<times> string) option" where
  "scan_number p = (case p of (neg, inp) \<Rightarrow>
     let ds = takeWhile is_digit inp;
         v = (if neg then - int (digits_value ds) else int (digits_value ds))
     in if ds = [] then None
        else if int64_range v then Some (v, dropWhile is_digit inp) else None)"

definition scanInt :: "string \<Rightarrow> (int \<times> string) option" where
  "scanInt inp = (case SkipSpace inp of
     None \<Rightarrow> None
   | Some rest \<Rightarrow> scan_number (scan_sign rest))"

text \<open>\<open>convertString\<close> for \<^verbatim>\<open>%s\<close>: the next word, which must not be empty.\<close>

definition scanWord :: "string \<Rightarrow> (string \<times> string) option" where
  "scanWord inp = (case SkipSpace inp of
     None \<Rightarrow> None
   | Some [] \<Rightarrow> None
   | Some rest \<Rightarrow> Some (takeWhile (\<lambda>c. \<not> isSpace c) rest, dropWhile (\<lambda>c. \<not> isSpace c) rest))"

datatype directive = Lit char | VerbD | VerbS

datatype scanned = ScanInt int | ScanStr string

text \<open>
  \<open>doScanf\<close>: directives in order until one fails. The values stored so far are the result; their
  number is what \<open>Sscanf\<close> returns beside the error, which the callers ignore.
\<close>

fun doScanf :: "directive list \<Rightarrow> string \<Rightarrow> scanned list" where
  "doScanf [] inp = []"
| "doScanf (Lit l # fmt) inp =
     (case inp of [] \<Rightarrow> [] | c # cs \<Rightarrow> if c = l then doScanf fmt cs else [])"
| "doScanf (VerbD # fmt) inp =
     (case scanInt inp of None \<Rightarrow> [] | Some (v, rest) \<Rightarrow> ScanInt v # doScanf fmt rest)"
| "doScanf (VerbS # fmt) inp =
     (case scanWord inp of None \<Rightarrow> [] | Some (w, rest) \<Rightarrow> ScanStr w # doScanf fmt rest)"

subsection \<open>Package strings\<close>

definition HasPrefix :: "string \<Rightarrow> string \<Rightarrow> bool" where
  "HasPrefix s p \<longleftrightarrow> take (length p) s = p"

definition HasSuffix :: "string \<Rightarrow> string \<Rightarrow> bool" where
  "HasSuffix s p \<longleftrightarrow> length p \<le> length s \<and> drop (length s - length p) s = p"

definition CutPrefix :: "string \<Rightarrow> string \<Rightarrow> string option" where
  "CutPrefix s p = (if HasPrefix s p then Some (drop (length p) s) else None)"

definition TrimLeft :: "string \<Rightarrow> string \<Rightarrow> string" where
  "TrimLeft s cutset = dropWhile (\<lambda>c. c \<in> set cutset) s"

definition TrimRight :: "string \<Rightarrow> string \<Rightarrow> string" where
  "TrimRight s cutset = rev (dropWhile (\<lambda>c. c \<in> set cutset) (rev s))"

definition Trim :: "string \<Rightarrow> string \<Rightarrow> string" where
  "Trim s cutset = TrimRight (TrimLeft s cutset) cutset"

fun Join :: "string list \<Rightarrow> string \<Rightarrow> string" where
  "Join [] sep = []"
| "Join [x] sep = x"
| "Join (x # y # ys) sep = x @ sep @ Join (y # ys) sep"

text \<open>\<open>bytes.SplitSeq\<close> and \<open>strings.Split\<close> on a one-byte separator: never empty.\<close>

fun SplitOn :: "char \<Rightarrow> string \<Rightarrow> string list" where
  "SplitOn d [] = [[]]"
| "SplitOn d (c # cs) =
     (if c = d then [] # SplitOn d cs
      else (case SplitOn d cs of [] \<Rightarrow> [[c]] | l # ls \<Rightarrow> (c # l) # ls))"

subsection \<open>Facts on decimals\<close>

lemma of_char_digit_char: "d < 10 \<Longrightarrow> (of_char (digit_char d) :: nat) = 48 + d"
  by (simp add: digit_char_def)

lemma is_digit_digit_char [simp]: "d < 10 \<Longrightarrow> is_digit (digit_char d)"
  by (simp add: is_digit_def of_char_digit_char)

lemma digits10_nonempty [simp]: "digits10 n \<noteq> []"
  by (subst digits10.simps) simp

lemma digits10_digits: "c \<in> set (digits10 n) \<Longrightarrow> is_digit c"
proof (induction n rule: digits10.induct)
  case (1 n)
  then show ?case by (subst (asm) digits10.simps) (auto split: if_splits)
qed

lemma digits_value_snoc [simp]:
  "digits_value (ds @ [c]) = 10 * digits_value ds + (of_char c - 48)"
  by (simp add: digits_value_def)

lemma digits_value_digits10 [simp]: "digits_value (digits10 n) = n"
proof (induction n rule: digits10.induct)
  case (1 n)
  show ?case
  proof (cases "n < 10")
    case True
    then show ?thesis
      by (subst digits10.simps) (simp add: digits_value_def of_char_digit_char)
  next
    case False
    with 1 show ?thesis
      by (subst digits10.simps) (simp add: of_char_digit_char)
  qed
qed

lemma digits10_inj: "digits10 m = digits10 n \<Longrightarrow> m = n"
  using digits_value_digits10 by metis

lemma FormatUint_inj: "FormatUint a = FormatUint b \<Longrightarrow> a = b"
  by (simp add: FormatUint_def) (metis digits10_inj word_unat_eq_iff)

lemma is_digit_not_sign: "is_digit c \<Longrightarrow> c \<noteq> CHR ''-'' \<and> c \<noteq> CHR ''+''"
  by (auto simp: is_digit_def)

lemma is_digit_not_space: "is_digit c \<Longrightarrow> \<not> isSpace c"
  by (auto simp: is_digit_def isSpace_def)

lemma hd_digits10_digit: "is_digit (hd (digits10 n))"
  by (rule digits10_digits) (rule hd_in_set, simp)

subsection \<open>Scanning what was printed\<close>

lemma SkipSpace_nonspace: "\<not> isSpace c \<Longrightarrow> SkipSpace (c # cs) = Some (c # cs)"
  by (auto simp: isSpace_def)

lemma SkipSpace_hd: "s \<noteq> [] \<Longrightarrow> \<not> isSpace (hd s) \<Longrightarrow> SkipSpace s = Some s"
  by (cases s) (auto simp: isSpace_def)

lemma Itoa_nonempty [simp]: "Itoa i \<noteq> []"
  by (simp add: Itoa_def)

lemma hd_Itoa: "hd (Itoa i) = CHR ''-'' \<or> is_digit (hd (Itoa i))"
  by (simp add: Itoa_def hd_digits10_digit)

lemma hd_Itoa_nonspace: "\<not> isSpace (hd (Itoa i))"
  using hd_Itoa [of i] is_digit_not_space by (auto simp: isSpace_def)

lemma Itoa_no_space: "c \<in> set (Itoa i) \<Longrightarrow> \<not> isSpace c"
  using is_digit_not_space [OF digits10_digits] by (auto simp: Itoa_def isSpace_def split: if_splits)

lemma scan_sign_Itoa:
  "scan_sign (Itoa i @ rest) = (i < 0, digits10 (nat \<bar>i\<bar>) @ rest)"
proof (cases "i < 0")
  case True
  then show ?thesis by (simp add: Itoa_def scan_sign_def)
next
  case False
  obtain c cs where c: "digits10 (nat i) = c # cs" by (cases "digits10 (nat i)") auto
  with hd_digits10_digit [of "nat i"] have "is_digit c" by simp
  then have "c \<noteq> CHR ''-'' \<and> c \<noteq> CHR ''+''" by (rule is_digit_not_sign)
  with False c show ?thesis by (simp add: Itoa_def scan_sign_def)
qed

lemma scanInt_Itoa:
  assumes "int64_range i" and "rest = [] \<or> \<not> is_digit (hd rest)"
  shows "scanInt (Itoa i @ rest) = Some (i, rest)"
proof -
  define ds where "ds = digits10 (nat \<bar>i\<bar>)"
  have ds: "ds \<noteq> []" "int (digits_value ds) = \<bar>i\<bar>" "\<forall>c\<in>set ds. is_digit c"
    by (auto simp: ds_def dest: digits10_digits)
  have tw: "takeWhile is_digit (ds @ rest) = ds" and dw: "dropWhile is_digit (ds @ rest) = rest"
    using ds(3) assms(2) by (rule takeWhile_app_stop, rule dropWhile_app_stop)
  have "SkipSpace (Itoa i @ rest) = Some (Itoa i @ rest)"
    using hd_Itoa_nonspace [of i] by (intro SkipSpace_hd) auto
  then show ?thesis
    using assms(1) ds by (simp add: scanInt_def scan_sign_Itoa scan_number_def tw dw Let_def flip: ds_def)
qed

lemma scanWord_word:
  assumes "w \<noteq> []" and "\<forall>c\<in>set w. \<not> isSpace c"
  shows "scanWord w = Some (w, [])"
proof -
  have "SkipSpace w = Some w" using assms by (intro SkipSpace_hd) auto
  moreover have "takeWhile (\<lambda>c. \<not> isSpace c) w = w" using assms(2) by (simp add: takeWhile_eq_all_conv)
  moreover have "dropWhile (\<lambda>c. \<not> isSpace c) w = []" using assms(2) by (simp add: dropWhile_eq_Nil_conv)
  ultimately show ?thesis using assms(1) by (simp add: scanWord_def split: list.splits)
qed

lemma scanWord_Nil [simp]: "scanWord [] = None"
  by (simp add: scanWord_def)

subsection \<open>Facts on package strings\<close>

lemma HasPrefix_iff: "HasPrefix s p \<longleftrightarrow> (\<exists>t. s = p @ t)"
  by (auto simp: HasPrefix_def) (metis append_take_drop_id)

lemma HasSuffix_iff: "HasSuffix s p \<longleftrightarrow> (\<exists>t. s = t @ p)"
proof
  assume "HasSuffix s p"
  then have "s = take (length s - length p) s @ p"
    unfolding HasSuffix_def by (metis append_take_drop_id)
  then show "\<exists>t. s = t @ p" by blast
qed (auto simp: HasSuffix_def)

lemma CutPrefix_Some: "CutPrefix s p = Some t \<longleftrightarrow> s = p @ t"
  by (auto simp: CutPrefix_def HasPrefix_iff)

lemma CutPrefix_None: "CutPrefix s p = None \<longleftrightarrow> \<not> HasPrefix s p"
  by (simp add: CutPrefix_def)

lemma SplitOn_nonempty [simp]: "SplitOn d s \<noteq> []"
  by (induction s) (auto split: list.splits)

lemma Join_SplitOn: "Join (SplitOn d s) [d] = s"
proof (induction s)
  case (Cons c cs)
  obtain l ls where "SplitOn d cs = l # ls" by (cases "SplitOn d cs") auto
  with Cons show ?case by (cases ls) auto
qed simp

lemma SplitOn_no_sep: "l \<in> set (SplitOn d s) \<Longrightarrow> d \<notin> set l"
  by (induction s arbitrary: l) (auto split: list.splits if_splits)

lemma hd_TrimLeft: "TrimLeft s cs \<noteq> [] \<Longrightarrow> hd (TrimLeft s cs) \<notin> set cs"
  unfolding TrimLeft_def by (rule hd_dropWhile)

lemma last_TrimRight: "TrimRight s cs \<noteq> [] \<Longrightarrow> last (TrimRight s cs) \<notin> set cs"
  unfolding TrimRight_def by (metis hd_dropWhile last_rev rev_is_Nil_conv)

end
