(* ===== verification/Tcp_Info.thy ===== *)
theory Tcp_Info
  imports Go_Strings "HOL-Library.AList"
begin

text \<open>
  Package \<open>pkg/tcpinfo\<close>, the part shared by all operating systems (\<open>tcpinfo.go\<close>): the portable
  \<open>Info\<close> record, TCP options, copying and conversion to a string-keyed map.

  \<open>SysInfo\<close> is a different struct on every operating system, chosen by build tags, so the records
  here take its type as a parameter \<open>'s\<close>. The record \<open>tcpinfo_pkg\<close> collects what the selected
  platform file provides to its callers, and the locale \<open>tcpinfo_package\<close> is the contract those
  callers rely on; the theories of the single platforms interpret it on their own definitions.

  Pointers are options. A \<open>map[string]any\<close> is an association list with distinct keys, its values
  the datatype \<open>any\<close> of the dynamic types the program stores.
\<close>

subsection \<open>Data\<close>

record Option =
  Kind :: string
  OptValue :: uint64

datatype any =
    AString string | ABool bool
  | AUint8 uint8 | AUint16 uint16 | AUint32 uint32 | AUint64 uint64
  | AInt int | AInt64 int64 | ADuration duration
  | AOptions "Option slice" | AStrings "string slice"
  | AMap "(string \<times> any) list"

type_synonym gomap = "(string \<times> any) list"

record 's Info =
  Info_State :: string
  Info_TxOptions :: "Option slice"
  Info_RxOptions :: "Option slice"
  Info_TxMSS :: uint64
  Info_RxMSS :: uint64
  Info_RTT :: duration
  Info_RTTVar :: duration
  Info_RTO :: duration
  Info_ATO :: duration
  Info_LastTxAt :: duration
  Info_LastRxAt :: duration
  Info_LastTxAckAt :: duration
  Info_LastRxAckAt :: duration
  Info_RxWindow :: uint64
  Info_TxSSThreshold :: uint64
  Info_RxSSThreshold :: uint64
  Info_TxWindowBytes :: uint64
  Info_TxWindowSegs :: uint64
  Info_Retransmits :: uint64
  Info_Sys :: "'s option"

text \<open>The zero value \<open>Info{}\<close>, on which composite literals that name some fields build.\<close>

definition Info_zero :: "'s Info" where
  "Info_zero = \<lparr>Info_State = '''', Info_TxOptions = None, Info_RxOptions = None, Info_TxMSS = 0,
     Info_RxMSS = 0, Info_RTT = 0, Info_RTTVar = 0, Info_RTO = 0, Info_ATO = 0, Info_LastTxAt = 0,
     Info_LastRxAt = 0, Info_LastTxAckAt = 0, Info_LastRxAckAt = 0, Info_RxWindow = 0,
     Info_TxSSThreshold = 0, Info_RxSSThreshold = 0, Info_TxWindowBytes = 0, Info_TxWindowSegs = 0,
     Info_Retransmits = 0, Info_Sys = None\<rparr>"

subsection \<open>Conditional map entries and warnings\<close>

text \<open>\<open>if s.X.Valid { r["x"] = s.X.Value }\<close>, once per optional entry.\<close>

primrec put_all :: "(string \<times> any option) list \<Rightarrow> gomap \<Rightarrow> gomap" where
  "put_all [] m = m"
| "put_all (e # es) m =
     put_all es (case snd e of None \<Rightarrow> m | Some v \<Rightarrow> AList.update (fst e) v m)"

text \<open>\<open>if cond { warns = append(warns, msg) }\<close>.\<close>

definition warn_if :: "bool \<Rightarrow> string \<Rightarrow> string slice \<Rightarrow> string slice" where
  "warn_if cond msg warns = (if cond then sappend warns [msg] else warns)"

text \<open>A missing key of a Go map of strings reads as the empty string.\<close>

definition go_index :: "('k \<times> string) list \<Rightarrow> 'k \<Rightarrow> string" where
  "go_index m k = (case map_of m k of None \<Rightarrow> '''' | Some v \<Rightarrow> v)"

subsection \<open>Operations\<close>

definition Info_ToMap :: "('s \<Rightarrow> gomap) \<Rightarrow> 's Info \<Rightarrow> gomap" where
  "Info_ToMap sysToMap i =
     (let m = [(''state'', AString (Info_State i)),
               (''txOptions'', AOptions (Info_TxOptions i)),
               (''rxOptions'', AOptions (Info_RxOptions i)),
               (''txMSS'', AUint64 (Info_TxMSS i)),
               (''rxMSS'', AUint64 (Info_RxMSS i)),
               (''rtt'', ADuration (Info_RTT i)),
               (''rttVar'', ADuration (Info_RTTVar i)),
               (''rto'', ADuration (Info_RTO i)),
               (''ato'', ADuration (Info_ATO i)),
               (''lastTxAt'', ADuration (Info_LastTxAt i)),
               (''lastRxAt'', ADuration (Info_LastRxAt i)),
               (''lastTxAckAt'', ADuration (Info_LastTxAckAt i)),
               (''lastRxAckAt'', ADuration (Info_LastRxAckAt i)),
               (''rxWindow'', AUint64 (Info_RxWindow i)),
               (''txSSThreshold'', AUint64 (Info_TxSSThreshold i)),
               (''rxSSThreshold'', AUint64 (Info_RxSSThreshold i)),
               (''txCWindowBytes'', AUint64 (Info_TxWindowBytes i)),
               (''txCWindowSegs'', AUint64 (Info_TxWindowSegs i)),
               (''retransmits'', AUint64 (Info_Retransmits i))]
      in case Info_Sys i of
           None \<Rightarrow> m
         | Some s \<Rightarrow> AList.update ''sysInfo'' (AMap (sysToMap s)) m)"

definition cloneOptions :: "Option slice \<Rightarrow> Option slice" where
  "cloneOptions opts = (case opts of None \<Rightarrow> None | Some xs \<Rightarrow> sappend None xs)"

definition Info_Clone :: "('s \<Rightarrow> 's) \<Rightarrow> 's Info option \<Rightarrow> 's Info option" where
  "Info_Clone sysClone i = (case i of
     None \<Rightarrow> None
   | Some j \<Rightarrow> Some (j\<lparr>Info_TxOptions := cloneOptions (Info_TxOptions j),
                          Info_RxOptions := cloneOptions (Info_RxOptions j),
                          Info_Sys := map_option sysClone (Info_Sys j)\<rparr>))"

text \<open>The verb \<^verbatim>\<open>%.2x\<close>: lower-case hexadecimal, at least two digits.\<close>

definition hex_char :: "nat \<Rightarrow> char" where
  "hex_char d = (if d < 10 then char_of (48 + d) else char_of (87 + d))"

fun digits16 :: "nat \<Rightarrow> string" where
  "digits16 n = (if n < 16 then [hex_char n] else digits16 (n div 16) @ [hex_char (n mod 16)])"

declare digits16.simps [simp del]

definition hex2 :: "uint64 \<Rightarrow> string" where
  "hex2 w = (let ds = digits16 (unat w) in if length ds < 2 then CHR ''0'' # ds else ds)"

definition Option_String :: "Option \<Rightarrow> string" where
  "Option_String opt =
     (if OptValue opt = 0 then Kind opt else Kind opt @ '':'' @ hex2 (OptValue opt))"

subsection \<open>The platform package and its contract\<close>

record 's tcpinfo_pkg =
  pkg_Supported :: bool
  pkg_GetTCPInfo :: "nat \<Rightarrow> 's option \<times> goerror option"
  pkg_Clone :: "'s \<Rightarrow> 's"
  pkg_ToInfo :: "'s \<Rightarrow> 's Info"
  pkg_ToMap :: "'s \<Rightarrow> gomap"
  pkg_Warnings :: "'s \<Rightarrow> string slice"

text \<open>
  What callers rely on: a copy raises the same warnings, has the same map keys and copies to
  itself; the keys of a map are distinct; the portable view carries its platform record or nothing.
\<close>

locale tcpinfo_package =
  fixes pkg :: "'s tcpinfo_pkg"
  assumes Warnings_Clone: "pkg_Warnings pkg (pkg_Clone pkg s) = pkg_Warnings pkg s"
    and Clone_Clone: "pkg_Clone pkg (pkg_Clone pkg s) = pkg_Clone pkg s"
    and ToMap_keys_Clone: "map fst (pkg_ToMap pkg (pkg_Clone pkg s)) = map fst (pkg_ToMap pkg s)"
    and ToMap_distinct: "distinct (map fst (pkg_ToMap pkg s))"
    and ToInfo_Sys: "Info_Sys (pkg_ToInfo pkg s) = Some s \<or> pkg_ToInfo pkg s = Info_zero"
begin

definition clone_info :: "'s Info option \<Rightarrow> 's Info option" where
  "clone_info = Info_Clone (pkg_Clone pkg)"

definition info_map :: "'s Info \<Rightarrow> gomap" where
  "info_map = Info_ToMap (pkg_ToMap pkg)"

lemma cloneOptions_idem [simp]: "cloneOptions (cloneOptions os) = cloneOptions os"
  by (auto simp: cloneOptions_def sappend_def split: option.splits if_splits)

lemma clone_info_idem: "clone_info (clone_info i) = clone_info i"
  by (cases i)
     (auto simp: clone_info_def Info_Clone_def option.map_comp o_def Clone_Clone)

lemma clone_info_nil: "clone_info i = None \<longleftrightarrow> i = None"
  by (auto simp: clone_info_def Info_Clone_def split: option.splits)

lemma info_map_distinct: "distinct (map fst (info_map i))"
  by (auto simp: info_map_def Info_ToMap_def Let_def split: option.splits intro!: distinct_update)

lemma info_map_keys_clone: "map fst (info_map (the (clone_info (Some i)))) = map fst (info_map i)"
  by (auto simp: info_map_def clone_info_def Info_Clone_def Info_ToMap_def Let_def
           split: option.splits)

end

text \<open>A package that supports the platform answers every query with a record or an error.\<close>

locale tcpinfo_answers = tcpinfo_package pkg
  for pkg :: "'s tcpinfo_pkg" +
  assumes GetTCPInfo_answers: "pkg_Supported pkg \<Longrightarrow> pkg_GetTCPInfo pkg fd \<noteq> (None, None)"

subsection \<open>Facts on maps and warnings\<close>

lemma put_all_distinct: "distinct (map fst m) \<Longrightarrow> distinct (map fst (put_all es m))"
  by (induction es arbitrary: m) (auto split: option.splits intro: distinct_update)

lemma put_all_lookup:
  "distinct (map fst es) \<Longrightarrow>
     map_of (put_all es m) k =
       (case map_of es k of Some (Some v) \<Rightarrow> Some v | _ \<Rightarrow> map_of m k)"
proof (induction es arbitrary: m)
  case (Cons e es)
  have nin: "map_of es (fst e) = None" using Cons.prems by (simp add: map_of_eq_None_iff)
  show ?case
    using Cons nin by (cases e) (auto simp: update_conv' split: option.splits)
qed simp

lemma put_all_keys:
  "map fst m = map fst m' \<Longrightarrow>
   map (\<lambda>e. (fst e, snd e = None)) es = map (\<lambda>e. (fst e, snd e = None)) es' \<Longrightarrow>
   map fst (put_all es m) = map fst (put_all es' m')"
proof (induction es arbitrary: es' m m')
  case (Cons e es)
  then obtain f fs where es': "es' = f # fs" and ef: "fst e = fst f" "snd e = None \<longleftrightarrow> snd f = None"
    and rest: "map (\<lambda>e. (fst e, snd e = None)) es = map (\<lambda>e. (fst e, snd e = None)) fs"
    by auto
  have upd: "map fst (AList.update k v m) = map fst (AList.update k w m')" for k and v w :: any
    using Cons.prems(1) by (simp add: update_keys)
  show ?case
    unfolding es' put_all.simps
    by (rule Cons.IH) (use ef rest upd Cons.prems(1) in \<open>auto split: option.splits\<close>)
qed simp

lemma warn_if_simps [simp]:
  "warn_if True msg w = sappend w [msg]" "warn_if False msg w = w"
  by (simp_all add: warn_if_def)

lemma elems_warn_if: "elems (warn_if c msg w) = elems w @ (if c then [msg] else [])"
  by (simp add: warn_if_def)

subsection \<open>Facts on options and copies\<close>

lemma elems_cloneOptions [simp]: "elems (cloneOptions os) = elems os"
  by (auto simp: cloneOptions_def split: option.splits)

lemma cloneOptions_id: "os \<noteq> Some [] \<Longrightarrow> cloneOptions os = os"
  by (auto simp: cloneOptions_def sappend_def split: option.splits)

lemma cloneOptions_Some_Nil: "cloneOptions (Some []) = None"
  by (simp add: cloneOptions_def sappend_def)

lemma digits16_nonempty [simp]: "digits16 n \<noteq> []"
  by (subst digits16.simps) simp

lemma hex2_length: "2 \<le> length (hex2 w)"
proof (cases "digits16 (unat w)")
  case Nil
  then show ?thesis by simp
qed (auto simp: hex2_def Let_def Suc_le_eq)

text \<open>A copied \<open>Info\<close> agrees with the original in every scalar field and in the elements of
  its option lists, and its platform record is the platform's copy; a nil pointer copies to nil.
  Only an empty option list that is not nil changes: it becomes nil.\<close>

lemma Info_Clone_agrees:
  "Info_Clone sysClone None = None
 \<and> (\<exists>j. Info_Clone sysClone (Some i) = Some j
     \<and> j\<lparr>Info_TxOptions := Info_TxOptions i, Info_RxOptions := Info_RxOptions i, Info_Sys := Info_Sys i\<rparr> = i
     \<and> Info_TxOptions j = (if Info_TxOptions i = Some [] then None else Info_TxOptions i)
     \<and> Info_RxOptions j = (if Info_RxOptions i = Some [] then None else Info_RxOptions i)
     \<and> Info_Sys j = map_option sysClone (Info_Sys i))"
  by (simp add: Info_Clone_def cloneOptions_id cloneOptions_Some_Nil)

end
