(* ===== verification/Conn_Wrap.thy ===== *)
theory Conn_Wrap
  imports Tcp_Info
begin

text \<open>
  The connection wrapper of \<open>wrap.go\<close>: the \<open>Conn\<close> struct and every function on it, one
  definition each.

  The mutex makes every stretch of code between \<open>Lock\<close> and \<open>Unlock\<close> one atomic section; a
  function of one section is one definition, and \<open>Read\<close>, \<open>Write\<close> and \<open>Close\<close> are cut at
  their unlocked calls, so that the same sections serve the sequential definitions here and the
  interleavings of \<open>Conn_Concurrent\<close>.

  The wrapped \<open>net.Conn\<close>, the clock and the callback are outside: what the connection's methods
  return and what the clock shows are arguments of the operations, and a callback is an entry of the
  list of reports an operation makes. The platform part of \<open>pkg/tcpinfo\<close> is the argument \<open>pkg\<close>.
  A call that never returns when it runs alone is \<^const>\<open>None\<close>.
\<close>

subsection \<open>Data\<close>

definition Opened :: int where "Opened = 0"
definition Closed :: int where "Closed = 1"

definition StateMap :: "(int \<times> string) list" where
  "StateMap = [(Opened, ''open''), (Closed, ''close'')]"

text \<open>
  A \<open>net.Addr\<close> is used through its \<open>String\<close> method only. Of a \<open>net.Conn\<close> the wrapper sees
  whether it is a \<open>*net.TCPConn\<close> and its two addresses; its identity tells connections apart.
\<close>

datatype Addr = Addr (Addr_String: string)

record NetConn =
  conn_id :: nat
  is_TCPConn :: bool
  conn_LocalAddr :: "Addr option"
  conn_RemoteAddr :: "Addr option"

text \<open>A function value is only compared with nil and called: it is a number that identifies it.\<close>

type_synonym ReportStatsFn = nat

record wrapOptions =
  emitOpenCallback :: bool

text \<open>
  \<open>closeDone\<close> is nil or a channel that is open (\<^term>\<open>Some False\<close>) or closed. Of the condition
  variable \<open>ioDrained\<close> the record holds whether the pointer is set; its waiters are threads.
\<close>

record ('c, 's) Conn =
  netConn :: "NetConn option"
  Context :: 'c
  reportStats :: "ReportStatsFn option"
  OpenedAt :: int64
  ClosedAt :: int64
  FirstRxAt :: int64
  FirstTxAt :: int64
  LastRxAt :: int64
  LastTxAt :: int64
  TxBytes :: int64
  RxBytes :: int64
  RxErr :: "goerror option"
  TxErr :: "goerror option"
  InfoErr :: "goerror option"
  Reconnects :: int
  OpenedInfo :: "'s Info option"
  ClosedInfo :: "'s Info option"
  supportsTCPInfo :: bool
  closeStarted :: bool
  closeDone :: "bool option"
  closeErr :: "goerror option"
  inFlight :: int
  localAddr :: "Addr option"
  remoteAddr :: "Addr option"
  ioDrained :: bool

text \<open>The zero value \<open>Conn{}\<close> with its context, the base of the composite literals.\<close>

definition Conn_zero :: "'c \<Rightarrow> ('c, 's) Conn" where
  "Conn_zero ctx = \<lparr>netConn = None, Context = ctx, reportStats = None, OpenedAt = 0, ClosedAt = 0,
     FirstRxAt = 0, FirstTxAt = 0, LastRxAt = 0, LastTxAt = 0, TxBytes = 0, RxBytes = 0,
     RxErr = None, TxErr = None, InfoErr = None, Reconnects = 0, OpenedInfo = None,
     ClosedInfo = None, supportsTCPInfo = False, closeStarted = False, closeDone = None,
     closeErr = None, inFlight = 0, localAddr = None, remoteAddr = None, ioDrained = False\<rparr>"

text \<open>One call of the report callback: the function, the snapshot and the state passed to it.\<close>

type_synonym ('c, 's) report = "ReportStatsFn \<times> ('c, 's) Conn \<times> int"

text \<open>
  What \<open>SyscallConn\<close> and \<open>Control\<close> answer: an error of the first, an error of the second, or
  the file descriptor with which \<open>Control\<close> ran its function.
\<close>

datatype control = SyscallConn_error goerror | Control_error goerror | Control_fd nat

subsection \<open>Options\<close>

type_synonym WrapOption = "wrapOptions \<Rightarrow> wrapOptions"

definition WithEmitOpenCallback :: "bool \<Rightarrow> WrapOption" where
  "WithEmitOpenCallback enabled = (\<lambda>opts. opts\<lparr>emitOpenCallback := enabled\<rparr>)"

text \<open>The loop over the options: nil ones are skipped.\<close>

definition apply_options :: "WrapOption option list \<Rightarrow> wrapOptions" where
  "apply_options opts =
     fold (\<lambda>oo cfg. case oo of None \<Rightarrow> cfg | Some f \<Rightarrow> f cfg) opts \<lparr>emitOpenCallback = False\<rparr>"

subsection \<open>Addresses\<close>

definition localAddrLocked :: "('c, 's) Conn \<Rightarrow> Addr option" where
  "localAddrLocked w =
     (if localAddr w \<noteq> None then localAddr w
      else case netConn w of Some c \<Rightarrow> conn_LocalAddr c | None \<Rightarrow> None)"

definition remoteAddrLocked :: "('c, 's) Conn \<Rightarrow> Addr option" where
  "remoteAddrLocked w =
     (if remoteAddr w \<noteq> None then remoteAddr w
      else case netConn w of Some c \<Rightarrow> conn_RemoteAddr c | None \<Rightarrow> None)"

definition addrString :: "Addr option \<Rightarrow> string \<Rightarrow> string" where
  "addrString addr fallback = (case addr of None \<Rightarrow> fallback | Some a \<Rightarrow> Addr_String a)"

definition LocalAddr :: "('c, 's) Conn \<Rightarrow> Addr option" where
  "LocalAddr w = localAddrLocked w"

definition RemoteAddr :: "('c, 's) Conn \<Rightarrow> Addr option" where
  "RemoteAddr w = remoteAddrLocked w"

definition LocalAddrString :: "('c, 's) Conn \<Rightarrow> string" where
  "LocalAddrString w = addrString (localAddrLocked w) ''unknown''"

definition RemoteAddrString :: "('c, 's) Conn \<Rightarrow> string" where
  "RemoteAddrString w = addrString (remoteAddrLocked w) ''unknown''"

subsection \<open>Collecting and applying TCP information\<close>

definition collectTCPInfo ::
  "'s tcpinfo_pkg \<Rightarrow> control \<Rightarrow> ('c, 's) Conn \<Rightarrow> 's Info option \<times> goerror option" where
  "collectTCPInfo pkg ctl w =
     (if \<not> supportsTCPInfo w then (None, None)
      else let conn = netConn w in
        case conn of
          None \<Rightarrow> (None, None)
        | Some c \<Rightarrow>
            if \<not> is_TCPConn c then (None, None)
            else case ctl of
                SyscallConn_error e \<Rightarrow> (None, Some e)
              | Control_error e \<Rightarrow> (None, Some e)
              | Control_fd fd \<Rightarrow>
                  let (sysInfo, infoErr) = pkg_GetTCPInfo pkg fd in
                  case sysInfo of
                    None \<Rightarrow> (None, infoErr)
                  | Some s \<Rightarrow> (Some (pkg_ToInfo pkg s), infoErr))"

definition applyTCPInfoLocked ::
  "int \<Rightarrow> 's Info option \<Rightarrow> goerror option \<Rightarrow> ('c, 's) Conn \<Rightarrow> ('c, 's) Conn" where
  "applyTCPInfoLocked state info infoErr w =
     (let w = (if info \<noteq> None
               then if state = Opened then w\<lparr>OpenedInfo := info\<rparr> else w\<lparr>ClosedInfo := info\<rparr>
               else w)
      in if info \<noteq> None \<or> infoErr \<noteq> None then w\<lparr>InfoErr := infoErr\<rparr> else w)"

definition snapshotLocked :: "'s tcpinfo_pkg \<Rightarrow> ('c, 's) Conn \<Rightarrow> ('c, 's) Conn" where
  "snapshotLocked pkg w = (Conn_zero (Context w))
     \<lparr>OpenedAt := OpenedAt w, ClosedAt := ClosedAt w, FirstRxAt := FirstRxAt w,
      FirstTxAt := FirstTxAt w, LastRxAt := LastRxAt w, LastTxAt := LastTxAt w,
      TxBytes := TxBytes w, RxBytes := RxBytes w, RxErr := RxErr w, TxErr := TxErr w,
      InfoErr := InfoErr w, Reconnects := Reconnects w,
      OpenedInfo := Info_Clone (pkg_Clone pkg) (OpenedInfo w),
      ClosedInfo := Info_Clone (pkg_Clone pkg) (ClosedInfo w),
      supportsTCPInfo := supportsTCPInfo w, closeStarted := closeStarted w,
      closeErr := closeErr w, localAddr := localAddrLocked w, remoteAddr := remoteAddrLocked w\<rparr>"

definition reportState ::
  "'s tcpinfo_pkg \<Rightarrow> int \<Rightarrow> 's Info option \<Rightarrow> goerror option \<Rightarrow> ('c, 's) Conn \<Rightarrow>
     ('c, 's) Conn \<times> ('c, 's) report list" where
  "reportState pkg state info infoErr w =
     (let w = applyTCPInfoLocked state info infoErr w in
      case reportStats w of
        None \<Rightarrow> (w, [])
      | Some fn \<Rightarrow>
          let snapshot = snapshotLocked pkg w;
              snapshot = (if state = Opened then snapshot\<lparr>netConn := netConn w\<rparr> else snapshot)
          in (w, [(fn, snapshot, state)]))"

subsection \<open>Wrapping\<close>

definition WrapConnWithContext ::
  "'s tcpinfo_pkg \<Rightarrow> control \<Rightarrow> int64 \<Rightarrow> 'c \<Rightarrow> NetConn option \<Rightarrow> ReportStatsFn option \<Rightarrow>
     WrapOption option list \<Rightarrow> ('c, 's) Conn \<times> ('c, 's) report list" where
  "WrapConnWithContext pkg ctl now ctx ncon reportStatsFn opts =
     (let cfg = apply_options opts;
          w = (Conn_zero ctx)
            \<lparr>netConn := ncon, reportStats := reportStatsFn, OpenedAt := now,
             supportsTCPInfo := pkg_Supported pkg\<rparr>;
          w = (case ncon of
                 None \<Rightarrow> w
               | Some c \<Rightarrow> w\<lparr>localAddr := conn_LocalAddr c, remoteAddr := conn_RemoteAddr c\<rparr>);
          w = w\<lparr>ioDrained := True\<rparr>;
          (openedInfo, openedInfoErr) = collectTCPInfo pkg ctl w
      in if emitOpenCallback cfg then reportState pkg Opened openedInfo openedInfoErr w
         else (applyTCPInfoLocked Opened openedInfo openedInfoErr w, []))"

definition WrapConn ::
  "'s tcpinfo_pkg \<Rightarrow> control \<Rightarrow> int64 \<Rightarrow> 'c \<Rightarrow> NetConn option \<Rightarrow> ReportStatsFn option \<Rightarrow>
     WrapOption option list \<Rightarrow> ('c, 's) Conn \<times> ('c, 's) report list" where
  "WrapConn pkg ctl now background ncon reportStatsFn opts =
     WrapConnWithContext pkg ctl now background ncon reportStatsFn opts"

subsection \<open>Reading and writing\<close>

definition beginIO :: "('c, 's) Conn \<Rightarrow> (goerror + NetConn) \<times> ('c, 's) Conn" where
  "beginIO w =
     (if closeStarted w then (Inl ErrClosed, w)
      else case netConn w of
        None \<Rightarrow> (Inl ErrClosed, w)
      | Some c \<Rightarrow> (Inr c, w\<lparr>inFlight := inFlight w + 1\<rparr>))"

text \<open>
  \<open>finishIO\<close> calls \<open>Broadcast\<close> or not; on a struct whose \<open>ioDrained\<close> is nil the call would
  panic. The state is the one left by the rest of the function.
\<close>

datatype wakeup = No_wakeup | Broadcast | Nil_panic

definition finishIO :: "('c, 's) Conn \<Rightarrow> wakeup \<times> ('c, 's) Conn" where
  "finishIO w =
     (let w = w\<lparr>inFlight := inFlight w - 1\<rparr>;
          b = (if closeStarted w \<and> inFlight w = 0
               then if ioDrained w then Broadcast else Nil_panic
               else No_wakeup);
          w = (if inFlight w < 0 then w\<lparr>inFlight := 0\<rparr> else w)
      in (b, w))"

text \<open>The locked sections of \<open>Read\<close> and \<open>Write\<close>, after the wrapped call returned \<open>(n, err)\<close>.\<close>

definition Read_account ::
  "int \<Rightarrow> goerror option \<Rightarrow> int64 \<Rightarrow> ('c, 's) Conn \<Rightarrow> ('c, 's) Conn" where
  "Read_account n err ts w =
     (let w = (if err = None \<and> n > 0
               then if FirstRxAt w = 0 then w\<lparr>FirstRxAt := ts, LastRxAt := ts\<rparr>
                    else w\<lparr>LastRxAt := ts\<rparr>
               else w);
          w = w\<lparr>RxBytes := RxBytes w + word_of_int n\<rparr>
      in if is_hard_net_error err then w\<lparr>RxErr := err\<rparr> else w)"

definition Write_account ::
  "int \<Rightarrow> goerror option \<Rightarrow> int64 \<Rightarrow> ('c, 's) Conn \<Rightarrow> ('c, 's) Conn" where
  "Write_account n err ts w =
     (let w = (if err = None \<and> n > 0
               then if FirstTxAt w = 0 then w\<lparr>FirstTxAt := ts, LastTxAt := ts\<rparr>
                    else w\<lparr>LastTxAt := ts\<rparr>
               else w);
          w = w\<lparr>TxBytes := TxBytes w + word_of_int n\<rparr>
      in if is_hard_net_error err then w\<lparr>TxErr := err\<rparr> else w)"

definition Read ::
  "(NetConn \<Rightarrow> int \<times> goerror option) \<Rightarrow> int64 \<Rightarrow> ('c, 's) Conn \<Rightarrow>
     (int \<times> goerror option) \<times> ('c, 's) Conn" where
  "Read conn_Read ts w =
     (case beginIO w of
        (Inl e, w) \<Rightarrow> ((0, Some e), w)
      | (Inr conn, w) \<Rightarrow>
          let (n, err) = conn_Read conn;
              w = Read_account n err ts w;
              (_, w) = finishIO w
          in ((n, err), w))"

definition Write ::
  "(NetConn \<Rightarrow> int \<times> goerror option) \<Rightarrow> int64 \<Rightarrow> ('c, 's) Conn \<Rightarrow>
     (int \<times> goerror option) \<times> ('c, 's) Conn" where
  "Write conn_Write ts w =
     (case beginIO w of
        (Inl e, w) \<Rightarrow> ((0, Some e), w)
      | (Inr conn, w) \<Rightarrow>
          let (n, err) = conn_Write conn;
              w = Write_account n err ts w;
              (_, w) = finishIO w
          in ((n, err), w))"

subsection \<open>Deadlines and reconnects\<close>

text \<open>The locked reads of \<open>withLiveConn\<close>: an error to return, or the connection to use.\<close>

definition liveConn :: "('c, 's) Conn \<Rightarrow> goerror + NetConn" where
  "liveConn w =
     (let refuse = (case closeErr w of Some e \<Rightarrow> Inl e | None \<Rightarrow> Inl ErrClosed)
      in if closeStarted w then refuse
         else case netConn w of None \<Rightarrow> refuse | Some c \<Rightarrow> Inr c)"

definition withLiveConn ::
  "(NetConn \<Rightarrow> goerror option) \<Rightarrow> ('c, 's) Conn \<Rightarrow> goerror option" where
  "withLiveConn fn w = (case liveConn w of Inl e \<Rightarrow> Some e | Inr c \<Rightarrow> fn c)"

definition SetDeadline :: "(NetConn \<Rightarrow> 't \<Rightarrow> goerror option) \<Rightarrow> 't \<Rightarrow> ('c, 's) Conn \<Rightarrow> goerror option" where
  "SetDeadline conn_SetDeadline t w = withLiveConn (\<lambda>conn. conn_SetDeadline conn t) w"

definition SetReadDeadline :: "(NetConn \<Rightarrow> 't \<Rightarrow> goerror option) \<Rightarrow> 't \<Rightarrow> ('c, 's) Conn \<Rightarrow> goerror option" where
  "SetReadDeadline conn_SetReadDeadline t w = withLiveConn (\<lambda>conn. conn_SetReadDeadline conn t) w"

definition SetWriteDeadline :: "(NetConn \<Rightarrow> 't \<Rightarrow> goerror option) \<Rightarrow> 't \<Rightarrow> ('c, 's) Conn \<Rightarrow> goerror option" where
  "SetWriteDeadline conn_SetWriteDeadline t w = withLiveConn (\<lambda>conn. conn_SetWriteDeadline conn t) w"

definition SetReconnects :: "int \<Rightarrow> ('c, 's) Conn \<Rightarrow> ('c, 's) Conn" where
  "SetReconnects reconnects w = w\<lparr>Reconnects := reconnects\<rparr>"

subsection \<open>Closing\<close>

text \<open>
  The first section of \<open>Close\<close> finds the channel of an earlier call, returns an error when there
  is no connection, or starts to close the connection.
\<close>

datatype closing = Wait_done | Refused goerror | Closing NetConn

definition Close_start :: "int64 \<Rightarrow> ('c, 's) Conn \<Rightarrow> closing \<times> ('c, 's) Conn" where
  "Close_start now w =
     (if closeDone w \<noteq> None then (Wait_done, w)
      else case netConn w of
        None \<Rightarrow> (case closeErr w of Some e \<Rightarrow> (Refused e, w) | None \<Rightarrow> (Refused ErrClosed, w))
      | Some conn \<Rightarrow> (Closing conn, w\<lparr>closeStarted := True, ClosedAt := now, closeDone := Some False\<rparr>))"

text \<open>The section after the wrapped \<open>Close\<close>, up to the loop that waits for running I/O.\<close>

definition Close_detach :: "goerror option \<Rightarrow> ('c, 's) Conn \<Rightarrow> ('c, 's) Conn" where
  "Close_detach err w = w\<lparr>closeErr := err, netConn := None\<rparr>"

text \<open>The section after the loop: the final information and the snapshot to report.\<close>

definition Close_finish ::
  "'s tcpinfo_pkg \<Rightarrow> 's Info option \<Rightarrow> goerror option \<Rightarrow> ('c, 's) Conn \<Rightarrow>
     ('c, 's) Conn \<times> ('c, 's) report list" where
  "Close_finish pkg info infoErr w =
     (let w = applyTCPInfoLocked Closed info infoErr w;
          snapshot = snapshotLocked pkg w
      in (w, case reportStats w of None \<Rightarrow> [] | Some fn \<Rightarrow> [(fn, snapshot, Closed)]))"

text \<open>The deferred \<open>close(done)\<close>.\<close>

definition Close_done :: "('c, 's) Conn \<Rightarrow> ('c, 's) Conn" where
  "Close_done w = w\<lparr>closeDone := Some True\<rparr>"

text \<open>
  \<open>Close\<close> without other calls: waiting for a channel that is not closed, or for I/O in flight,
  never ends.
\<close>

definition Close ::
  "'s tcpinfo_pkg \<Rightarrow> control \<Rightarrow> (NetConn \<Rightarrow> goerror option) \<Rightarrow> int64 \<Rightarrow> ('c, 's) Conn \<Rightarrow>
     (goerror option \<times> ('c, 's) Conn \<times> ('c, 's) report list) option" where
  "Close pkg ctl conn_Close now w =
     (case Close_start now w of
        (Wait_done, w) \<Rightarrow> if closeDone w = Some True then Some (closeErr w, w, []) else None
      | (Refused e, w) \<Rightarrow> Some (Some e, w, [])
      | (Closing conn, w) \<Rightarrow>
          let (closedInfo, closedInfoErr) = collectTCPInfo pkg ctl w;
              err = conn_Close conn;
              w = Close_detach err w
          in if inFlight w > 0 then None
             else let (w, reports) = Close_finish pkg closedInfo closedInfoErr w
                  in Some (err, Close_done w, reports))"

subsection \<open>Warnings and maps\<close>

definition info_warnings :: "'s tcpinfo_pkg \<Rightarrow> 's Info option \<Rightarrow> string slice \<Rightarrow> string slice" where
  "info_warnings pkg info warns = (case info of
     None \<Rightarrow> warns
   | Some i \<Rightarrow>
       let warns = warn_if (Info_Retransmits i > 0)
             (''retransmits='' @ FormatInt (Info_Retransmits i)) warns
       in case Info_Sys i of
            None \<Rightarrow> warns
          | Some sys \<Rightarrow> sappend warns (elems (pkg_Warnings pkg sys)))"

definition warnings :: "'s tcpinfo_pkg \<Rightarrow> ('c, 's) Conn \<Rightarrow> string slice" where
  "warnings pkg w =
     (let warns = warn_if (Reconnects w > 0) (''reconnects='' @ Itoa (Reconnects w)) None
      in fold (info_warnings pkg) [OpenedInfo w, ClosedInfo w] warns)"

definition Warnings :: "'s tcpinfo_pkg \<Rightarrow> ('c, 's) Conn \<Rightarrow> string slice" where
  "Warnings pkg w = warnings pkg w"

text \<open>The entries that are always there, and those for errors and information that are set.\<close>

definition map_base :: "'s tcpinfo_pkg \<Rightarrow> ('c, 's) Conn \<Rightarrow> gomap" where
  "map_base pkg w =
     [(''openedAt'', AInt64 (OpenedAt w)),
      (''closedAt'', AInt64 (ClosedAt w)),
      (''firstRxAt'', AInt64 (FirstRxAt w)),
      (''firstTxAt'', AInt64 (FirstTxAt w)),
      (''lastRxAt'', AInt64 (LastRxAt w)),
      (''lastTxAt'', AInt64 (LastTxAt w)),
      (''txBytes'', AInt64 (TxBytes w)),
      (''rxBytes'', AInt64 (RxBytes w)),
      (''reconnects'', AInt (Reconnects w)),
      (''localAddr'', AString (addrString (localAddrLocked w) '''')),
      (''remoteAddr'', AString (addrString (remoteAddrLocked w) '''')),
      (''warnings'', AStrings (warnings pkg w))]"

definition map_set :: "'s tcpinfo_pkg \<Rightarrow> ('c, 's) Conn \<Rightarrow> (string \<times> any option) list" where
  "map_set pkg w =
     [(''rxErr'', map_option (\<lambda>e. AString (error_text e)) (RxErr w)),
      (''txErr'', map_option (\<lambda>e. AString (error_text e)) (TxErr w)),
      (''infoErr'', map_option (\<lambda>e. AString (error_text e)) (InfoErr w)),
      (''openedInfo'', map_option (\<lambda>i. AMap (Info_ToMap (pkg_ToMap pkg) i)) (OpenedInfo w)),
      (''closedInfo'', map_option (\<lambda>i. AMap (Info_ToMap (pkg_ToMap pkg) i)) (ClosedInfo w))]"

definition ToMap :: "'s tcpinfo_pkg \<Rightarrow> ('c, 's) Conn \<Rightarrow> gomap" where
  "ToMap pkg w = put_all (map_set pkg w) (map_base pkg w)"

subsection \<open>Vocabulary of the properties\<close>

text \<open>What \<open>Read\<close> and \<open>Write\<close> account for, as a tuple, and what a history of returned calls
  leaves there: totals modulo the width, the first and last time of a call that moved data, and the
  last error that is no timeout.\<close>

definition rx_stats :: "('c, 's) Conn \<Rightarrow> int64 \<times> int64 \<times> int64 \<times> goerror option" where
  "rx_stats w = (RxBytes w, FirstRxAt w, LastRxAt w, RxErr w)"

definition tx_stats :: "('c, 's) Conn \<Rightarrow> int64 \<times> int64 \<times> int64 \<times> goerror option" where
  "tx_stats w = (TxBytes w, FirstTxAt w, LastTxAt w, TxErr w)"

type_synonym io_record = "int \<times> goerror option \<times> int64"

definition moved_times :: "io_record list \<Rightarrow> int64 list" where
  "moved_times hs = [ts. (n, err, ts) \<leftarrow> hs, err = None \<and> n > 0]"

definition hard_errors :: "io_record list \<Rightarrow> goerror option list" where
  "hard_errors hs = [err. (n, err, ts) \<leftarrow> hs, is_hard_net_error err]"

definition stats_of_history :: "io_record list \<Rightarrow> int64 \<times> int64 \<times> int64 \<times> goerror option" where
  "stats_of_history hs =
     (word_of_int (sum_list (map fst hs)),
      (case dropWhile (\<lambda>t. t = 0) (moved_times hs) of [] \<Rightarrow> 0 | t # _ \<Rightarrow> t),
      (case rev (moved_times hs) of [] \<Rightarrow> 0 | t # _ \<Rightarrow> t),
      (case rev (hard_errors hs) of [] \<Rightarrow> None | e # _ \<Rightarrow> e))"

text \<open>A wrapper refuses I/O once closing has begun, and always when it wraps nothing.\<close>

definition live :: "('c, 's) Conn \<Rightarrow> bool" where
  "live w \<longleftrightarrow> \<not> closeStarted w \<and> netConn w \<noteq> None"

text \<open>A connection and a wrapper for the examples.\<close>

definition demo_netconn :: NetConn where
  "demo_netconn = \<lparr>conn_id = 1, is_TCPConn = True, conn_LocalAddr = Some (Addr ''127.0.0.1:9''),
     conn_RemoteAddr = None\<rparr>"

definition demo_conn :: "(unit, unit) Conn" where
  "demo_conn = (Conn_zero ())\<lparr>netConn := Some demo_netconn, reportStats := Some 7, ioDrained := True\<rparr>"

definition demo_pkg :: "unit tcpinfo_pkg" where
  "demo_pkg = \<lparr>pkg_Supported = False, pkg_GetTCPInfo = (\<lambda>_. (None, None)), pkg_Clone = (\<lambda>s. s),
     pkg_ToInfo = (\<lambda>_. Info_zero), pkg_ToMap = (\<lambda>_. []), pkg_Warnings = (\<lambda>_. None)\<rparr>"

text \<open>The value that the last option leaves, nil options aside.\<close>

definition last_emit :: "bool option list \<Rightarrow> bool" where
  "last_emit bs = (case rev (filter (\<lambda>b. b \<noteq> None) bs) of [] \<Rightarrow> False | b # _ \<Rightarrow> b = Some True)"

subsection \<open>Effects of the sections\<close>

lemma applyTCPInfo_simps [conn_simps, simp]:
  "netConn (applyTCPInfoLocked st i ie w) = netConn w"
  "Context (applyTCPInfoLocked st i ie w) = Context w"
  "reportStats (applyTCPInfoLocked st i ie w) = reportStats w"
  "OpenedAt (applyTCPInfoLocked st i ie w) = OpenedAt w"
  "ClosedAt (applyTCPInfoLocked st i ie w) = ClosedAt w"
  "FirstRxAt (applyTCPInfoLocked st i ie w) = FirstRxAt w"
  "FirstTxAt (applyTCPInfoLocked st i ie w) = FirstTxAt w"
  "LastRxAt (applyTCPInfoLocked st i ie w) = LastRxAt w"
  "LastTxAt (applyTCPInfoLocked st i ie w) = LastTxAt w"
  "TxBytes (applyTCPInfoLocked st i ie w) = TxBytes w"
  "RxBytes (applyTCPInfoLocked st i ie w) = RxBytes w"
  "RxErr (applyTCPInfoLocked st i ie w) = RxErr w"
  "TxErr (applyTCPInfoLocked st i ie w) = TxErr w"
  "Reconnects (applyTCPInfoLocked st i ie w) = Reconnects w"
  "supportsTCPInfo (applyTCPInfoLocked st i ie w) = supportsTCPInfo w"
  "closeStarted (applyTCPInfoLocked st i ie w) = closeStarted w"
  "closeDone (applyTCPInfoLocked st i ie w) = closeDone w"
  "closeErr (applyTCPInfoLocked st i ie w) = closeErr w"
  "inFlight (applyTCPInfoLocked st i ie w) = inFlight w"
  "localAddr (applyTCPInfoLocked st i ie w) = localAddr w"
  "remoteAddr (applyTCPInfoLocked st i ie w) = remoteAddr w"
  "ioDrained (applyTCPInfoLocked st i ie w) = ioDrained w"
  by (simp_all add: applyTCPInfoLocked_def Let_def)

lemma account_frame [conn_simps, simp]:
  "netConn (Read_account n err ts w) = netConn w"
  "reportStats (Read_account n err ts w) = reportStats w"
  "closeStarted (Read_account n err ts w) = closeStarted w"
  "closeDone (Read_account n err ts w) = closeDone w"
  "closeErr (Read_account n err ts w) = closeErr w"
  "inFlight (Read_account n err ts w) = inFlight w"
  "ioDrained (Read_account n err ts w) = ioDrained w"
  "netConn (Write_account n err ts w) = netConn w"
  "reportStats (Write_account n err ts w) = reportStats w"
  "closeStarted (Write_account n err ts w) = closeStarted w"
  "closeDone (Write_account n err ts w) = closeDone w"
  "closeErr (Write_account n err ts w) = closeErr w"
  "inFlight (Write_account n err ts w) = inFlight w"
  "ioDrained (Write_account n err ts w) = ioDrained w"
  by (simp_all add: Read_account_def Write_account_def Let_def)

subsection \<open>Statistics\<close>

lemma first_nonzero_snoc:
  fixes ms :: "int64 list"
  shows "(case dropWhile (\<lambda>t. t = 0) (ms @ [ts]) of [] \<Rightarrow> 0 | t # _ \<Rightarrow> t) =
    (if (case dropWhile (\<lambda>t. t = 0) ms of [] \<Rightarrow> 0 | t # _ \<Rightarrow> t) = 0 then ts
     else case dropWhile (\<lambda>t. t = 0) ms of [] \<Rightarrow> 0 | t # _ \<Rightarrow> t)"
  by (induction ms) auto

lemma stats_of_history_snoc:
  "stats_of_history (hs @ [(n, err, ts)]) =
     (case stats_of_history hs of (b, f, l, e) \<Rightarrow>
       (b + word_of_int n,
        if err = None \<and> n > 0 then if f = 0 then ts else f else f,
        if err = None \<and> n > 0 then ts else l,
        if is_hard_net_error err then err else e))"
  by (simp add: stats_of_history_def moved_times_def hard_errors_def first_nonzero_snoc)

lemma rx_stats_account [conn_simps]:
  "rx_stats (Read_account n err ts w) =
     (case rx_stats w of (b, f, l, e) \<Rightarrow>
       (b + word_of_int n,
        if err = None \<and> n > 0 then if f = 0 then ts else f else f,
        if err = None \<and> n > 0 then ts else l,
        if is_hard_net_error err then err else e))"
  "tx_stats (Read_account n err ts w) = tx_stats w"
  by (simp_all add: rx_stats_def tx_stats_def Read_account_def Let_def)

lemma tx_stats_account [conn_simps]:
  "tx_stats (Write_account n err ts w) =
     (case tx_stats w of (b, f, l, e) \<Rightarrow>
       (b + word_of_int n,
        if err = None \<and> n > 0 then if f = 0 then ts else f else f,
        if err = None \<and> n > 0 then ts else l,
        if is_hard_net_error err then err else e))"
  "rx_stats (Write_account n err ts w) = rx_stats w"
  by (simp_all add: rx_stats_def tx_stats_def Write_account_def Let_def)

subsection \<open>Single calls\<close>

lemma beginIO_live [conn_simps]:
  "\<not> closeStarted w \<Longrightarrow> netConn w = Some c \<Longrightarrow> beginIO w = (Inr c, w\<lparr>inFlight := inFlight w + 1\<rparr>)"
  by (simp add: beginIO_def)

lemma beginIO_refused [conn_simps]: "\<not> live w \<Longrightarrow> beginIO w = (Inl ErrClosed, w)"
  by (auto simp: beginIO_def live_def split: option.splits)

lemma finishIO_undoes_beginIO:
  "0 \<le> inFlight w \<Longrightarrow> \<not> closeStarted w \<Longrightarrow>
     finishIO (w\<lparr>inFlight := inFlight w + 1\<rparr>) = (No_wakeup, w)"
  by (simp add: finishIO_def Let_def)

lemma account_inFlight [simp]:
  "Read_account n err ts (w\<lparr>inFlight := k\<rparr>) = (Read_account n err ts w)\<lparr>inFlight := k\<rparr>"
  "Write_account n err ts (w\<lparr>inFlight := k\<rparr>) = (Write_account n err ts w)\<lparr>inFlight := k\<rparr>"
  by (simp_all add: Read_account_def Write_account_def Let_def)

lemma Read_Write_live:
  assumes "0 \<le> inFlight w" "netConn w = Some c" "\<not> closeStarted w"
  shows "Read rd ts w = (rd c, Read_account (fst (rd c)) (snd (rd c)) ts w)"
    "Write wr ts w = (wr c, Write_account (fst (wr c)) (snd (wr c)) ts w)"
proof -
  have "finishIO ((Read_account n err ts w)\<lparr>inFlight := inFlight w + 1\<rparr>) = (No_wakeup, Read_account n err ts w)"
    "finishIO ((Write_account n err ts w)\<lparr>inFlight := inFlight w + 1\<rparr>) = (No_wakeup, Write_account n err ts w)" for n err
    using assms finishIO_undoes_beginIO [of "Read_account n err ts w"]
      finishIO_undoes_beginIO [of "Write_account n err ts w"] by simp_all
  then show "Read rd ts w = (rd c, Read_account (fst (rd c)) (snd (rd c)) ts w)"
    "Write wr ts w = (wr c, Write_account (fst (wr c)) (snd (wr c)) ts w)"
    using assms by (simp_all add: Read_def Write_def beginIO_live split: prod.split)
qed



lemma demo_conn_simps [simp]:
  "netConn demo_conn = Some demo_netconn" "reportStats demo_conn = Some 7" "ioDrained demo_conn"
  "\<not> closeStarted demo_conn" "closeDone demo_conn = None" "closeErr demo_conn = None"
  "inFlight demo_conn = 0" "RxBytes demo_conn = 0" "\<not> supportsTCPInfo demo_conn"
  by (simp_all add: demo_conn_def Conn_zero_def)


lemma Close_start_live [conn_simps]:
  "closeDone w = None \<Longrightarrow> netConn w = Some c \<Longrightarrow>
     Close_start now w = (Closing c, w\<lparr>closeStarted := True, ClosedAt := now, closeDone := Some False\<rparr>)"
  by (simp add: Close_start_def)

lemma Close_start_again [conn_simps]: "closeDone w \<noteq> None \<Longrightarrow> Close_start now w = (Wait_done, w)"
  by (simp add: Close_start_def)

lemma Close_finish_simps [conn_simps]:
  "netConn (fst (Close_finish pkg i ie w)) = netConn w"
  "reportStats (fst (Close_finish pkg i ie w)) = reportStats w"
  "closeStarted (fst (Close_finish pkg i ie w)) = closeStarted w"
  "closeDone (fst (Close_finish pkg i ie w)) = closeDone w"
  "closeErr (fst (Close_finish pkg i ie w)) = closeErr w"
  "inFlight (fst (Close_finish pkg i ie w)) = inFlight w"
  "ioDrained (fst (Close_finish pkg i ie w)) = ioDrained w"
  "rx_stats (fst (Close_finish pkg i ie w)) = rx_stats w"
  "tx_stats (fst (Close_finish pkg i ie w)) = tx_stats w"
  by (simp_all add: Close_finish_def Let_def rx_stats_def tx_stats_def)

lemma Close_finish_reports:
  "snd (Close_finish pkg i ie w) =
     (case reportStats w of None \<Rightarrow> []
      | Some fn \<Rightarrow> [(fn, snapshotLocked pkg (fst (Close_finish pkg i ie w)), Closed)])"
  by (simp add: Close_finish_def Let_def split: option.split)

text \<open>C13: \<open>Close\<close> on a live wrapper with no call in flight returns the error of the wrapped
  \<open>Close\<close> and reports once, with the final state, if there is a callback. From then on every
  \<open>Close\<close> returns that same error and reports nothing, \<open>Read\<close> and \<open>Write\<close> are refused and the
  deadline functions return the close error, or \<open>net.ErrClosed\<close> when there was none.\<close>

theorem Close_once:
  assumes "netConn w = Some c" "closeDone w = None" "inFlight w = 0"
  shows "\<exists>w' reports. Close pkg ctl cl now w = Some (cl c, w', reports)
     \<and> reports = (case reportStats w of None \<Rightarrow> []
                  | Some fn \<Rightarrow> [(fn, snapshotLocked pkg w', Closed)])
     \<and> Close pkg ctl' cl' now' w' = Some (cl c, w', [])
     \<and> Read rd ts w' = ((0, Some ErrClosed), w') \<and> Write wr ts w' = ((0, Some ErrClosed), w')
     \<and> withLiveConn fn' w' = Some (case cl c of None \<Rightarrow> ErrClosed | Some e \<Rightarrow> e)"
proof -
  define w1 where "w1 = w\<lparr>closeStarted := True, ClosedAt := now, closeDone := Some False\<rparr>"
  obtain i ie where col: "collectTCPInfo pkg ctl w1 = (i, ie)" by fastforce
  define w2 where "w2 = fst (Close_finish pkg i ie (Close_detach (cl c) w1))"
  define w' where "w' = Close_done w2"
  have start: "Close_start now w = (Closing c, w1)"
    using assms by (simp add: Close_start_live w1_def)
  have w2: "netConn w2 = None" "closeStarted w2" "closeErr w2 = cl c" "reportStats w2 = reportStats w"
    by (simp_all add: w2_def conn_simps Close_detach_def w1_def)
  have w': "netConn w' = None" "closeStarted w'" "closeErr w' = cl c" "closeDone w' = Some True"
    "reportStats w' = reportStats w"
    using w2 by (simp_all add: w'_def Close_done_def)
  have snap: "snapshotLocked pkg w' = snapshotLocked pkg w2"
    by (simp add: w'_def Close_done_def snapshotLocked_def localAddrLocked_def remoteAddrLocked_def)
  have rs: "reportStats (Close_detach (cl c) w1) = reportStats w"
    by (simp add: Close_detach_def w1_def)
  have fin: "Close_finish pkg i ie (Close_detach (cl c) w1) =
     (w2, case reportStats w of None \<Rightarrow> [] | Some fn \<Rightarrow> [(fn, snapshotLocked pkg w', Closed)])"
    using Close_finish_reports [of pkg i ie "Close_detach (cl c) w1"] rs
    by (intro prod_eqI) (simp_all add: w2_def [symmetric] snap split: option.split)
  have "inFlight (Close_detach (cl c) w1) = 0"
    using assms(3) by (simp add: Close_detach_def w1_def)
  then have "Close pkg ctl cl now w =
     Some (cl c, w', case reportStats w of None \<Rightarrow> [] | Some fn \<Rightarrow> [(fn, snapshotLocked pkg w', Closed)])"
    by (simp add: Close_def start col Let_def fin w'_def)
  moreover have "Close pkg ctl' cl' now' w' = Some (cl c, w', [])"
    using w' by (simp add: Close_def conn_simps)
  moreover have "Read rd ts w' = ((0, Some ErrClosed), w')" "Write wr ts w' = ((0, Some ErrClosed), w')"
    using w' by (simp_all add: Read_def Write_def beginIO_refused live_def)
  moreover have "withLiveConn fn' w' = Some (case cl c of None \<Rightarrow> ErrClosed | Some e \<Rightarrow> e)"
    using w' by (auto simp: withLiveConn_def liveConn_def Let_def split: option.splits)
  ultimately show ?thesis by blast
qed

theorem Close_once_witness:
  "\<exists>w' snap. Close demo_pkg (Control_fd 3) (\<lambda>_. Some (errors_New ''reset'')) 44 demo_conn
       = Some (Some (errors_New ''reset''), w', [(7, snap, Closed)])"
  using Close_once [of demo_conn demo_netconn demo_pkg "Control_fd 3" "\<lambda>_. Some (errors_New ''reset'')" 44
      "Control_fd 4" "\<lambda>_. None" 45 "\<lambda>_. (0, None)" 46 "\<lambda>_. (0, None)" "\<lambda>_. None"]
  by auto

text \<open>C14: a snapshot is the wrapper with its connection, callback and synchronisation removed, its
  TCP information copied and its addresses resolved; no operation on it reaches the connection:
  reading, writing, deadlines and \<open>Close\<close> are all refused without any change and without a
  report, and its addresses are those of the wrapper.\<close>

theorem snapshot_inert:
  "snapshotLocked pkg w =
     w\<lparr>netConn := None, reportStats := None, closeDone := None, inFlight := 0, ioDrained := False,
       OpenedInfo := Info_Clone (pkg_Clone pkg) (OpenedInfo w),
       ClosedInfo := Info_Clone (pkg_Clone pkg) (ClosedInfo w),
       localAddr := LocalAddr w, remoteAddr := RemoteAddr w\<rparr>
 \<and> Read rd ts (snapshotLocked pkg w) = ((0, Some ErrClosed), snapshotLocked pkg w)
 \<and> Write wr ts (snapshotLocked pkg w) = ((0, Some ErrClosed), snapshotLocked pkg w)
 \<and> withLiveConn fn (snapshotLocked pkg w) = Some (case closeErr w of None \<Rightarrow> ErrClosed | Some e \<Rightarrow> e)
 \<and> Close pkg ctl cl now (snapshotLocked pkg w) =
     Some (Some (case closeErr w of None \<Rightarrow> ErrClosed | Some e \<Rightarrow> e), snapshotLocked pkg w, [])
 \<and> LocalAddr (snapshotLocked pkg w) = LocalAddr w \<and> RemoteAddr (snapshotLocked pkg w) = RemoteAddr w"
proof -
  let ?s = "snapshotLocked pkg w"
  have s: "netConn ?s = None" "closeDone ?s = None" "closeErr ?s = closeErr w"
    "localAddr ?s = LocalAddr w" "remoteAddr ?s = RemoteAddr w"
    by (simp_all add: snapshotLocked_def Conn_zero_def LocalAddr_def RemoteAddr_def)
  have "?s = w\<lparr>netConn := None, reportStats := None, closeDone := None, inFlight := 0, ioDrained := False,
       OpenedInfo := Info_Clone (pkg_Clone pkg) (OpenedInfo w),
       ClosedInfo := Info_Clone (pkg_Clone pkg) (ClosedInfo w),
       localAddr := LocalAddr w, remoteAddr := RemoteAddr w\<rparr>"
    by (cases w) (simp add: snapshotLocked_def Conn_zero_def LocalAddr_def RemoteAddr_def)
  moreover have "Read rd ts ?s = ((0, Some ErrClosed), ?s)" "Write wr ts ?s = ((0, Some ErrClosed), ?s)"
    using s by (simp_all add: Read_def Write_def beginIO_refused live_def)
  moreover have "withLiveConn fn ?s = Some (case closeErr w of None \<Rightarrow> ErrClosed | Some e \<Rightarrow> e)"
    using s by (auto simp: withLiveConn_def liveConn_def Let_def split: option.splits)
  moreover have "Close pkg ctl cl now ?s =
     Some (Some (case closeErr w of None \<Rightarrow> ErrClosed | Some e \<Rightarrow> e), ?s, [])"
    using s by (auto simp: Close_def Close_start_def split: option.splits)
  moreover have "LocalAddr ?s = LocalAddr w" "RemoteAddr ?s = RemoteAddr w"
    using s by (auto simp: LocalAddr_def RemoteAddr_def localAddrLocked_def remoteAddrLocked_def)
  ultimately show ?thesis by blast
qed

lemma collect_cong:
  "supportsTCPInfo w = supportsTCPInfo v \<Longrightarrow> netConn w = netConn v \<Longrightarrow>
     collectTCPInfo pkg ctl w = collectTCPInfo pkg ctl v"
  by (simp add: collectTCPInfo_def)

lemma apply_options_last:
  "emitOpenCallback (apply_options (map (map_option WithEmitOpenCallback) bs)) = last_emit bs"
proof (induction bs rule: rev_induct)
  case (snoc b bs)
  then show ?case
    by (cases b) (simp_all add: apply_options_def last_emit_def WithEmitOpenCallback_def)
qed (simp add: apply_options_def last_emit_def)

lemma WrapConn_eq:
  fixes pkg :: "'s tcpinfo_pkg" and ctx :: 'c
  shows "WrapConnWithContext pkg ctl now ctx ncon fn opts =
     (let (i, ie) = collectTCPInfo pkg ctl (Conn_zero ctx\<lparr>netConn := ncon, supportsTCPInfo := pkg_Supported pkg\<rparr>);
          w = Conn_zero ctx\<lparr>netConn := ncon, reportStats := fn, OpenedAt := now,
                supportsTCPInfo := pkg_Supported pkg, OpenedInfo := i, InfoErr := ie,
                localAddr := Option.bind ncon conn_LocalAddr,
                remoteAddr := Option.bind ncon conn_RemoteAddr, ioDrained := True\<rparr>
      in (w, case fn of None \<Rightarrow> []
             | Some f \<Rightarrow> if emitOpenCallback (apply_options opts) then [(f, (snapshotLocked pkg w)\<lparr>netConn := ncon\<rparr>, Opened)] else []))"
proof -
  define w0 :: "('c, 's) Conn" where "w0 = Conn_zero ctx\<lparr>netConn := ncon, reportStats := fn, OpenedAt := now,
    supportsTCPInfo := pkg_Supported pkg, localAddr := Option.bind ncon conn_LocalAddr,
    remoteAddr := Option.bind ncon conn_RemoteAddr, ioDrained := True\<rparr>"
  obtain i ie where col: "collectTCPInfo pkg ctl w0 = (i, ie)" by fastforce
  have same: "collectTCPInfo pkg ctl (Conn_zero ctx\<lparr>netConn := ncon, supportsTCPInfo := pkg_Supported pkg\<rparr>) = (i, ie)"
    using col collect_cong [of w0 "Conn_zero ctx\<lparr>netConn := ncon, supportsTCPInfo := pkg_Supported pkg\<rparr>"]
    by (simp add: w0_def)
  have wrap: "WrapConnWithContext pkg ctl now ctx ncon fn opts =
     (if emitOpenCallback (apply_options opts) then reportState pkg Opened i ie w0
      else (applyTCPInfoLocked Opened i ie w0, []))" for opts
    using col
    by (cases ncon)
       (simp_all add: WrapConnWithContext_def Let_def w0_def Conn_zero_def)
  have "applyTCPInfoLocked Opened i ie w0 = w0\<lparr>OpenedInfo := i, InfoErr := ie\<rparr>"
    by (cases i; cases ie) (simp_all add: applyTCPInfoLocked_def Let_def w0_def Conn_zero_def)
  then show ?thesis
    by (simp add: wrap same reportState_def Let_def)
       (simp add: w0_def Conn_zero_def split: option.split)
qed

text \<open>C15: wrapping calls back exactly when there is a callback and the last option that is not nil
  enables it, once, in the opened state, with a snapshot that keeps the connection. The options
  change nothing else: the wrapper, with its opening time, information, error and addresses, is the
  same with and without the report.\<close>

theorem WrapConn_reports:
  fixes pkg :: "'s tcpinfo_pkg" and ctx :: 'c
  shows "WrapConnWithContext pkg ctl now ctx ncon fn (map (map_option WithEmitOpenCallback) bs) =
     (let (i, ie) = collectTCPInfo pkg ctl (Conn_zero ctx\<lparr>netConn := ncon, supportsTCPInfo := pkg_Supported pkg\<rparr>);
          w = Conn_zero ctx\<lparr>netConn := ncon, reportStats := fn, OpenedAt := now,
                supportsTCPInfo := pkg_Supported pkg, OpenedInfo := i, InfoErr := ie,
                localAddr := Option.bind ncon conn_LocalAddr,
                remoteAddr := Option.bind ncon conn_RemoteAddr, ioDrained := True\<rparr>
      in (w, case fn of None \<Rightarrow> []
             | Some f \<Rightarrow> if last_emit bs then [(f, (snapshotLocked pkg w)\<lparr>netConn := ncon\<rparr>, Opened)] else []))"
  unfolding WrapConn_eq apply_options_last ..

subsection \<open>Maps and warnings of a snapshot\<close>

lemma snapshot_simps [simp]:
  "OpenedAt (snapshotLocked pkg w) = OpenedAt w" "ClosedAt (snapshotLocked pkg w) = ClosedAt w"
  "FirstRxAt (snapshotLocked pkg w) = FirstRxAt w" "FirstTxAt (snapshotLocked pkg w) = FirstTxAt w"
  "LastRxAt (snapshotLocked pkg w) = LastRxAt w" "LastTxAt (snapshotLocked pkg w) = LastTxAt w"
  "TxBytes (snapshotLocked pkg w) = TxBytes w" "RxBytes (snapshotLocked pkg w) = RxBytes w"
  "RxErr (snapshotLocked pkg w) = RxErr w" "TxErr (snapshotLocked pkg w) = TxErr w"
  "InfoErr (snapshotLocked pkg w) = InfoErr w" "Reconnects (snapshotLocked pkg w) = Reconnects w"
  "OpenedInfo (snapshotLocked pkg w) = Info_Clone (pkg_Clone pkg) (OpenedInfo w)"
  "ClosedInfo (snapshotLocked pkg w) = Info_Clone (pkg_Clone pkg) (ClosedInfo w)"
  "closeErr (snapshotLocked pkg w) = closeErr w" "netConn (snapshotLocked pkg w) = None"
  "localAddrLocked (snapshotLocked pkg w) = localAddrLocked w"
  "remoteAddrLocked (snapshotLocked pkg w) = remoteAddrLocked w"
  by (simp_all add: snapshotLocked_def Conn_zero_def, auto simp: localAddrLocked_def remoteAddrLocked_def)

lemma map_set_keys_distinct: "distinct (map fst (map_set pkg w))"
  by (simp add: map_set_def)

lemma ToMap_distinct: "distinct (map fst (ToMap pkg w))"
  unfolding ToMap_def by (rule put_all_distinct) (simp add: map_base_def)

lemma info_warnings_app:
  "info_warnings pkg i w = sappend w (elems (info_warnings pkg i None))"
  by (auto simp: info_warnings_def warn_if_def Let_def split: option.split)

context tcpinfo_package
begin

lemma info_warnings_clone: "info_warnings pkg (Info_Clone (pkg_Clone pkg) i) = info_warnings pkg i"
  by (rule ext)
     (auto simp: info_warnings_def Info_Clone_def Warnings_Clone Let_def split: option.split)

lemma warnings_snapshot: "warnings pkg (snapshotLocked pkg w) = warnings pkg w"
  by (simp add: warnings_def info_warnings_clone snapshotLocked_def)

lemma map_base_snapshot: "map_base pkg (snapshotLocked pkg w) = map_base pkg w"
  by (simp add: map_base_def warnings_snapshot)

lemma ToMap_snapshot_keys: "map fst (ToMap pkg (snapshotLocked pkg w)) = map fst (ToMap pkg w)"
  unfolding ToMap_def map_base_snapshot
  by (rule put_all_keys) (simp_all add: map_set_def Info_Clone_def split: option.split)

lemma ToMap_snapshot:
  assumes "k \<notin> {''openedInfo'', ''closedInfo''}"
  shows "map_of (ToMap pkg (snapshotLocked pkg w)) k = map_of (ToMap pkg w) k"
proof -
  have "map_of (map_set pkg (snapshotLocked pkg w)) k = map_of (map_set pkg w) k"
    using assms by (simp add: map_set_def)
  then show ?thesis
    by (simp add: ToMap_def put_all_lookup map_set_keys_distinct map_base_snapshot)
qed

end

subsection \<open>Collecting is never silent\<close>

context tcpinfo_answers
begin

lemma collect_answers:
  "collectTCPInfo pkg ctl w = (None, None) \<longleftrightarrow>
     \<not> (supportsTCPInfo w \<and> (\<exists>c. netConn w = Some c \<and> is_TCPConn c))"
  if "supportsTCPInfo w \<Longrightarrow> pkg_Supported pkg"
  using that GetTCPInfo_answers
  by (auto simp: collectTCPInfo_def Let_def split: option.split control.split prod.split)
     (metis not_None_eq)

lemma wrap_collects:
  "(let w = fst (WrapConnWithContext pkg ctl now ctx ncon fn opts) in OpenedInfo w = None \<and> InfoErr w = None)
     \<longleftrightarrow> \<not> (pkg_Supported pkg \<and> (\<exists>c. ncon = Some c \<and> is_TCPConn c))"
proof -
  let ?w = "Conn_zero ctx\<lparr>netConn := ncon, supportsTCPInfo := pkg_Supported pkg\<rparr>"
  obtain i ie where col: "collectTCPInfo pkg ctl ?w = (i, ie)" by fastforce
  show ?thesis using collect_answers [of ?w ctl] by (simp add: WrapConn_eq col Let_def)
qed

end

end
