(* ===== verification/Conn_Concurrent.thy ===== *)
theory Conn_Concurrent
  imports Conn_Wrap "HOL-Library.Multiset"
begin

text \<open>
  The wrapper under concurrent calls. A system is the shared \<open>Conn\<close>, one program counter per call
  made so far, and a log of what happened at the boundary to the wrapped connection and to the
  callback. \<open>exec\<close> performs the next atomic section or unlocked call of a call, with the
  definitions of \<open>Conn_Wrap\<close>; \<open>step\<close> interleaves the calls in any order and starts new ones at
  any time. What the wrapped connection, the clock and the kernel answer is chosen anew at every
  step.

  The invariant counts the calls in flight, tells how far the closing has come from where its call
  stands, and relates the statistics to the log. The callback is taken to return at some time, and
  so are the methods of the wrapped connection; a call that waits for \<open>closeDone\<close> or for
  \<open>ioDrained\<close> can go on only when the code lets it.
\<close>

subsection \<open>Calls in progress\<close>

datatype dir = Rx | Tx

datatype result =
    IO_result dir int "goerror option"
  | Close_result "goerror option"
  | Live_result "goerror option"
  | Unit_result

text \<open>
  Where a call stands: \<open>Read\<close> and \<open>Write\<close> before \<open>beginIO\<close>, in the wrapped call, before the
  accounting and before \<open>finishIO\<close>; \<open>Close\<close> before its first section, waiting for the channel
  and before reading the stored error, or, when it closes, before collecting, before the wrapped
  \<open>Close\<close>, before the second section, asleep in \<open>ioDrained.Wait\<close> and woken from it, before the
  callback, in it, and before the deferred \<open>close(done)\<close>; \<open>withLiveConn\<close> before its section
  and in the function it was given; \<open>SetReconnects\<close>; and a call that has returned.
\<close>

datatype ('c, 's) pc =
    IO_call dir
  | IO_run dir NetConn
  | IO_got dir int "goerror option"
  | IO_acc dir int "goerror option"
  | Cl_call
  | Cl_wait_done
  | Cl_read_err
  | Cl_begun NetConn
  | Cl_collected NetConn "'s Info option" "goerror option"
  | Cl_closed "'s Info option" "goerror option" "goerror option"
  | Cl_sleep "'s Info option" "goerror option" "goerror option"
  | Cl_awake "'s Info option" "goerror option" "goerror option"
  | Cl_report "('c, 's) report list" "goerror option"
  | Cl_callback "('c, 's) report list" "goerror option"
  | Cl_deferred "goerror option"
  | Lv_call
  | Lv_run NetConn
  | Sr_call int
  | Done result

text \<open>The log: wrapped I/O begun and returned, its accounting, the wrapped \<open>Close\<close>, callbacks.\<close>

datatype ('c, 's) event =
    E_begin dir NetConn
  | E_io dir int "goerror option"
  | E_account dir int "goerror option" int64
  | E_close NetConn "goerror option"
  | E_report "('c, 's) report"
  | E_reported

record 's env =
  env_io :: "int \<times> goerror option"
  env_now :: int64
  env_ctl :: control
  env_kern :: "nat \<Rightarrow> 's option \<times> goerror option"
  env_close :: "goerror option"
  env_live :: "goerror option"

record ('c, 's) sys =
  shared :: "('c, 's) Conn"
  threads :: "('c, 's) pc list"
  log :: "('c, 's) event list"

subsection \<open>One step of a call\<close>

definition account :: "dir \<Rightarrow> int \<Rightarrow> goerror option \<Rightarrow> int64 \<Rightarrow> ('c, 's) Conn \<Rightarrow> ('c, 's) Conn" where
  "account d n err ts w =
     (case d of Rx \<Rightarrow> Read_account n err ts w | Tx \<Rightarrow> Write_account n err ts w)"

type_synonym ('c, 's) outcome = "('c, 's) pc \<times> ('c, 's) Conn \<times> ('c, 's) event list \<times> wakeup"

text \<open>The end of the second section of \<open>Close\<close>: the loop test, then the snapshot or the sleep. On a struct whose
  \<open>ioDrained\<close> is nil the call of \<open>Wait\<close> panics.\<close>

definition close_drained ::
  "'s tcpinfo_pkg \<Rightarrow> 's Info option \<Rightarrow> goerror option \<Rightarrow> goerror option \<Rightarrow> ('c, 's) Conn \<Rightarrow> ('c, 's) outcome" where
  "close_drained pkg info infoErr err w =
     (if inFlight w > 0 then (Cl_sleep info infoErr err, w, [], if ioDrained w then No_wakeup else Nil_panic)
      else let (w, reports) = Close_finish pkg info infoErr w
           in (Cl_report reports err, w, [], No_wakeup))"

fun exec :: "'s tcpinfo_pkg \<Rightarrow> 's env \<Rightarrow> ('c, 's) pc \<Rightarrow> ('c, 's) Conn \<Rightarrow> ('c, 's) outcome option" where
  "exec pkg e (IO_call d) w =
     (case beginIO w of
        (Inl err, w) \<Rightarrow> Some (Done (IO_result d 0 (Some err)), w, [], No_wakeup)
      | (Inr conn, w) \<Rightarrow> Some (IO_run d conn, w, [E_begin d conn], No_wakeup))"
| "exec pkg e (IO_run d conn) w =
     (let (n, err) = env_io e in Some (IO_got d n err, w, [E_io d n err], No_wakeup))"
| "exec pkg e (IO_got d n err) w =
     Some (IO_acc d n err, account d n err (env_now e) w, [E_account d n err (env_now e)], No_wakeup)"
| "exec pkg e (IO_acc d n err) w =
     (let (b, w) = finishIO w in Some (Done (IO_result d n err), w, [], b))"
| "exec pkg e Cl_call w =
     (case Close_start (env_now e) w of
        (Wait_done, w) \<Rightarrow> Some (Cl_wait_done, w, [], No_wakeup)
      | (Refused err, w) \<Rightarrow> Some (Done (Close_result (Some err)), w, [], No_wakeup)
      | (Closing conn, w) \<Rightarrow> Some (Cl_begun conn, w, [], No_wakeup))"
| "exec pkg e Cl_wait_done w =
     (if closeDone w = Some True then Some (Cl_read_err, w, [], No_wakeup) else None)"
| "exec pkg e Cl_read_err w = Some (Done (Close_result (closeErr w)), w, [], No_wakeup)"
| "exec pkg e (Cl_begun conn) w =
     (let (info, infoErr) = collectTCPInfo (pkg\<lparr>pkg_GetTCPInfo := env_kern e\<rparr>) (env_ctl e) w
      in Some (Cl_collected conn info infoErr, w, [], No_wakeup))"
| "exec pkg e (Cl_collected conn info infoErr) w =
     Some (Cl_closed info infoErr (env_close e), w, [E_close conn (env_close e)], No_wakeup)"
| "exec pkg e (Cl_closed info infoErr err) w =
     Some (close_drained pkg info infoErr err (Close_detach err w))"
| "exec pkg e (Cl_sleep info infoErr err) w = None"
| "exec pkg e (Cl_awake info infoErr err) w = Some (close_drained pkg info infoErr err w)"
| "exec pkg e (Cl_report reports err) w =
     Some (Cl_callback reports err, w, map E_report reports, No_wakeup)"
| "exec pkg e (Cl_callback reports err) w =
     Some (Cl_deferred err, w, map (\<lambda>_. E_reported) reports, No_wakeup)"
| "exec pkg e (Cl_deferred err) w = Some (Done (Close_result err), Close_done w, [], No_wakeup)"
| "exec pkg e Lv_call w =
     (case liveConn w of
        Inl err \<Rightarrow> Some (Done (Live_result (Some err)), w, [], No_wakeup)
      | Inr conn \<Rightarrow> Some (Lv_run conn, w, [], No_wakeup))"
| "exec pkg e (Lv_run conn) w = Some (Done (Live_result (env_live e)), w, [], No_wakeup)"
| "exec pkg e (Sr_call n) w = Some (Done Unit_result, SetReconnects n w, [], No_wakeup)"
| "exec pkg e (Done r) w = None"

subsection \<open>Interleavings\<close>

text \<open>\<open>Broadcast\<close> wakes every call asleep on \<open>ioDrained\<close>.\<close>

fun awaken :: "('c, 's) pc \<Rightarrow> ('c, 's) pc" where
  "awaken (Cl_sleep info infoErr err) = Cl_awake info infoErr err"
| "awaken p = p"

definition wake :: "wakeup \<Rightarrow> ('c, 's) pc list \<Rightarrow> ('c, 's) pc list" where
  "wake b ts = (if b = Broadcast then map awaken ts else ts)"

definition run_thread ::
  "'s tcpinfo_pkg \<Rightarrow> nat \<Rightarrow> 's env \<Rightarrow> ('c, 's) sys \<Rightarrow> ('c, 's) sys option" where
  "run_thread pkg i e s =
     (if i < length (threads s)
      then case exec pkg e (threads s ! i) (shared s) of
             None \<Rightarrow> None
           | Some (p, w, evs, b) \<Rightarrow>
               Some \<lparr>shared = w, threads = wake b ((threads s)[i := p]), log = log s @ evs\<rparr>
      else None)"

fun is_call :: "('c, 's) pc \<Rightarrow> bool" where
  "is_call (IO_call d) = True"
| "is_call Cl_call = True"
| "is_call Lv_call = True"
| "is_call (Sr_call n) = True"
| "is_call _ = False"

definition spawn :: "('c, 's) pc \<Rightarrow> ('c, 's) sys \<Rightarrow> ('c, 's) sys" where
  "spawn p s = s\<lparr>threads := threads s @ [p]\<rparr>"

inductive runs :: "'s tcpinfo_pkg \<Rightarrow> ('c, 's) sys \<Rightarrow> ('c, 's) sys \<Rightarrow> bool" for pkg where
  run: "run_thread pkg i e s = Some s' \<Longrightarrow> runs pkg s s'"

inductive step :: "'s tcpinfo_pkg \<Rightarrow> ('c, 's) sys \<Rightarrow> ('c, 's) sys \<Rightarrow> bool" for pkg where
  call: "is_call p \<Longrightarrow> step pkg s (spawn p s)"
| run: "runs pkg s s' \<Longrightarrow> step pkg s s'"

inductive_cases runsE: "runs pkg s s'"
inductive_cases stepE: "step pkg s s'"

text \<open>A system starts as a connection just wrapped, with no call, whatever the kernel answered.\<close>

inductive started :: "'s tcpinfo_pkg \<Rightarrow> NetConn \<Rightarrow> ('c, 's) sys \<Rightarrow> bool" for pkg conn where
  started: "fst (WrapConnWithContext (pkg\<lparr>pkg_GetTCPInfo := kern\<rparr>) ctl now ctx (Some conn) fn opts) = w \<Longrightarrow>
    started pkg conn \<lparr>shared = w, threads = [], log = []\<rparr>"

inductive_cases startedE: "started pkg conn s"

definition reachable :: "'s tcpinfo_pkg \<Rightarrow> NetConn \<Rightarrow> ('c, 's) sys \<Rightarrow> bool" where
  "reachable pkg conn s \<longleftrightarrow> (\<exists>s0. started pkg conn s0 \<and> (step pkg)\<^sup>*\<^sup>* s0 s)"

end
