(* ===== verification/Conn_Invariant.thy ===== *)
theory Conn_Invariant
  imports Conn_Concurrent
begin

text \<open>
  The invariant of the wrapper under concurrent calls and its proof.

  \<open>inv_count\<close> says that \<open>inFlight\<close> is the number of calls between \<open>beginIO\<close> and
  \<open>finishIO\<close> and that one call closes exactly while \<open>closeDone\<close> is an open channel.
  \<open>pc_ok\<close> says for every place a call can stand at what the shared state and the log are then;
  a call asleep on \<open>ioDrained\<close> has I/O to wait for, and a woken one has none.
  \<open>inv_stats\<close> ties the statistics to the log: they are those of the accounted calls, and what
  the wrapped connection returned and was not accounted for is still held by a call in flight.
  \<open>inv_log\<close> is the promise of the closing report. Each part is kept by every step of \<open>exec\<close>;
  the lemmas of the section on other calls show that a step keeps what the calls beside it rely on.
\<close>

subsection \<open>Where calls stand\<close>

fun busy :: "('c, 's) pc \<Rightarrow> bool" where
  "busy (IO_run d c) = True"
| "busy (IO_got d n err) = True"
| "busy (IO_acc d n err) = True"
| "busy _ = False"

fun closer :: "('c, 's) pc \<Rightarrow> bool" where
  "closer (Cl_begun c) = True"
| "closer (Cl_collected c i ie) = True"
| "closer (Cl_closed i ie err) = True"
| "closer (Cl_sleep i ie err) = True"
| "closer (Cl_awake i ie err) = True"
| "closer (Cl_report rs err) = True"
| "closer (Cl_callback rs err) = True"
| "closer (Cl_deferred err) = True"
| "closer _ = False"

text \<open>Returned by the wrapped connection but not yet accounted for.\<close>

fun pending :: "('c, 's) pc \<Rightarrow> (dir \<times> int \<times> goerror option) list" where
  "pending (IO_got d n err) = [(d, n, err)]"
| "pending _ = []"

subsection \<open>What the log tells\<close>

fun io_of :: "('c, 's) event \<Rightarrow> (dir \<times> int \<times> goerror option) list" where
  "io_of (E_io d n err) = [(d, n, err)]"
| "io_of _ = []"

fun account_of :: "('c, 's) event \<Rightarrow> (dir \<times> io_record) list" where
  "account_of (E_account d n err ts) = [(d, n, err, ts)]"
| "account_of _ = []"

fun close_of :: "('c, 's) event \<Rightarrow> (NetConn \<times> goerror option) list" where
  "close_of (E_close c err) = [(c, err)]"
| "close_of _ = []"

fun report_of :: "('c, 's) event \<Rightarrow> ('c, 's) report list" where
  "report_of (E_report r) = [r]"
| "report_of _ = []"

fun is_reported :: "('c, 's) event \<Rightarrow> bool" where
  "is_reported E_reported = True"
| "is_reported _ = False"

definition ios :: "('c, 's) event list \<Rightarrow> (dir \<times> int \<times> goerror option) list" where
  "ios l = concat (map io_of l)"

definition accounted :: "('c, 's) event list \<Rightarrow> (dir \<times> io_record) list" where
  "accounted l = concat (map account_of l)"

definition closes :: "('c, 's) event list \<Rightarrow> (NetConn \<times> goerror option) list" where
  "closes l = concat (map close_of l)"

definition reports :: "('c, 's) event list \<Rightarrow> ('c, 's) report list" where
  "reports l = concat (map report_of l)"

text \<open>The number of callbacks that have returned.\<close>

definition returned :: "('c, 's) event list \<Rightarrow> nat" where
  "returned l = length (filter is_reported l)"

definition history :: "dir \<Rightarrow> ('c, 's) event list \<Rightarrow> io_record list" where
  "history d l = map snd (filter (\<lambda>r. fst r = d) (accounted l))"

definition stats :: "dir \<Rightarrow> ('c, 's) Conn \<Rightarrow> int64 \<times> int64 \<times> int64 \<times> goerror option" where
  "stats d w = (case d of Rx \<Rightarrow> rx_stats w | Tx \<Rightarrow> tx_stats w)"

text \<open>Every returned call of the log has been accounted for, and the statistics are those of the
  accounted calls.\<close>

definition settled :: "('c, 's) event list \<Rightarrow> bool" where
  "settled l \<longleftrightarrow> mset (ios l) = mset (map (\<lambda>(d, n, err, ts). (d, n, err)) (accounted l))"

definition complete :: "('c, 's) event list \<Rightarrow> ('c, 's) Conn \<Rightarrow> bool" where
  "complete l w \<longleftrightarrow> (\<forall>d. stats d w = stats_of_history (history d l))"

subsection \<open>The invariant\<close>

definition detached :: "NetConn \<Rightarrow> ('c, 's) Conn \<Rightarrow> ('c, 's) event list \<Rightarrow> goerror option \<Rightarrow> bool" where
  "detached conn w l err \<longleftrightarrow> netConn w = None \<and> closeErr w = err \<and> closes l = [(conn, err)]"

definition attached :: "NetConn \<Rightarrow> ('c, 's) Conn \<Rightarrow> ('c, 's) event list \<Rightarrow> bool" where
  "attached conn w l \<longleftrightarrow> netConn w = Some conn \<and> closeErr w = None \<and> reports l = [] \<and> returned l = 0"

definition final_report :: "('c, 's) Conn \<Rightarrow> ('c, 's) event list \<Rightarrow> ('c, 's) report list \<Rightarrow> bool" where
  "final_report w l rs \<longleftrightarrow>
     (case reportStats w of
        None \<Rightarrow> rs = []
      | Some fn \<Rightarrow> \<exists>snap. rs = [(fn, snap, Closed)] \<and> complete l snap
                    \<and> closeErr snap = closeErr w \<and> netConn snap = None)"

fun pc_ok :: "NetConn \<Rightarrow> ('c, 's) Conn \<Rightarrow> ('c, 's) event list \<Rightarrow> ('c, 's) pc \<Rightarrow> bool" where
  "pc_ok conn w l (IO_run d c) = (c = conn)"
| "pc_ok conn w l Cl_wait_done = (closeDone w \<noteq> None)"
| "pc_ok conn w l Cl_read_err = (closeDone w = Some True)"
| "pc_ok conn w l (Cl_begun c) = (c = conn \<and> attached conn w l \<and> closes l = [])"
| "pc_ok conn w l (Cl_collected c i ie) = (c = conn \<and> attached conn w l \<and> closes l = [])"
| "pc_ok conn w l (Cl_closed i ie err) = (attached conn w l \<and> closes l = [(conn, err)])"
| "pc_ok conn w l (Cl_sleep i ie err) =
     (detached conn w l err \<and> reports l = [] \<and> returned l = 0 \<and> inFlight w > 0)"
| "pc_ok conn w l (Cl_awake i ie err) =
     (detached conn w l err \<and> reports l = [] \<and> returned l = 0 \<and> inFlight w = 0)"
| "pc_ok conn w l (Cl_report rs err) =
     (detached conn w l err \<and> reports l = [] \<and> returned l = 0 \<and> inFlight w = 0 \<and> final_report w l rs)"
| "pc_ok conn w l (Cl_callback rs err) =
     (detached conn w l err \<and> reports l = rs \<and> returned l = 0 \<and> inFlight w = 0 \<and> final_report w l rs)"
| "pc_ok conn w l (Cl_deferred err) =
     (detached conn w l err \<and> returned l = length (reports l) \<and> inFlight w = 0
      \<and> final_report w l (reports l))"
| "pc_ok conn w l (Done (Close_result err)) = (closeDone w = Some True \<and> err = closeErr w)"
| "pc_ok conn w l p = True"

definition inv_shared :: "NetConn \<Rightarrow> ('c, 's) Conn \<Rightarrow> ('c, 's) event list \<Rightarrow> bool" where
  "inv_shared conn w l \<longleftrightarrow> ioDrained w \<and> (closeStarted w \<longleftrightarrow> closeDone w \<noteq> None)
     \<and> (closeDone w = None \<longrightarrow> attached conn w l \<and> closes l = [])
     \<and> (closeDone w = Some True \<longrightarrow>
          detached conn w l (closeErr w) \<and> returned l = length (reports l) \<and> inFlight w = 0
          \<and> final_report w l (reports l))"

definition inv_count :: "('c, 's) Conn \<Rightarrow> ('c, 's) pc list \<Rightarrow> bool" where
  "inv_count w ts \<longleftrightarrow> inFlight w = int (length (filter busy ts))
     \<and> length (filter closer ts) = (if closeDone w = Some False then 1 else 0)"

definition inv_stats :: "('c, 's) Conn \<Rightarrow> ('c, 's) pc list \<Rightarrow> ('c, 's) event list \<Rightarrow> bool" where
  "inv_stats w ts l \<longleftrightarrow> complete l w
     \<and> mset (ios l) = mset (map (\<lambda>(d, n, err, ts). (d, n, err)) (accounted l)) + mset (concat (map pending ts))"

text \<open>A report comes after the wrapped \<open>Close\<close>, accounts for all I/O, and nothing comes after it.\<close>

definition inv_log :: "NetConn \<Rightarrow> ('c, 's) event list \<Rightarrow> bool" where
  "inv_log conn l \<longleftrightarrow> (\<forall>pre fn snap st post. l = pre @ E_report (fn, snap, st) # post \<longrightarrow>
     st = Closed \<and> netConn snap = None \<and> closes pre = [(conn, closeErr snap)] \<and> settled pre
     \<and> complete pre snap \<and> (\<forall>ev\<in>set post. ev = E_reported))"

definition conn_inv :: "NetConn \<Rightarrow> ('c, 's) sys \<Rightarrow> bool" where
  "conn_inv conn s \<longleftrightarrow> inv_shared conn (shared s) (log s) \<and> inv_count (shared s) (threads s)
     \<and> (\<forall>p\<in>set (threads s). pc_ok conn (shared s) (log s) p)
     \<and> inv_stats (shared s) (threads s) (log s) \<and> inv_log conn (log s)"

subsection \<open>Logs\<close>

lemma log_append [simp]:
  "ios (l @ k) = ios l @ ios k" "accounted (l @ k) = accounted l @ accounted k"
  "closes (l @ k) = closes l @ closes k" "reports (l @ k) = reports l @ reports k"
  "returned (l @ k) = returned l + returned k"
  "history d (l @ k) = history d l @ history d k"
  by (simp_all add: ios_def accounted_def closes_def reports_def returned_def history_def)

lemma log_single [simp]:
  "returned [] = 0" "returned (ev # l) = (if is_reported ev then 1 else 0) + returned l"
  "ios [] = []" "accounted [] = []" "closes [] = []" "reports [] = []" "history d [] = []"
  "ios (ev # l) = io_of ev @ ios l" "accounted (ev # l) = account_of ev @ accounted l"
  "closes (ev # l) = close_of ev @ closes l" "reports (ev # l) = report_of ev @ reports l"
  by (simp_all add: ios_def accounted_def closes_def reports_def returned_def history_def)

lemma history_account [simp]:
  "history d (E_account d' n err ts # l) = (if d' = d then [(n, err, ts)] else []) @ history d l"
  by (simp add: history_def accounted_def)

lemma history_other [simp]: "account_of ev = [] \<Longrightarrow> history d (ev # l) = history d l"
  by (simp add: history_def accounted_def)

lemma log_reports [simp]:
  "reports (map E_report rs) = rs" "closes (map E_report rs) = []" "ios (map E_report rs) = []"
  "accounted (map E_report rs) = []" "history d (map E_report rs) = []" "returned (map E_report rs) = 0"
  by (induction rs) simp_all

lemma log_reported [simp]:
  "reports (map (\<lambda>_. E_reported) rs) = []" "closes (map (\<lambda>_. E_reported) rs) = []"
  "ios (map (\<lambda>_. E_reported) rs) = []" "accounted (map (\<lambda>_. E_reported) rs) = []"
  "history d (map (\<lambda>_. E_reported) rs) = []" "returned (map (\<lambda>_. E_reported) rs) = length rs"
  by (induction rs) simp_all

subsection \<open>Waking\<close>

lemma awaken_same [simp]: "busy (awaken p) = busy p" "closer (awaken p) = closer p" "pending (awaken p) = pending p"
  by (cases p; simp)+

lemma wake_same [simp]:
  "length (wake b ts) = length ts"
  "length (filter busy (wake b ts)) = length (filter busy ts)"
  "length (filter closer (wake b ts)) = length (filter closer ts)"
  "map pending (wake b ts) = map pending ts"
  by (simp_all add: wake_def filter_map o_def)

subsection \<open>Counting\<close>

lemma account_frame2 [simp]:
  "netConn (account d n err ts w) = netConn w" "reportStats (account d n err ts w) = reportStats w"
  "closeStarted (account d n err ts w) = closeStarted w" "closeDone (account d n err ts w) = closeDone w"
  "closeErr (account d n err ts w) = closeErr w" "inFlight (account d n err ts w) = inFlight w"
  "ioDrained (account d n err ts w) = ioDrained w"
  by (simp_all add: account_def split: dir.split)

lemma exec_inFlight:
  assumes "exec pkg e p w = Some (p', w', evs, b)" "busy p \<Longrightarrow> 1 \<le> inFlight w"
  shows "inFlight w' = inFlight w + of_bool (busy p') - of_bool (busy p)"
  using assms
  by (cases p)
     (auto simp: beginIO_def finishIO_def Close_start_def Let_def close_drained_def Close_detach_def
         Close_finish_def Close_done_def SetReconnects_def liveConn_def
         split: option.splits sum.splits if_splits prod.splits)

lemma exec_closer:
  assumes "exec pkg e p w = Some (p', w', evs, b)" "closer p \<Longrightarrow> closeDone w = Some False"
  shows "(if closeDone w' = Some False then 1 else 0 :: int)
       = (if closeDone w = Some False then 1 else 0) + of_bool (closer p') - of_bool (closer p)"
  using assms
  by (cases p)
     (auto simp: beginIO_def finishIO_def Close_start_def Let_def close_drained_def Close_detach_def
         Close_finish_def Close_done_def SetReconnects_def liveConn_def
         split: option.splits sum.splits if_splits prod.splits)


lemmas section_defs = beginIO_def finishIO_def Close_start_def Let_def close_drained_def Close_detach_def
  Close_finish_def Close_done_def SetReconnects_def liveConn_def

lemma busy_inFlight:
  "inv_count w ts \<Longrightarrow> i < length ts \<Longrightarrow> busy (ts ! i) \<Longrightarrow> 1 \<le> inFlight w"
  using filter_nth_pos [of i ts busy] by (simp add: inv_count_def Suc_le_eq)

lemma closer_closeDone:
  "inv_count w ts \<Longrightarrow> i < length ts \<Longrightarrow> closer (ts ! i) \<Longrightarrow> closeDone w = Some False"
  using filter_nth_pos [of i ts closer] by (auto simp: inv_count_def split: if_splits)

lemma count_step:
  assumes "inv_count w ts" "i < length ts" "exec pkg e (ts ! i) w = Some (p', w', evs, b)"
  shows "inv_count w' (wake b (ts[i := p']))"
proof -
  have "inFlight w' = inFlight w + of_bool (busy p') - of_bool (busy (ts ! i))"
    by (rule exec_inFlight [OF assms(3)]) (rule busy_inFlight [OF assms(1,2)])
  moreover have "(if closeDone w' = Some False then 1 else 0 :: int)
       = (if closeDone w = Some False then 1 else 0) + of_bool (closer p') - of_bool (closer (ts ! i))"
    by (rule exec_closer [OF assms(3)]) (rule closer_closeDone [OF assms(1,2)])
  ultimately show ?thesis
    using length_filter_update [OF assms(2), of busy p'] length_filter_update [OF assms(2), of closer p'] assms(1)
    by (auto simp: inv_count_def split: if_splits)
qed

subsection \<open>Statistics\<close>

lemma complete_account:
  assumes "complete l w"
  shows "complete (l @ [E_account d n err ts]) (account d n err ts w)"
proof -
  have "stats d' (account d n err ts w) = stats_of_history (history d' (l @ [E_account d n err ts]))" for d'
    using assms [unfolded complete_def, rule_format, of d']
    by (cases d; cases d')
       (simp_all add: stats_def account_def rx_stats_account tx_stats_account stats_of_history_snoc)
  then show ?thesis by (simp add: complete_def)
qed

lemma exec_stats:
  assumes "exec pkg e p w = Some (p', w', evs, b)"
  shows "(\<exists>d n err. p = IO_got d n err \<and> w' = account d n err (env_now e) w \<and> evs = [E_account d n err (env_now e)])
       \<or> (\<forall>d. stats d w' = stats d w \<and> history d evs = []) \<and> accounted evs = []"
  using assms
  by (cases p)
     (auto simp: section_defs stats_def rx_stats_def tx_stats_def
         split: option.splits sum.splits if_splits prod.splits dir.splits)

lemma exec_pending:
  assumes "exec pkg e p w = Some (p', w', evs, b)"
  shows "mset (ios evs) + mset (pending p) =
     mset (map (\<lambda>(d, n, err, ts). (d, n, err)) (accounted evs)) + mset (pending p')"
  using assms
  by (cases p)
     (auto simp: section_defs split: option.splits sum.splits if_splits prod.splits)

lemma mset_concat_update:
  "i < length xs \<Longrightarrow> mset (concat (map f (xs[i := x]))) + mset (f (xs ! i)) = mset (concat (map f xs)) + mset (f x)"
proof (induction xs arbitrary: i)
  case (Cons y ys)
  then show ?case by (cases i) (auto simp: ac_simps)
qed simp

lemma mset_balance:
  fixes A :: "'a multiset"
  assumes "A + p = B + p'" "C' + p = C + p'" "L = M + C"
  shows "L + A = (M + B) + C'"
proof (rule multiset_eqI)
  fix x
  have "count A x + count p x = count B x + count p' x" "count C' x + count p x = count C x + count p' x"
    using assms(1,2) by (metis count_union)+
  then show "count (L + A) x = count ((M + B) + C') x" by (simp add: assms(3))
qed

lemma stats_step:
  assumes "inv_stats w ts l" "i < length ts" "exec pkg e (ts ! i) w = Some (p', w', evs, b)"
  shows "inv_stats w' (wake b (ts[i := p'])) (l @ evs)"
proof -
  have bal: "mset (ios l) = mset (map (\<lambda>(d, n, err, ts). (d, n, err)) (accounted l)) + mset (concat (map pending ts))"
    using assms(1) by (simp add: inv_stats_def)
  have "complete (l @ evs) w'"
    using exec_stats [OF assms(3)]
  proof
    assume "\<exists>d n err. ts ! i = IO_got d n err \<and> w' = account d n err (env_now e) w
      \<and> evs = [E_account d n err (env_now e)]"
    then show ?thesis using assms(1) complete_account by (auto simp: inv_stats_def)
  next
    assume "(\<forall>d. stats d w' = stats d w \<and> history d evs = []) \<and> accounted evs = []"
    then show ?thesis using assms(1) by (simp add: inv_stats_def complete_def)
  qed
  moreover have "mset (ios (l @ evs)) =
      mset (map (\<lambda>(d, n, err, ts). (d, n, err)) (accounted (l @ evs))) + mset (concat (map pending (ts[i := p'])))"
    using mset_balance [OF exec_pending [OF assms(3)] mset_concat_update [OF assms(2), of pending p'] bal]
    by simp
  ultimately show ?thesis by (simp add: inv_stats_def)
qed


subsection \<open>The shared state\<close>

text \<open>Only the accounting, \<open>SetReconnects\<close> and the closing call touch what others rely on.\<close>

lemma exec_closing_frame:
  assumes "exec pkg e p w = Some (p', w', evs, b)" "\<not> closer p" "p \<noteq> Cl_call"
  shows "netConn w' = netConn w \<and> closeErr w' = closeErr w \<and> closeDone w' = closeDone w
     \<and> closeStarted w' = closeStarted w \<and> reportStats w' = reportStats w \<and> ioDrained w' = ioDrained w
     \<and> closes evs = [] \<and> reports evs = [] \<and> returned evs = 0"
  using assms
  by (cases p) (auto simp: section_defs split: option.splits sum.splits if_splits prod.splits)

lemma exec_quiet:
  assumes "exec pkg e p w = Some (p', w', evs, b)" "\<not> closer p" "\<not> busy p" "closeStarted w"
  shows "evs = [] \<and> stats d w' = stats d w \<and> inFlight w' = inFlight w \<and> \<not> busy p'"
  using assms
  by (cases p)
     (auto simp: section_defs stats_def rx_stats_def tx_stats_def split: option.splits sum.splits if_splits prod.splits dir.splits)

lemma idle_no_busy: "inv_count w ts \<Longrightarrow> inFlight w = 0 \<Longrightarrow> i < length ts \<Longrightarrow> \<not> busy (ts ! i)"
  using busy_inFlight by fastforce

lemma closer_unique:
  assumes "inv_count w ts" "i < length ts" "j < length ts" "closer (ts ! i)" "closer (ts ! j)"
  shows "i = j"
proof -
  have "length (filter closer ts) = 1"
    using closer_closeDone [OF assms(1,2,4)] assms(1) by (simp add: inv_count_def)
  then show ?thesis by (rule filter_singleton_unique) (fact assms)+
qed

lemma complete_snapshot: "complete l (snapshotLocked pkg w) = complete l w"
  by (simp add: complete_def stats_def rx_stats_def tx_stats_def split: dir.split)

lemma complete_apply: "complete l (applyTCPInfoLocked st i ie w) = complete l w"
  by (simp add: complete_def stats_def rx_stats_def tx_stats_def split: dir.split)

lemma complete_detach: "complete l (Close_detach err w) = complete l w"
  by (simp add: complete_def stats_def rx_stats_def tx_stats_def Close_detach_def split: dir.split)

lemma final_report_cong:
  "reportStats w' = reportStats w \<Longrightarrow> closeErr w' = closeErr w \<Longrightarrow>
     final_report w' l rs = final_report w l rs"
  by (simp add: final_report_def split: option.split)

lemma final_report_snapshot:
  assumes "complete l w"
  shows "final_report (fst (Close_finish pkg i ie w)) l (snd (Close_finish pkg i ie w))"
  using assms
  by (auto simp: final_report_def Close_finish_def Let_def complete_snapshot complete_apply
           split: option.split)

text \<open>The call that steps is in order after its step.\<close>

lemma attached_detach: "attached conn w l \<Longrightarrow> closes l = [(conn, err)] \<Longrightarrow> detached conn (Close_detach err w) l err"
  by (simp add: attached_def detached_def Close_detach_def)

lemma close_drained_ok:
  assumes "detached conn w l err" "reports l = []" "complete l w" "0 \<le> inFlight w" "returned l = 0"
    and "close_drained pkg i ie err w = (p', w', evs, b)"
  shows "pc_ok conn w' l p' \<and> evs = []"
proof (cases "inFlight w > 0")
  case True
  then show ?thesis using assms by (auto simp: close_drained_def)
next
  case False
  then have "p' = Cl_report (snd (Close_finish pkg i ie w)) err" "w' = fst (Close_finish pkg i ie w)" "evs = []"
    using assms(6) by (auto simp: close_drained_def split: prod.splits)
  then show ?thesis
    using assms False final_report_snapshot [OF assms(3), of pkg i ie]
    by (simp add: detached_def Close_finish_simps)
qed

lemma self_ok:
  assumes "exec pkg e p w = Some (p', w', evs, b)" "pc_ok conn w l p" "inv_shared conn w l"
    "complete l w" "0 \<le> inFlight w"
  shows "pc_ok conn w' (l @ evs) p'"
proof (cases p)
  case (Cl_closed i ie err)
  have "complete l (Close_detach err w)"
    using assms(4) by (simp add: complete_detach)
  moreover have "detached conn (Close_detach err w) l err" "reports l = []" "0 \<le> inFlight (Close_detach err w)"
    "returned l = 0"
    using assms(2,5) Cl_closed attached_detach by (auto simp: attached_def Close_detach_def)
  ultimately show ?thesis
    using close_drained_ok [of conn "Close_detach err w" l err pkg i ie p' w' evs b] assms(1) Cl_closed by simp
next
  case (Cl_awake i ie err)
  then show ?thesis
    using close_drained_ok [of conn w l err pkg i ie p' w' evs b] assms by simp
next
  case (IO_call d)
  then show ?thesis using assms
    by (auto simp: beginIO_def inv_shared_def attached_def split: if_splits option.splits)
next
  case (IO_got d n err)
  then show ?thesis using assms by auto
next
  case Cl_call
  then show ?thesis using assms
    by (auto simp: Close_start_def inv_shared_def attached_def split: if_splits option.splits)
qed (use assms in \<open>auto simp: section_defs attached_def detached_def final_report_def complete_def
       split: option.splits sum.splits if_splits prod.splits\<close>)


text \<open>So are the others: those a closing call steps beside, and those beside any other call, where
  a sleeping one is woken when the last I/O ends.\<close>

lemma other_ok_closer:
  assumes "exec pkg e p w = Some (p', w', evs, b)" "closer p" "closeDone w = Some False"
    "\<not> closer q" "pc_ok conn w l q" "ioDrained w"
  shows "pc_ok conn w' (l @ evs) q \<and> b = No_wakeup"
proof -
  have "closeDone w' \<noteq> None \<and> b = No_wakeup"
    using assms(1-3,6)
    by (cases p) (auto simp: section_defs split: option.splits sum.splits if_splits prod.splits)
  then show ?thesis
  proof (cases q)
    case (Done r)
    then show ?thesis using \<open>closeDone w' \<noteq> None \<and> b = No_wakeup\<close> assms(3-5) by (cases r) auto
  qed (use assms(3-5) in auto)
qed

lemma exec_drain:
  assumes "exec pkg e p w = Some (p', w', evs, b)" "\<not> closer p" "closeStarted w" "ioDrained w" "0 < inFlight w"
  shows "if b = Broadcast then inFlight w' = 0 else 0 < inFlight w'"
  using assms
  by (cases p) (auto simp: section_defs split: option.splits sum.splits if_splits prod.splits)

lemma frame_ok:
  assumes "netConn w' = netConn w" "closeErr w' = closeErr w" "closeDone w' = closeDone w"
    "reportStats w' = reportStats w" "closes evs = []" "reports evs = []" "returned evs = 0"
    and "inFlight w = 0 \<Longrightarrow> closer q \<Longrightarrow> inFlight w' = 0 \<and> evs = []"
    and "0 < inFlight w \<Longrightarrow> closer q \<Longrightarrow> (if b = Broadcast then inFlight w' = 0 else 0 < inFlight w')"
    and "pc_ok conn w l q"
  shows "pc_ok conn w' (l @ evs) (if b = Broadcast then awaken q else q)"
proof -
  have att: "attached conn w' (l @ evs) = attached conn w l" "detached conn w' (l @ evs) err = detached conn w l err"
    for err
    using assms(1-7) by (simp_all add: attached_def detached_def)
  have fin: "final_report w' l rs = final_report w l rs" for rs
    using assms(1-6) by (intro final_report_cong)
  show ?thesis
  proof (cases q)
    case (Done r)
    then show ?thesis using assms by (cases r) auto
  qed (use assms att fin in auto)
qed

lemma other_ok:
  assumes "exec pkg e p w = Some (p', w', evs, b)" "\<not> closer p" "p \<noteq> Cl_call"
    "inv_shared conn w l" "busy p \<Longrightarrow> 0 < inFlight w" "closer q \<Longrightarrow> closeDone w = Some False"
    "pc_ok conn w l q"
  shows "pc_ok conn w' (l @ evs) (if b = Broadcast then awaken q else q)"
proof (rule frame_ok [where w = w])
  show "netConn w' = netConn w" "closeErr w' = closeErr w" "closeDone w' = closeDone w"
    "reportStats w' = reportStats w" "closes evs = []" "reports evs = []" "returned evs = 0"
    using exec_closing_frame [OF assms(1-3)] by auto
  show "inFlight w' = 0 \<and> evs = []" if "inFlight w = 0" "closer q"
  proof -
    have "closeStarted w" "\<not> busy p" using that assms(4-6) by (auto simp: inv_shared_def)
    then show ?thesis using exec_quiet [OF assms(1,2)] that by auto
  qed
  show "if b = Broadcast then inFlight w' = 0 else 0 < inFlight w'" if "0 < inFlight w" "closer q"
    using exec_drain [OF assms(1,2)] that assms(4,6) by (auto simp: inv_shared_def)
qed (fact assms(7))

lemma other_ok_call:
  assumes "exec pkg e Cl_call w = Some (p', w', evs, b)" "inv_shared conn w l"
    "closer q \<Longrightarrow> closeDone w = Some False" "pc_ok conn w l q"
  shows "pc_ok conn w' (l @ evs) q \<and> b = No_wakeup"
proof (cases "closeDone w")
  case None
  then have c: "netConn w = Some conn" using assms(2) by (simp add: inv_shared_def attached_def)
  have w': "closeDone w' = Some False" "b = No_wakeup"
    using assms(1) None c by (auto simp: Close_start_def)
  show ?thesis
  proof (cases q)
    case (Done r)
    then show ?thesis using w' assms None by (cases r) auto
  qed (use w' assms None in auto)
next
  case (Some a)
  then show ?thesis using assms by (auto simp: Close_start_def)
qed

lemma shared_step:
  assumes "exec pkg e p w = Some (p', w', evs, b)" "pc_ok conn w l p" "inv_shared conn w l"
    "closer p \<Longrightarrow> closeDone w = Some False" "busy p \<Longrightarrow> 0 < inFlight w"
  shows "inv_shared conn w' (l @ evs)"
proof -
  consider "closer p" | "p = Cl_call" | "\<not> closer p" "p \<noteq> Cl_call" by blast
  then show ?thesis
  proof cases
    case 1
    then show ?thesis using assms
      by (cases p)
         (auto simp: section_defs inv_shared_def detached_def final_report_def complete_def
           split: option.splits sum.splits if_splits prod.splits)
  next
    case 2
    then show ?thesis using assms
      by (auto simp: Close_start_def inv_shared_def attached_def split: if_splits option.splits)
  next
    case 3
    note frame = exec_closing_frame [OF assms(1) 3]
    have quiet: "inFlight w' = 0 \<and> evs = []" if "closeDone w = Some True"
    proof -
      have "closeStarted w" "inFlight w = 0" "\<not> busy p" using that assms(3,5) by (auto simp: inv_shared_def)
      then show ?thesis using exec_quiet [OF assms(1) 3(1)] by auto
    qed
    show ?thesis
      using assms(3) frame quiet final_report_cong [of w' w]
      by (auto simp: inv_shared_def attached_def detached_def)
  qed
qed


subsection \<open>The log\<close>

lemma inv_log_unreported: "reports l = [] \<Longrightarrow> inv_log conn l"
  by (auto simp: inv_log_def)

lemma inv_log_snoc:
  assumes "inv_log conn l"
  shows "inv_log conn (l @ [E_reported])"
  unfolding inv_log_def
proof (intro allI impI)
  fix pre fn snap st post
  assume eq: "l @ [E_reported] = pre @ E_report (fn, snap, st) # post"
  show "st = Closed \<and> netConn snap = None \<and> closes pre = [(conn, closeErr snap)] \<and> settled pre
     \<and> complete pre snap \<and> (\<forall>ev\<in>set post. ev = E_reported)"
  proof (cases post rule: rev_cases)
    case (snoc k ev)
    then have "l = pre @ E_report (fn, snap, st) # k" "ev = E_reported" using eq by auto
    then show ?thesis using assms snoc by (auto simp: inv_log_def)
  qed (use eq in auto)
qed

lemma inv_log_reported: "inv_log conn l \<Longrightarrow> inv_log conn (l @ map (\<lambda>_. E_reported) rs)"
proof (induction rs arbitrary: l)
  case (Cons r rs)
  then show ?case using Cons.IH [OF inv_log_snoc [OF Cons.prems]] by simp
qed simp

lemma inv_log_report:
  assumes "reports l = []" "netConn snap = None" "closes l = [(conn, closeErr snap)]" "settled l" "complete l snap"
  shows "inv_log conn (l @ [E_report (fn, snap, Closed)])"
proof -
  have "l = pre \<and> r = (fn, snap, Closed) \<and> post = []"
    if "l @ [E_report (fn, snap, Closed)] = pre @ E_report r # post" for pre r post
    using that assms(1) by (cases post rule: rev_cases) auto
  then show ?thesis using assms unfolding inv_log_def by auto
qed

lemma pending_busy: "\<not> busy p \<Longrightarrow> pending p = []"
  by (cases p) auto

lemma idle_settled: "inv_count w ts \<Longrightarrow> inv_stats w ts l \<Longrightarrow> inFlight w = 0 \<Longrightarrow> settled l"
proof -
  assume c: "inv_count w ts" and st: "inv_stats w ts l" and z: "inFlight w = 0"
  have "pending p = []" if "p \<in> set ts" for p
    using idle_no_busy [OF c z] that pending_busy by (metis in_set_conv_nth)
  then have "concat (map pending ts) = []" by simp
  then show ?thesis using st by (simp add: inv_stats_def settled_def)
qed

lemma reports_idle:
  assumes "inv_shared conn w l" "inv_count w ts" "\<And>p. p \<in> set ts \<Longrightarrow> pc_ok conn w l p" "reports l \<noteq> []"
  shows "closeStarted w \<and> inFlight w = 0"
proof (cases "closeDone w = Some False")
  case True
  then have "length (filter closer ts) = 1" using assms(2) by (simp add: inv_count_def)
  then obtain p where p: "p \<in> set ts" "closer p" by (metis filter_False length_0_conv zero_neq_one)
  have "inFlight w = 0" using assms(4) assms(3) [OF p(1)] p(2) by (cases p) (auto simp: attached_def)
  then show ?thesis using True assms(1) by (auto simp: inv_shared_def)
next
  case False
  then show ?thesis using assms(1,4) by (cases "closeDone w") (auto simp: inv_shared_def attached_def)
qed

lemma log_step:
  assumes "exec pkg e p w = Some (p', w', evs, b)" "inv_shared conn w l" "inv_count w ts"
    "\<And>q. q \<in> set ts \<Longrightarrow> pc_ok conn w l q" "p \<in> set ts" "inv_stats w ts l" "inv_log conn l"
  shows "inv_log conn (l @ evs)"
proof (cases "closer p")
  case True
  show ?thesis
  proof (cases p)
    case (Cl_report rs err)
    then have ok: "detached conn w l err" "reports l = []" "inFlight w = 0" "final_report w l rs"
      and evs: "evs = map E_report rs"
      using assms(1) assms(4) [OF assms(5)] by auto
    have "settled l" using idle_settled assms(3,6) ok(3) by blast
    then show ?thesis
      using ok assms(7) inv_log_report [OF ok(2)]
      by (auto simp: evs final_report_def detached_def split: option.splits)
  next
    case (Cl_callback rs err)
    then show ?thesis using assms(1,7) inv_log_reported by auto
  next
    case (Cl_collected c i ie)
    then show ?thesis
      using assms(1) assms(4) [OF assms(5)] by (auto simp: attached_def intro!: inv_log_unreported)
  qed (use True assms(1,7) in \<open>auto simp: close_drained_def split: if_splits prod.splits\<close>)
next
  case False
  show ?thesis
  proof (cases "reports l = []")
    case True
    have "reports evs = []"
    proof (cases "p = Cl_call")
      case True
      then show ?thesis using assms(1) by (auto simp: Close_start_def split: if_splits option.splits)
    qed (use exec_closing_frame [OF assms(1) False] in auto)
    then show ?thesis using True by (auto intro: inv_log_unreported)
  next
    case rep: False
    have "closeStarted w" "inFlight w = 0" using reports_idle [OF assms(2-4) rep] by auto
    moreover have "\<not> busy p"
      using idle_no_busy [OF assms(3) \<open>inFlight w = 0\<close>] assms(5) by (metis in_set_conv_nth)
    ultimately have "evs = []" using exec_quiet [OF assms(1) False] by auto
    then show ?thesis using assms(7) by simp
  qed
qed


subsection \<open>All of it\<close>

lemma set_wake_update:
  assumes "q \<in> set (wake b (ts[i := p']))" "i < length ts"
  shows "(q = p' \<or> b = Broadcast \<and> q = awaken p')
    \<or> (\<exists>j < length ts. j \<noteq> i \<and> q = (if b = Broadcast then awaken (ts ! j) else ts ! j))"
proof -
  obtain j where j: "j < length ts" "q = (if b = Broadcast then awaken (ts[i := p'] ! j) else ts[i := p'] ! j)"
    using assms by (auto simp: wake_def in_set_conv_nth split: if_splits)
  then show ?thesis by (cases "j = i") (auto simp: nth_list_update)
qed

lemma exec_Broadcast: "exec pkg e p w = Some (p', w', evs, Broadcast) \<Longrightarrow> awaken p' = p'"
  by (cases p) (auto simp: section_defs split: option.splits sum.splits if_splits prod.splits)

lemma run_thread_inv:
  assumes "conn_inv conn s" "run_thread pkg i e s = Some s'"
  shows "conn_inv conn s'"
proof -
  define w l ts where defs: "w = shared s" "l = log s" "ts = threads s"
  obtain p' w' evs b where i: "i < length ts" and ex: "exec pkg e (ts ! i) w = Some (p', w', evs, b)"
    and s': "s' = \<lparr>shared = w', threads = wake b (ts[i := p']), log = l @ evs\<rparr>"
    using assms(2) by (auto simp: run_thread_def defs split: if_splits option.splits prod.splits)
  have sh: "inv_shared conn w l" and cnt: "inv_count w ts" and ok: "\<And>p. p \<in> set ts \<Longrightarrow> pc_ok conn w l p"
    and st: "inv_stats w ts l" and lg: "inv_log conn l"
    using assms(1) by (auto simp: conn_inv_def defs)
  have okj: "pc_ok conn w l (ts ! j)" if "j < length ts" for j using ok that by simp
  have cl: "closeDone w = Some False" if "j < length ts" "closer (ts ! j)" for j
    using closer_closeDone [OF cnt] that by blast
  have bz: "0 < inFlight w" if "busy (ts ! i)" using busy_inFlight [OF cnt i that] by simp
  have nn: "0 \<le> inFlight w" using cnt by (simp add: inv_count_def)
  have cw: "complete l w" using st by (simp add: inv_stats_def)
  have self: "pc_ok conn w' (l @ evs) p'" by (rule self_ok [OF ex okj [OF i] sh cw nn])
  have other: "pc_ok conn w' (l @ evs) (if b = Broadcast then awaken (ts ! j) else ts ! j)"
    if j: "j < length ts" "j \<noteq> i" for j
  proof -
    consider "closer (ts ! i)" | "ts ! i = Cl_call" | "\<not> closer (ts ! i)" "ts ! i \<noteq> Cl_call" by blast
    then show ?thesis
    proof cases
      case 1
      then have "\<not> closer (ts ! j)" using closer_unique [OF cnt i] j by blast
      then show ?thesis using other_ok_closer [OF ex 1 cl [OF i 1] _ okj [OF j(1)]] sh by (simp add: inv_shared_def)
    next
      case 2
      then show ?thesis using other_ok_call [OF ex [unfolded 2] sh cl [OF j(1)] okj [OF j(1)]] by simp
    next
      case 3
      then show ?thesis using other_ok [OF ex 3 sh bz cl [OF j(1)] okj [OF j(1)]] by blast
    qed
  qed
  have "pc_ok conn w' (l @ evs) q" if q: "q \<in> set (wake b (ts[i := p']))" for q
  proof -
    consider "q = p'" | "b = Broadcast" "q = awaken p'"
      | j where "j < length ts" "j \<noteq> i" "q = (if b = Broadcast then awaken (ts ! j) else ts ! j)"
      using set_wake_update [OF q i] by blast
    then show ?thesis
    proof cases
      case 2
      then show ?thesis using self exec_Broadcast [OF ex [unfolded 2(1)]] by simp
    qed (use self other in auto)
  qed
  moreover have "inv_log conn (l @ evs)"
    by (rule log_step [OF ex sh cnt ok _ st lg]) (use i in simp_all)
  ultimately show ?thesis
    using shared_step [OF ex okj [OF i] sh cl [OF i] bz] count_step [OF cnt i ex] stats_step [OF st i ex]
    by (simp add: conn_inv_def s')
qed

lemma spawn_inv:
  assumes "conn_inv conn s" "is_call p"
  shows "conn_inv conn (spawn p s)"
proof -
  have "\<not> busy p" "\<not> closer p" "pending p = []" "pc_ok conn w l p" for w l
    using assms(2) by (cases p; simp)+
  then show ?thesis
    using assms(1) by (auto simp: conn_inv_def spawn_def inv_count_def inv_stats_def)
qed

lemma started_inv:
  assumes "started pkg conn s"
  shows "conn_inv conn s"
proof -
  obtain kern ctl now ctx fn opts where s: "s = \<lparr>shared = fst (WrapConnWithContext (pkg\<lparr>pkg_GetTCPInfo := kern\<rparr>) ctl now ctx (Some conn) fn opts),
      threads = [], log = []\<rparr>"
    using assms by (auto elim!: startedE)
  show ?thesis
    by (auto simp: s conn_inv_def inv_shared_def inv_count_def inv_stats_def inv_log_def attached_def
        complete_def stats_def rx_stats_def tx_stats_def stats_of_history_def moved_times_def hard_errors_def
        WrapConnWithContext_def reportState_def Let_def Conn_zero_def
        split: prod.splits option.splits dir.splits)
qed

interpretation ci: inductive_invariant "started pkg conn" "step pkg" "conn_inv conn" for pkg conn
proof (unfold_locales, goal_cases)
  case (1 s)
  then show ?case by (rule started_inv)
next
  case (2 s s')
  from this(2,1) show ?case by (auto elim!: stepE runsE intro: spawn_inv run_thread_inv)
qed

lemma reachable_inv: "reachable pkg conn s \<Longrightarrow> conn_inv conn s"
  unfolding reachable_def using ci.inv_reachable by blast

end
