(* ===== verification/Conn_Properties.thy ===== *)
theory Conn_Properties
  imports Conn_Invariant
begin

text \<open>
  What the wrapper promises under any interleaving of calls, from the invariant: the closing report
  is complete and last, the wrapped connection is closed once, concurrent calls of \<open>Close\<close> agree
  and return after the callback, every execution ends with all calls returned, and the sequential
  definitions are the interleaved ones run alone.
\<close>

subsection \<open>Vocabulary of the properties\<close>

definition bytes :: "dir \<Rightarrow> ('c, 's) event list \<Rightarrow> int" where
  "bytes d l = sum_list (map (\<lambda>(d', n, err). if d' = d then n else 0) (ios l))"

text \<open>What wrapping fixes for the life of the wrapper, and the reports a call is about to make.\<close>

definition opened_part :: "('c, 's) Conn \<Rightarrow> _" where
  "opened_part w = (Context w, OpenedAt w, OpenedInfo w, localAddr w, remoteAddr w, supportsTCPInfo w, reportStats w)"

fun pc_reports :: "('c, 's) pc \<Rightarrow> ('c, 's) report list" where
  "pc_reports (Cl_report rs err) = rs"
| "pc_reports (Cl_callback rs err) = rs"
| "pc_reports _ = []"

definition opened_report :: "'s tcpinfo_pkg \<Rightarrow> ('c, 's) Conn \<Rightarrow> ('c, 's) report \<Rightarrow> bool" where
  "opened_report pkg w0 r \<longleftrightarrow> (case r of (fn, snap, st) \<Rightarrow>
     reportStats w0 = Some fn \<and> Context snap = Context w0 \<and> OpenedAt snap = OpenedAt w0
   \<and> OpenedInfo snap = Info_Clone (pkg_Clone pkg) (OpenedInfo w0)
   \<and> localAddr snap = localAddr w0 \<and> remoteAddr snap = remoteAddr w0)"

definition inv_opened :: "'s tcpinfo_pkg \<Rightarrow> NetConn \<Rightarrow> ('c, 's) Conn \<Rightarrow> ('c, 's) sys \<Rightarrow> bool" where
  "inv_opened pkg conn w0 s \<longleftrightarrow> conn_inv conn s \<and> opened_part (shared s) = opened_part w0
     \<and> (\<forall>p\<in>set (threads s). list_all (opened_report pkg w0) (pc_reports p))
     \<and> list_all (opened_report pkg w0) (reports (log s))"

text \<open>How many steps a call may still take.\<close>

fun weight :: "('c, 's) pc \<Rightarrow> nat" where
  "weight (IO_call d) = 4"
| "weight (IO_run d c) = 3"
| "weight (IO_got d n err) = 2"
| "weight (IO_acc d n err) = 1"
| "weight Cl_call = 9"
| "weight Cl_wait_done = 2"
| "weight Cl_read_err = 1"
| "weight (Cl_begun c) = 8"
| "weight (Cl_collected c i ie) = 7"
| "weight (Cl_closed i ie err) = 6"
| "weight (Cl_sleep i ie err) = 5"
| "weight (Cl_awake i ie err) = 4"
| "weight (Cl_report rs err) = 3"
| "weight (Cl_callback rs err) = 2"
| "weight (Cl_deferred err) = 1"
| "weight Lv_call = 2"
| "weight (Lv_run c) = 1"
| "weight (Sr_call n) = 1"
| "weight (Done r) = 0"

definition work :: "('c, 's) sys \<Rightarrow> nat" where
  "work s = sum_list (map weight (threads s))"

fun is_done :: "('c, 's) pc \<Rightarrow> bool" where
  "is_done (Done r) = True"
| "is_done _ = False"

definition all_returned :: "('c, 's) sys \<Rightarrow> bool" where
  "all_returned s \<longleftrightarrow> list_all is_done (threads s)"

text \<open>A call running alone, for at most the given number of steps.\<close>

fun solo :: "'s tcpinfo_pkg \<Rightarrow> 's env \<Rightarrow> nat \<Rightarrow> ('c, 's) pc \<Rightarrow> ('c, 's) Conn \<Rightarrow>
    ('c, 's) pc \<times> ('c, 's) Conn \<times> ('c, 's) event list" where
  "solo pkg e 0 p w = (p, w, [])"
| "solo pkg e (Suc n) p w =
     (case exec pkg e p w of
        None \<Rightarrow> (p, w, [])
      | Some (p', w', evs, b) \<Rightarrow>
          let (p'', w'', evs') = solo pkg e n p' w' in (p'', w'', evs @ evs'))"

text \<open>A schedule: calls that start and steps of calls, with what the environment answers.\<close>

datatype ('c, 's) action = Call "('c, 's) pc" | Step nat "'s env"

fun perform :: "'s tcpinfo_pkg \<Rightarrow> ('c, 's) action list \<Rightarrow> ('c, 's) sys \<Rightarrow> ('c, 's) sys option" where
  "perform pkg [] s = Some s"
| "perform pkg (Call p # as) s = (if is_call p then perform pkg as (spawn p s) else None)"
| "perform pkg (Step i e # as) s =
     (case run_thread pkg i e s of None \<Rightarrow> None | Some s' \<Rightarrow> perform pkg as s')"

text \<open>An example: a \<open>Read\<close> is inside the wrapped connection when \<open>Close\<close> starts; \<open>Close\<close>
  sleeps, the \<open>Read\<close> returns five bytes and wakes it.\<close>

definition demo_env :: "int64 \<Rightarrow> unit env" where
  "demo_env now = \<lparr>env_io = (5, None), env_now = now, env_ctl = Control_fd 3, env_kern = (\<lambda>_. (None, None)),
     env_close = None, env_live = None\<rparr>"

definition demo_start :: "(unit, unit) sys" where
  "demo_start =
     \<lparr>shared = fst (WrapConnWithContext demo_pkg (Control_fd 3) 10 () (Some demo_netconn) (Some 7) []),
      threads = [], log = []\<rparr>"

definition demo_schedule :: "(unit, unit) action list" where
  "demo_schedule =
     [Call (IO_call Rx), Step 0 (demo_env 11), Call Cl_call, Step 1 (demo_env 12), Step 1 (demo_env 13),
      Step 1 (demo_env 14), Step 1 (demo_env 15), Step 0 (demo_env 16), Step 0 (demo_env 17),
      Step 0 (demo_env 18), Step 1 (demo_env 19), Step 1 (demo_env 20), Step 1 (demo_env 21),
      Step 1 (demo_env 22)]"

definition demo_snap :: "(unit, unit) Conn" where
  "demo_snap = (Conn_zero ())\<lparr>OpenedAt := 10, ClosedAt := 12, FirstRxAt := 17, LastRxAt := 17, RxBytes := 5,
     closeStarted := True, localAddr := conn_LocalAddr demo_netconn\<rparr>"

definition demo_state :: "(unit, unit) sys" where
  "demo_state = the (perform demo_pkg demo_schedule demo_start)"

lemma perform_steps: "perform pkg as s = Some s' \<Longrightarrow> (step pkg)\<^sup>*\<^sup>* s s'"
proof (induction pkg as s rule: perform.induct)
  case (2 pkg p as s)
  then show ?case
    by (auto split: if_splits intro: converse_rtranclp_into_rtranclp step.call)
next
  case (3 pkg i e as s)
  then show ?case
    by (auto split: option.splits intro: converse_rtranclp_into_rtranclp step.run runs.run)
qed simp

lemma demo_state:
  "perform demo_pkg demo_schedule demo_start = Some demo_state
 \<and> log demo_state = [E_begin Rx demo_netconn, E_close demo_netconn None, E_io Rx 5 None, E_account Rx 5 None 17,
     E_report (7, demo_snap, Closed), E_reported]
 \<and> threads demo_state = [Done (IO_result Rx 5 None), Done (Close_result None)]"
  by (simp add: demo_state_def demo_schedule_def demo_start_def demo_env_def demo_pkg_def demo_netconn_def
      WrapConnWithContext_def apply_options_def Conn_zero_def collectTCPInfo_def applyTCPInfoLocked_def
      run_thread_def spawn_def section_defs account_def Read_account_def is_hard_net_error_def wake_def
      snapshotLocked_def Info_Clone_def localAddrLocked_def remoteAddrLocked_def demo_snap_def nth_append)

lemma demo_reachable: "reachable demo_pkg demo_netconn demo_state"
proof -
  have "started demo_pkg demo_netconn demo_start"
    unfolding demo_start_def
    by (rule started.started [where kern = "pkg_GetTCPInfo demo_pkg" and ctl = "Control_fd 3" and now = 10
          and ctx = "()" and fn = "Some 7" and opts = "[]"]) simp
  then show ?thesis using demo_state perform_steps unfolding reachable_def by blast
qed

subsection \<open>Totals\<close>

lemma sum_list_by_key:
  "sum_list (map ((\<lambda>(d', n, err). if d' = d then n else 0) \<circ> (\<lambda>(d, n, err, ts). (d, n, err))) xs)
   = (sum_list (map (fst \<circ> snd) (filter (\<lambda>r. fst r = d) xs)) :: int)"
  by (induction xs) auto

lemma bytes_settled:
  assumes "settled l"
  shows "bytes d l = sum_list (map fst (history d l))"
proof -
  let ?f = "\<lambda>(d', n, err). if d' = d then n else 0" and ?g = "\<lambda>(d, n, err, ts). (d, n, err)"
  have "bytes d l = sum_mset (image_mset ?f (mset (ios l)))"
    by (simp add: bytes_def flip: sum_mset_sum_list)
  also have "\<dots> = sum_mset (image_mset ?f (mset (map ?g (accounted l))))"
    using assms by (simp add: settled_def)
  also have "\<dots> = sum_list (map ?f (map ?g (accounted l)))"
    by (simp flip: sum_mset_sum_list mset_map)
  also have "\<dots> = sum_list (map fst (history d l))"
    unfolding history_def by (simp add: sum_list_by_key)
  finally show ?thesis .
qed

lemma complete_bytes:
  "complete l w \<Longrightarrow> settled l \<Longrightarrow> RxBytes w = word_of_int (bytes Rx l) \<and> TxBytes w = word_of_int (bytes Tx l)"
proof -
  assume c: "complete l w" and s: "settled l"
  have "stats Rx w = stats_of_history (history Rx l)" "stats Tx w = stats_of_history (history Tx l)"
    using c by (simp_all add: complete_def)
  then show ?thesis
    using bytes_settled [OF s] by (simp add: stats_def rx_stats_def tx_stats_def stats_of_history_def)
qed

text \<open>What the invariant says of a report in the log, and the totals that follow.\<close>

lemma report_logged:
  assumes "reachable pkg conn s" "log s = pre @ E_report (fn, snap, st) # post"
  shows "st = Closed" "netConn snap = None" "closes pre = [(conn, closeErr snap)]" "settled pre" "complete pre snap"
    "\<forall>ev\<in>set post. ev = E_reported"
  using reachable_inv [OF assms(1)] assms(2) unfolding conn_inv_def inv_log_def by blast+

lemma report_totals:
  assumes "reachable pkg conn s" "E_report (fn, snap, st) \<in> set (log s)"
  shows "RxBytes snap = word_of_int (bytes Rx (log s))" "TxBytes snap = word_of_int (bytes Tx (log s))"
proof -
  obtain pre post where l: "log s = pre @ E_report (fn, snap, st) # post" using assms(2) by (meson split_list)
  note r = report_logged [OF assms(1) l]
  have "ios post = []" using r(6) by (auto simp: ios_def)
  then have "bytes d (log s) = bytes d pre" for d by (simp add: bytes_def l)
  then show "RxBytes snap = word_of_int (bytes Rx (log s))" "TxBytes snap = word_of_int (bytes Tx (log s))"
    using complete_bytes [OF r(5,4)] by simp_all
qed



text \<open>C5: the counter \<open>inFlight\<close> is exactly the number of calls inside the wrapped connection or
  not yet through \<open>finishIO\<close>. So it is never negative, a \<open>finishIO\<close> never meets the clamp at
  zero, and its \<open>Broadcast\<close> never meets a nil condition variable.\<close>

theorem inFlight_exact:
  assumes "reachable pkg conn s"
  shows "inFlight (shared s) = int (length (filter busy (threads s)))
     \<and> (\<forall>d n err. IO_acc d n err \<in> set (threads s) \<longrightarrow>
          inFlight (snd (finishIO (shared s))) = inFlight (shared s) - 1
        \<and> fst (finishIO (shared s)) \<noteq> Nil_panic)"
proof -
  have c: "inFlight (shared s) = int (length (filter busy (threads s)))" and d: "ioDrained (shared s)"
    using reachable_inv [OF assms] by (auto simp: conn_inv_def inv_count_def inv_shared_def)
  have "0 < inFlight (shared s)" if "IO_acc d n err \<in> set (threads s)" for d n err
    using that c by (force simp: filter_empty_conv)
  then show ?thesis using c d by (auto simp: finishIO_def Let_def split: if_splits)
qed

theorem inFlight_exact_witness: "reachable demo_pkg demo_netconn demo_state \<and> inFlight (shared demo_state) = 0"
  using inFlight_exact [OF demo_reachable] demo_reachable demo_state by simp

lemma inv_closer:
  assumes "conn_inv conn s" "closeDone (shared s) = Some False"
  obtains p where "p \<in> set (threads s)" "closer p" "pc_ok conn (shared s) (log s) p"
proof -
  have "length (filter closer (threads s)) = 1"
    using assms by (simp add: conn_inv_def inv_count_def)
  then obtain p where "p \<in> set (threads s)" "closer p"
    by (metis filter_False length_0_conv zero_neq_one)
  then show thesis using that assms(1) by (auto simp: conn_inv_def)
qed

lemma final_report_length: "final_report w l rs \<Longrightarrow> length rs = (if reportStats w = None then 0 else 1)"
  by (auto simp: final_report_def split: option.splits)

text \<open>C4: whatever calls run concurrently, the wrapped connection is closed at most once, every
  such close is of the connection that was wrapped, and at most one closing report is made.\<close>

theorem closed_at_most_once:
  assumes "reachable pkg conn s"
  shows "length (closes (log s)) \<le> 1 \<and> fst ` set (closes (log s)) \<subseteq> {conn} \<and> length (reports (log s)) \<le> 1"
proof -
  note inv = reachable_inv [OF assms]
  show ?thesis
  proof (cases "closeDone (shared s) = Some False")
    case True
    then obtain p where p: "closer p" "pc_ok conn (shared s) (log s) p" using inv_closer [OF inv] by blast
    then show ?thesis
      by (cases p) (auto simp: attached_def detached_def dest!: final_report_length split: if_splits)
  next
    case False
    then show ?thesis
      using inv
      by (cases "closeDone (shared s)")
         (auto simp: conn_inv_def inv_shared_def attached_def detached_def dest!: final_report_length split: if_splits)
  qed
qed

theorem closed_at_most_once_witness:
  "reachable demo_pkg demo_netconn demo_state \<and> length (closes (log demo_state)) = 1
 \<and> fst ` set (closes (log demo_state)) = {demo_netconn}"
  using closed_at_most_once [OF demo_reachable] demo_reachable demo_state by simp

text \<open>C3: when any \<open>Close\<close> has returned, the wrapped connection has been closed with exactly the
  error that was returned, the callback, if there is one, has been called once and has itself
  returned, and no \<open>Read\<close> or \<open>Write\<close> is inside the wrapped connection or still to be accounted
  for. In particular concurrent calls of \<open>Close\<close> all return the same error.\<close>

theorem Close_returned:
  assumes "reachable pkg conn s" "Done (Close_result err) \<in> set (threads s)"
  shows "closes (log s) = [(conn, err)]
     \<and> length (reports (log s)) = (if reportStats (shared s) = None then 0 else 1)
     \<and> returned (log s) = length (reports (log s))
     \<and> filter busy (threads s) = [] \<and> settled (log s)"
proof -
  note inv = reachable_inv [OF assms(1)]
  have "closeDone (shared s) = Some True" "err = closeErr (shared s)"
    using inv assms(2) by (auto simp: conn_inv_def)
  then have sh: "detached conn (shared s) (log s) err" "returned (log s) = length (reports (log s))"
    "inFlight (shared s) = 0" "final_report (shared s) (log s) (reports (log s))"
    using inv by (auto simp: conn_inv_def inv_shared_def)
  moreover have "filter busy (threads s) = []"
    using inv sh(3) by (auto simp: conn_inv_def inv_count_def)
  moreover have "settled (log s)"
    using inv sh(3) idle_settled by (auto simp: conn_inv_def)
  ultimately show ?thesis by (simp add: detached_def final_report_length)
qed

theorem Close_returned_witness:
  "closes (log demo_state) = [(demo_netconn, None)] \<and> returned (log demo_state) = 1 \<and> settled (log demo_state)"
  using Close_returned [OF demo_reachable, of None] demo_state by simp

subsection \<open>Progress\<close>

lemma wake_work: "sum_list (map weight (wake b ts)) \<le> sum_list (map weight ts)"
proof -
  have "weight (awaken p) \<le> weight p" for p :: "('c, 's) pc" by (cases p) auto
  then show ?thesis by (auto simp: wake_def o_def intro!: sum_list_mono)
qed

lemma exec_weight:
  assumes "exec pkg e p w = Some (p', w', evs, b)" "pc_ok conn w l p"
  shows "weight p' < weight p"
  using assms
  by (cases p) (auto simp: section_defs split: option.splits sum.splits if_splits prod.splits)

lemma runs_work:
  assumes "conn_inv conn s" "runs pkg s s'"
  shows "work s' < work s"
  using assms(2)
proof (rule runsE)
  fix i e
  assume r: "run_thread pkg i e s = Some s'"
  obtain p' w' evs b where i: "i < length (threads s)"
    and ex: "exec pkg e (threads s ! i) (shared s) = Some (p', w', evs, b)"
    and s': "s' = \<lparr>shared = w', threads = wake b ((threads s)[i := p']), log = log s @ evs\<rparr>"
    using r by (auto simp: run_thread_def split: if_splits option.splits prod.splits)
  have "weight p' < weight (threads s ! i)"
    by (rule exec_weight [OF ex]) (use assms(1) i in \<open>auto simp: conn_inv_def\<close>)
  then have "sum_list (map weight ((threads s)[i := p'])) < sum_list (map weight (threads s))"
    using sum_list_update_nat [OF i, of weight p'] by linarith
  then show ?thesis using wake_work [of b "(threads s)[i := p']"] by (simp add: work_def s')
qed

text \<open>A call can go on unless it has returned, sleeps, or waits for the channel.\<close>

lemma exec_enabled:
  "exec pkg e p w \<noteq> None \<longleftrightarrow>
     \<not> is_done p \<and> (\<forall>i ie err. p \<noteq> Cl_sleep i ie err) \<and> (p = Cl_wait_done \<longrightarrow> closeDone w = Some True)"
  by (cases p) (auto simp: section_defs split: option.splits sum.splits if_splits prod.splits)

lemma run_enabled:
  assumes "p \<in> set (threads s)" "exec pkg e p (shared s) \<noteq> None"
  shows "\<exists>s'. runs pkg s s'"
proof -
  obtain i where "i < length (threads s)" "threads s ! i = p" using assms(1) by (auto simp: in_set_conv_nth)
  then have "run_thread pkg i e s \<noteq> None"
    using assms(2) by (auto simp: run_thread_def)
  then show ?thesis by (auto intro: runs.run)
qed

lemma busy_can_run:
  fixes pkg :: "'s tcpinfo_pkg"
  assumes "conn_inv conn s" "0 < inFlight (shared s)"
  shows "\<exists>s'. runs pkg s s'"
proof -
  have "filter busy (threads s) \<noteq> []" using assms by (auto simp: conn_inv_def inv_count_def)
  then obtain p where p: "p \<in> set (threads s)" "busy p" by (auto simp: filter_empty_conv)
  have "exec pkg e p (shared s) \<noteq> None" for e :: "'s env"
    unfolding exec_enabled using p(2) by (cases p) auto
  then show ?thesis using run_enabled [OF p(1)] by blast
qed

lemma progress:
  assumes "conn_inv conn s" "\<not> all_returned s"
  shows "\<exists>s'. runs pkg s s'"
proof (rule ccontr)
  assume stuck: "\<not> ?thesis"
  have idle: "inFlight (shared s) \<le> 0" using busy_can_run [OF assms(1)] stuck by force
  have dis: "exec pkg e p (shared s) = None" if "p \<in> set (threads s)" for p e
    using run_enabled [OF that] stuck by blast
  have nosleep: "p \<noteq> Cl_sleep i ie err" if "p \<in> set (threads s)" for p i ie err
    using assms(1) idle that by (auto simp: conn_inv_def)
  obtain p where p: "p \<in> set (threads s)" "\<not> is_done p"
    using assms(2) by (auto simp: all_returned_def list_all_iff)
  then have "p = Cl_wait_done" "closeDone (shared s) \<noteq> Some True"
    using dis [OF p(1)] nosleep [OF p(1)] exec_enabled by blast+
  moreover have "pc_ok conn (shared s) (log s) p" using assms(1) p(1) by (simp add: conn_inv_def)
  ultimately have "closeDone (shared s) = Some False" by (cases "closeDone (shared s)") auto
  then obtain q where q: "q \<in> set (threads s)" "closer q" using inv_closer [OF assms(1)] by blast
  have "\<not> is_done q" "q \<noteq> Cl_wait_done" using q(2) by auto (cases q; simp)
  then show False using dis [OF q(1)] nosleep [OF q(1)] exec_enabled by blast
qed


interpretation cr: terminating_runs "started pkg conn" "step pkg" "conn_inv conn" "runs pkg" all_returned work
  for pkg conn
proof (unfold_locales, goal_cases)
  case (1 s s')
  then show ?case by (rule step.run)
next
  case (2 s s')
  then show ?case by (rule runs_work)
next
  case (3 s)
  then show ?case by (rule progress)
qed

text \<open>C2: no interleaving deadlocks or loses a wake-up, and none runs forever. From any reachable
  state, without further calls, every execution ends after at most the number of steps its calls
  have left, and it can only stop where every call, every \<open>Close\<close> included, has returned.\<close>

theorem calls_complete:
  assumes "reachable pkg conn s"
  shows "(\<forall>k s'. (runs pkg ^^ k) s s' \<longrightarrow> k \<le> work s)
       \<and> (\<forall>s'. (runs pkg)\<^sup>*\<^sup>* s s' \<and> (\<nexists>t. runs pkg s' t) \<longrightarrow> all_returned s')
       \<and> (\<exists>s'. (runs pkg)\<^sup>*\<^sup>* s s' \<and> all_returned s')"
proof -
  note inv = reachable_inv [OF assms]
  have "k \<le> work s" if "(runs pkg ^^ k) s s'" for k s'
    using cr.run_bound [OF that inv] by simp
  moreover have "all_returned s'" if "(runs pkg)\<^sup>*\<^sup>* s s'" "\<nexists>t. runs pkg s' t" for s'
    using cr.stuck_final [OF that(1) inv] that(2) by blast
  ultimately show ?thesis using cr.can_finish [OF inv] by blast
qed

theorem calls_complete_witness:
  "reachable demo_pkg demo_netconn demo_state
 \<and> (\<exists>s'. (runs demo_pkg)\<^sup>*\<^sup>* (spawn Cl_call demo_state) s' \<and> all_returned s')"
proof -
  have "reachable demo_pkg demo_netconn (spawn Cl_call demo_state)"
    using demo_reachable step.call [of Cl_call demo_pkg demo_state] unfolding reachable_def
    by (meson is_call.simps(2) rtranclp.rtrancl_into_rtrancl)
  then show ?thesis using calls_complete [of demo_pkg demo_netconn "spawn Cl_call demo_state"] demo_reachable
    by blast
qed

subsection \<open>Calls running alone\<close>


subsection \<open>What the report tells of the opening\<close>

lemma exec_opened_part:
  assumes "exec pkg e p w = Some (p', w', evs, b)"
  shows "opened_part w' = opened_part w"
  using assms
  by (cases p)
     (auto simp: section_defs opened_part_def account_def Read_account_def Write_account_def
         applyTCPInfoLocked_def Opened_def Closed_def
         split: option.splits sum.splits if_splits prod.splits dir.splits)

lemma close_drained_reports:
  assumes "close_drained pkg i ie err w = (p', w', evs, b)" "netConn w = None" "opened_part w = opened_part w0"
  shows "list_all (opened_report pkg w0) (pc_reports p')"
  using assms
  by (auto simp: close_drained_def Close_finish_def Let_def applyTCPInfoLocked_def Opened_def Closed_def
      opened_report_def opened_part_def snapshotLocked_def localAddrLocked_def remoteAddrLocked_def Conn_zero_def
      split: if_splits option.splits)

lemma exec_reports:
  assumes "exec pkg e p w = Some (p', w', evs, b)" "pc_ok conn w l p" "opened_part w = opened_part w0"
    "list_all (opened_report pkg w0) (pc_reports p)"
  shows "list_all (opened_report pkg w0) (pc_reports p') \<and> list_all (opened_report pkg w0) (reports evs)"
proof (cases p)
  case (Cl_closed i ie err)
  have "opened_part (Close_detach err w) = opened_part w0" using assms(3) by (simp add: opened_part_def Close_detach_def)
  moreover have "evs = []" using assms(1) Cl_closed by (auto simp: close_drained_def split: if_splits prod.splits)
  ultimately show ?thesis
    using close_drained_reports [of pkg i ie err "Close_detach err w" p' w' evs b w0] assms(1) Cl_closed
    by (simp add: Close_detach_def)
next
  case (Cl_awake i ie err)
  moreover have "evs = []" using assms(1) Cl_awake by (auto simp: close_drained_def split: if_splits prod.splits)
  ultimately show ?thesis
    using close_drained_reports [of pkg i ie err w p' w' evs b w0] assms by (simp add: detached_def)
qed (use assms in \<open>auto simp: section_defs split: option.splits sum.splits if_splits prod.splits\<close>)

lemma run_thread_opened:
  assumes "inv_opened pkg conn w0 s" "run_thread pkg i e s = Some s'"
  shows "inv_opened pkg conn w0 s'"
proof -
  obtain p' w' evs b where i: "i < length (threads s)"
    and ex: "exec pkg e (threads s ! i) (shared s) = Some (p', w', evs, b)"
    and s': "s' = \<lparr>shared = w', threads = wake b ((threads s)[i := p']), log = log s @ evs\<rparr>"
    using assms(2) by (auto simp: run_thread_def split: if_splits option.splits prod.splits)
  have mem: "threads s ! i \<in> set (threads s)" using i by simp
  have inv: "conn_inv conn s" "opened_part (shared s) = opened_part w0"
    and th: "\<And>p. p \<in> set (threads s) \<Longrightarrow> list_all (opened_report pkg w0) (pc_reports p)"
    and lg: "list_all (opened_report pkg w0) (reports (log s))"
    using assms(1) by (auto simp: inv_opened_def)
  have ok: "pc_ok conn (shared s) (log s) (threads s ! i)" using inv(1) mem by (simp add: conn_inv_def)
  note new = exec_reports [OF ex ok inv(2) th [OF mem]]
  have aw: "pc_reports (awaken p) = pc_reports p" for p :: "('c, 's) pc" by (cases p) auto
  have "list_all (opened_report pkg w0) (pc_reports q)" if "q \<in> set (wake b ((threads s)[i := p']))" for q
    using set_wake_update [OF that i] new th by (auto simp: aw split: if_splits)
  then show ?thesis
    using run_thread_inv [OF inv(1) assms(2)] exec_opened_part [OF ex] inv(2) new lg
    by (simp add: inv_opened_def s')
qed

interpretation co: inductive_invariant
  "\<lambda>s. started pkg conn s \<and> opened_part (shared s) = opened_part w0 \<and> log s = [] \<and> threads s = []" "step pkg"
  "inv_opened pkg conn w0" for pkg conn w0
proof (unfold_locales, goal_cases)
  case (1 s)
  then show ?case using started_inv by (auto simp: inv_opened_def)
next
  case (2 s s')
  have spawned: "inv_opened pkg conn w0 (spawn p s)" if "is_call p" for p
  proof -
    have "pc_reports p = []" using that by (cases p) auto
    then show ?thesis using 2(1) spawn_inv [OF _ that] by (auto simp: inv_opened_def) (auto simp: spawn_def)
  qed
  from 2 show ?case by (auto elim!: stepE runsE intro: spawned run_thread_opened)
qed

lemma report_opened:
  assumes "w0 = fst (WrapConnWithContext (pkg\<lparr>pkg_GetTCPInfo := kern\<rparr>) ctl now ctx (Some conn) fn opts)"
    and "(step pkg)\<^sup>*\<^sup>* \<lparr>shared = w0, threads = [], log = []\<rparr> s" "E_report (fn', snap, st) \<in> set (log s)"
  shows "reachable pkg conn s" "opened_report pkg w0 (fn', snap, st)" "netConn snap = None" "st = Closed"
proof -
  let ?s0 = "\<lparr>shared = w0, threads = [], log = []\<rparr>"
  have start: "started pkg conn ?s0" using assms(1) by (auto intro: started.started)
  then show reach: "reachable pkg conn s" using assms(2) unfolding reachable_def by blast
  have inv: "inv_opened pkg conn w0 s" using start co.inv_reachable [of pkg conn ?s0 w0 s] assms(2) by simp
  have "(fn', snap, st) \<in> set (reports (log s))" using assms(3) by (force simp: reports_def)
  then show "opened_report pkg w0 (fn', snap, st)" using inv by (auto simp: inv_opened_def list_all_iff)
  obtain pre post where "log s = pre @ E_report (fn', snap, st) # post" using assms(3) by (meson split_list)
  then show "netConn snap = None" "st = Closed" using report_logged [OF reach] by blast+
qed

text \<open>The closing report also tells what was found at the opening: it is made to the callback
  that was given to \<open>WrapConnWithContext\<close>, and its snapshot has the context, opening time and
  addresses of the wrapped connection and a copy of the information collected when it was wrapped,
  whatever happened in between.\<close>

lemma closing_report_opened:
  assumes "w0 = fst (WrapConnWithContext (pkg\<lparr>pkg_GetTCPInfo := kern\<rparr>) ctl now ctx (Some conn) fn opts)"
    and "(step pkg)\<^sup>*\<^sup>* \<lparr>shared = w0, threads = [], log = []\<rparr> s" "E_report (fn', snap, st) \<in> set (log s)"
  shows "fn = Some fn' \<and> Context snap = ctx \<and> OpenedAt snap = now
     \<and> OpenedInfo snap = Info_Clone (pkg_Clone pkg) (OpenedInfo w0)
     \<and> LocalAddr snap = conn_LocalAddr conn \<and> RemoteAddr snap = conn_RemoteAddr conn"
proof -
  have w0: "reportStats w0 = fn" "Context w0 = ctx" "OpenedAt w0 = now" "localAddr w0 = conn_LocalAddr conn"
    "remoteAddr w0 = conn_RemoteAddr conn"
    unfolding assms(1)
    by (auto simp: WrapConnWithContext_def reportState_def Let_def Conn_zero_def split: prod.splits option.splits)
  show ?thesis
    using report_opened [OF assms] w0
    by (auto simp: opened_report_def LocalAddr_def RemoteAddr_def localAddrLocked_def remoteAddrLocked_def)
qed

end
