(* ===== verification/Conn_Panic.thy ===== *)
theory Conn_Panic
  imports Conn_Properties
begin

text \<open>
  The wrapper when foreign code panics. A panic of the wrapped \<open>Read\<close>, \<open>Write\<close> or deadline method, or of the
  report callback, unwinds the call of the wrapper it happened in: the functions that the call has deferred
  run, and the goroutine goes on above the wrapper or ends, which is the same for the wrapper.

  \<open>Close\<close> has deferred \<open>close(done)\<close> when it calls back; \<open>Read\<close> and \<open>Write\<close> have deferred nothing when they call the
  wrapped connection, so that \<open>finishIO\<close> is not called. The system of \<open>Conn_Concurrent\<close> is extended by the calls
  that are unwinding or unwound. In the log \<open>E_reported\<close> stands for the end of the callback, by return or panic.

  A panic of the wrapped \<open>Close\<close>, and the nil condition variable of a snapshot, are treated at the end.
\<close>

subsection \<open>Calls that panic\<close>

record ('c, 's) psys =
  base :: "('c, 's) sys"
  gone :: "nat list"

fun deferred :: "('c, 's) pc \<Rightarrow> bool" where
  "deferred (Cl_deferred err) = True"
| "deferred _ = False"

text \<open>A step of a call: one that panics only runs what it has deferred.\<close>

definition prun_thread :: "'s tcpinfo_pkg \<Rightarrow> nat \<Rightarrow> 's env \<Rightarrow> ('c, 's) psys \<Rightarrow> ('c, 's) psys option" where
  "prun_thread pkg i e s =
     (if i \<in> set (gone s) \<and> \<not> deferred (threads (base s) ! i) then None
      else map_option (\<lambda>b. s\<lparr>base := b\<rparr>) (run_thread pkg i e (base s)))"

text \<open>The foreign code that a call is in panics.\<close>

definition panic_thread :: "nat \<Rightarrow> ('c, 's) psys \<Rightarrow> ('c, 's) psys option" where
  "panic_thread i s =
     (if i < length (threads (base s)) \<and> i \<notin> set (gone s)
      then case threads (base s) ! i of
             IO_run d c \<Rightarrow> Some (s\<lparr>gone := i # gone s\<rparr>)
           | Lv_run c \<Rightarrow> Some (s\<lparr>gone := i # gone s\<rparr>)
           | Cl_callback rs err \<Rightarrow>
               if rs = [] then None
               else Some \<lparr>base = (base s)\<lparr>threads := (threads (base s))[i := Cl_deferred err],
                            log := log (base s) @ map (\<lambda>_. E_reported) rs\<rparr>,
                          gone = i # gone s\<rparr>
           | _ \<Rightarrow> None
      else None)"

inductive pruns :: "'s tcpinfo_pkg \<Rightarrow> ('c, 's) psys \<Rightarrow> ('c, 's) psys \<Rightarrow> bool" for pkg where
  run: "prun_thread pkg i e s = Some s' \<Longrightarrow> pruns pkg s s'"
| panic: "panic_thread i s = Some s' \<Longrightarrow> pruns pkg s s'"

inductive pstep :: "'s tcpinfo_pkg \<Rightarrow> ('c, 's) psys \<Rightarrow> ('c, 's) psys \<Rightarrow> bool" for pkg where
  call: "is_call p \<Longrightarrow> pstep pkg s (s\<lparr>base := spawn p (base s)\<rparr>)"
| run: "pruns pkg s s' \<Longrightarrow> pstep pkg s s'"

text \<open>Steps without further panics.\<close>

definition unwinds :: "'s tcpinfo_pkg \<Rightarrow> ('c, 's) psys \<Rightarrow> ('c, 's) psys \<Rightarrow> bool" where
  "unwinds pkg s s' \<longleftrightarrow> (\<exists>i e. prun_thread pkg i e s = Some s')"

inductive_cases prunsE: "pruns pkg s s'"
inductive_cases pstepE: "pstep pkg s s'"

definition pstarted :: "'s tcpinfo_pkg \<Rightarrow> NetConn \<Rightarrow> ('c, 's) psys \<Rightarrow> bool" where
  "pstarted pkg conn s \<longleftrightarrow> started pkg conn (base s) \<and> gone s = []"

definition preachable :: "'s tcpinfo_pkg \<Rightarrow> NetConn \<Rightarrow> ('c, 's) psys \<Rightarrow> bool" where
  "preachable pkg conn s \<longleftrightarrow> (\<exists>s0. pstarted pkg conn s0 \<and> (pstep pkg)\<^sup>*\<^sup>* s0 s)"

subsection \<open>Vocabulary of the properties\<close>

text \<open>Where a call that panicked stands: in the wrapped call it never returns from, before its deferred
  function, or at the end.\<close>

fun unwound :: "('c, 's) pc \<Rightarrow> bool" where
  "unwound (IO_run d c) = True"
| "unwound (Lv_run c) = True"
| "unwound (Cl_deferred err) = True"
| "unwound (Done (Close_result err)) = True"
| "unwound _ = False"

text \<open>No \<open>Read\<close> or \<open>Write\<close> panicked, and every call is over.\<close>

definition io_intact :: "('c, 's) psys \<Rightarrow> bool" where
  "io_intact s \<longleftrightarrow> list_all (\<lambda>i. \<not> busy (threads (base s) ! i)) (gone s)"

definition over :: "('c, 's) psys \<Rightarrow> nat \<Rightarrow> bool" where
  "over s i \<longleftrightarrow> is_done (threads (base s) ! i) \<or> i \<in> set (gone s) \<and> \<not> deferred (threads (base s) ! i)"

definition all_over :: "('c, 's) psys \<Rightarrow> bool" where
  "all_over s \<longleftrightarrow> list_all (over s) [0..<length (threads (base s))]"

text \<open>Schedules with panics, and two examples: a \<open>Read\<close> panics in the wrapped connection before a \<open>Close\<close>, and the
  callback of a \<open>Close\<close> panics while a second one waits.\<close>

fun pperform :: "'s tcpinfo_pkg \<Rightarrow> (('c, 's) action + nat) list \<Rightarrow> ('c, 's) psys \<Rightarrow> ('c, 's) psys option" where
  "pperform pkg [] s = Some s"
| "pperform pkg (Inl (Call p) # as) s = (if is_call p then pperform pkg as (s\<lparr>base := spawn p (base s)\<rparr>) else None)"
| "pperform pkg (Inl (Step i e) # as) s =
     (case prun_thread pkg i e s of None \<Rightarrow> None | Some s' \<Rightarrow> pperform pkg as s')"
| "pperform pkg (Inr i # as) s = (case panic_thread i s of None \<Rightarrow> None | Some s' \<Rightarrow> pperform pkg as s')"

definition demo_io_panic :: "(unit, unit) psys" where
  "demo_io_panic = the (pperform demo_pkg [Inl (Call (IO_call Rx)), Inl (Step 0 (demo_env 11)), Inr 0]
     \<lparr>base = demo_start, gone = []\<rparr>)"

definition demo_io_close :: "(unit, unit) psys" where
  "demo_io_close = the (pperform demo_pkg (Inl (Call Cl_call) # replicate 4 (Inl (Step 1 (demo_env 12)))) demo_io_panic)"

definition demo_callback :: "(unit, unit) psys" where
  "demo_callback = the (pperform demo_pkg (Inl (Call Cl_call) # replicate 5 (Inl (Step 0 (demo_env 12)))
     @ [Inl (Call Cl_call), Inl (Step 1 (demo_env 13)), Inr 0]) \<lparr>base = demo_start, gone = []\<rparr>)"

subsection \<open>Panics are contained\<close>

lemma panic_callback_runs:
  "i < length (threads s) \<Longrightarrow> threads s ! i = Cl_callback rs err \<Longrightarrow>
     run_thread pkg i e s =
       Some (s\<lparr>threads := (threads s)[i := Cl_deferred err], log := log s @ map (\<lambda>_. E_reported) rs\<rparr>)"
  by (simp add: run_thread_def wake_def)

lemma pruns_base: "pruns pkg s s' \<Longrightarrow> base s' = base s \<or> runs pkg (base s) (base s')"
proof (erule prunsE)
  fix i e assume "prun_thread pkg i e s = Some s'"
  then show ?thesis by (auto simp: prun_thread_def split: if_splits intro: runs.run)
next
  fix i assume p: "panic_thread i s = Some s'"
  show ?thesis
  proof (cases "threads (base s) ! i")
    case (Cl_callback rs err)
    have "i < length (threads (base s))" using p by (simp add: panic_thread_def split: if_splits)
    then have "run_thread pkg i e (base s) = Some (base s')" for e
      using p Cl_callback panic_callback_runs [of i "base s" rs err pkg e] by (auto simp: panic_thread_def split: if_splits)
    then show ?thesis by (blast intro: runs.run)
  qed (use p in \<open>auto simp: panic_thread_def split: if_splits\<close>)
qed

lemma pstep_base: "pstep pkg s s' \<Longrightarrow> (step pkg)\<^sup>*\<^sup>* (base s) (base s')"
  by (erule pstepE) (auto dest!: pruns_base intro: step.intros)

lemma psteps_base: "(pstep pkg)\<^sup>*\<^sup>* s s' \<Longrightarrow> (step pkg)\<^sup>*\<^sup>* (base s) (base s')"
  by (induction rule: rtranclp_induct) (auto dest: pstep_base)

lemma preachable_base: "preachable pkg conn s \<Longrightarrow> reachable pkg conn (base s)"
  unfolding preachable_def reachable_def pstarted_def using psteps_base by blast

lemma wake_nth: "j < length ts \<Longrightarrow> wake b ts ! j = (if b = Broadcast then awaken (ts ! j) else ts ! j)"
  by (simp add: wake_def)

lemma unwound_stable:
  assumes "unwound p" "i < length (threads s)" "run_thread pkg j e s = Some s'" "threads s ! i = p"
    "i = j \<longrightarrow> deferred p"
  shows "unwound (threads s' ! i) \<and> i < length (threads s') \<and> (\<not> deferred p \<longrightarrow> threads s' ! i = p)
    \<and> (busy (threads s' ! i) \<longrightarrow> busy p)"
proof -
  obtain p' w' evs b where j: "j < length (threads s)"
    and ex: "exec pkg e (threads s ! j) (shared s) = Some (p', w', evs, b)"
    and s': "s' = \<lparr>shared = w', threads = wake b ((threads s)[j := p']), log = log s @ evs\<rparr>"
    using assms(3) by (auto simp: run_thread_def split: if_splits option.splits prod.splits)
  show ?thesis
  proof (cases "i = j")
    case True
    then obtain err where "p = Cl_deferred err" using assms(5) by (cases p) auto
    then show ?thesis using True assms ex s' j by (auto simp: wake_nth)
  next
    case False
    have "awaken p = p" using assms(1) by (cases p) auto
    then show ?thesis using False assms s' by (auto simp: wake_nth)
  qed
qed

definition gone_ok :: "('c, 's) psys \<Rightarrow> bool" where
  "gone_ok s \<longleftrightarrow> (\<forall>i\<in>set (gone s). i < length (threads (base s)) \<and> unwound (threads (base s) ! i))"

lemma prun_gone:
  assumes "gone_ok s" "prun_thread pkg j e s = Some s'"
  shows "gone_ok s'"
proof -
  obtain b where b: "run_thread pkg j e (base s) = Some b" "s' = s\<lparr>base := b\<rparr>"
    and j: "j \<in> set (gone s) \<longrightarrow> deferred (threads (base s) ! j)"
    using assms(2) by (auto simp: prun_thread_def split: if_splits)
  then show ?thesis
    using assms(1) unwound_stable [OF _ _ b(1) refl] by (auto simp: gone_ok_def)
qed

lemma panic_gone:
  assumes "gone_ok s" "panic_thread j s = Some s'"
  shows "gone_ok s'"
  using assms by (auto simp: gone_ok_def panic_thread_def nth_list_update split: if_splits pc.splits)

interpretation pg: inductive_invariant "pstarted pkg conn" "pstep pkg" "gone_ok" for pkg conn
proof (unfold_locales, goal_cases)
  case (1 s)
  then show ?case by (simp add: pstarted_def gone_ok_def)
next
  case (2 s s')
  then show ?case
    by (auto elim!: pstepE prunsE intro: prun_gone panic_gone) (auto simp: gone_ok_def spawn_def nth_append)
qed

lemma preachable_gone: "preachable pkg conn s \<Longrightarrow> gone_ok s"
  unfolding preachable_def using pg.inv_reachable by blast

subsection \<open>Panics outside I/O let every call end\<close>

definition panic_inv :: "NetConn \<Rightarrow> ('c, 's) psys \<Rightarrow> bool" where
  "panic_inv conn s \<longleftrightarrow> conn_inv conn (base s) \<and> gone_ok s"

lemma preachable_inv: "preachable pkg conn s \<Longrightarrow> panic_inv conn s"
  by (simp add: panic_inv_def reachable_inv [OF preachable_base] preachable_gone)

definition pwork :: "('c, 's) psys \<Rightarrow> nat" where
  "pwork s = work (base s) + length (filter (\<lambda>i. i \<notin> set (gone s)) [0..<length (threads (base s))])"

lemma run_thread_length: "run_thread pkg i e s = Some s' \<Longrightarrow> length (threads s') = length (threads s)"
  by (auto simp: run_thread_def split: if_splits option.splits)

lemma gone_fewer:
  assumes "i < n" "i \<notin> set g"
  shows "length (filter (\<lambda>j. j \<notin> set (i # g)) [0..<n]) < length (filter (\<lambda>j. j \<notin> set g) [0..<n])"
proof -
  have "filter (\<lambda>j. j \<notin> set (i # g)) [0..<n] = filter (\<lambda>j. j \<noteq> i) (filter (\<lambda>j. j \<notin> set g) [0..<n])" by (simp add: conj_commute)
  moreover have "length (filter (\<lambda>j. j \<noteq> i) (filter (\<lambda>j. j \<notin> set g) [0..<n])) < length (filter (\<lambda>j. j \<notin> set g) [0..<n])"
    by (rule length_filter_less [where x = i]) (use assms in auto)
  ultimately show ?thesis by simp
qed

lemma panic_work: "panic_inv conn s \<Longrightarrow> panic_thread i s = Some s' \<Longrightarrow> pwork s' < pwork s"
proof -
  assume inv: "panic_inv conn s" and p: "panic_thread i s = Some s'"
  then have "gone s' = i # gone s" "length (threads (base s')) = length (threads (base s))"
    "i < length (threads (base s))" "i \<notin> set (gone s)"
    by (auto simp: panic_thread_def split: if_splits pc.splits)
  moreover have "work (base s') \<le> work (base s)"
    using pruns_base [OF pruns.panic [OF p], of undefined] runs_work inv
    by (fastforce simp: panic_inv_def)
  ultimately show ?thesis using gone_fewer [of i "length (threads (base s))" "gone s"] by (simp add: pwork_def)
qed

lemma prun_work: "panic_inv conn s \<Longrightarrow> prun_thread pkg i e s = Some s' \<Longrightarrow> pwork s' < pwork s"
  using runs_work [OF _ runs.run] run_thread_length
  by (fastforce simp: panic_inv_def prun_thread_def pwork_def split: if_splits)

lemma prun_enabled:
  assumes "i < length (threads (base s))" "exec pkg e (threads (base s) ! i) (shared (base s)) \<noteq> None"
    "i \<in> set (gone s) \<longrightarrow> deferred (threads (base s) ! i)"
  shows "\<exists>s'. unwinds pkg s s'"
proof -
  have "prun_thread pkg i e s \<noteq> None" using assms by (auto simp: prun_thread_def run_thread_def)
  then show ?thesis by (auto simp: unwinds_def)
qed

lemma busy_enabled: "busy p \<or> deferred p \<Longrightarrow> exec pkg e p w \<noteq> None"
  unfolding exec_enabled by (cases p) auto

lemma panic_progress:
  assumes "panic_inv conn s" "io_intact s" "\<not> all_over s"
  shows "\<exists>s'. unwinds pkg s s'"
proof (rule ccontr)
  let ?ts = "threads (base s)" and ?w = "shared (base s)"
  assume stuck: "\<not> ?thesis"
  have inv: "conn_inv conn (base s)" and gone: "gone_ok s" using assms(1) by (auto simp: panic_inv_def)
  have dis: "exec pkg e (?ts ! i) ?w = None" if "i < length ?ts" "i \<in> set (gone s) \<longrightarrow> deferred (?ts ! i)" for i e
    using prun_enabled that stuck by blast
  have "\<not> busy (?ts ! i)" if "i < length ?ts" for i
  proof
    assume b: "busy (?ts ! i)"
    then have "i \<notin> set (gone s)" using assms(2) by (auto simp: io_intact_def list_all_iff)
    then have "exec pkg e (?ts ! i) ?w = None" for e using dis [OF that] by blast
    then show False using busy_enabled b by blast
  qed
  then have "filter busy ?ts = []" by (auto simp: filter_empty_conv in_set_conv_nth)
  then have idle: "inFlight ?w = 0" using inv by (simp add: conn_inv_def inv_count_def)
  have nosleep: "p \<noteq> Cl_sleep i ie err" if "p \<in> set ?ts" for p i ie err
    using inv idle that by (auto simp: conn_inv_def)
  obtain i where i: "i < length ?ts" "\<not> is_done (?ts ! i)" "i \<in> set (gone s) \<longrightarrow> deferred (?ts ! i)"
    using assms(3) by (auto simp: all_over_def over_def list_all_iff)
  then have "?ts ! i = Cl_wait_done" "closeDone ?w \<noteq> Some True"
    using dis [OF i(1,3)] nosleep [OF nth_mem [OF i(1)]] exec_enabled by blast+
  moreover have "pc_ok conn ?w (log (base s)) (?ts ! i)" using inv i(1) by (simp add: conn_inv_def)
  ultimately have "closeDone ?w = Some False" by (cases "closeDone ?w") auto
  then obtain q where "q \<in> set ?ts" "closer q" using inv_closer [OF inv] by blast
  then obtain k where k: "k < length ?ts" "closer (?ts ! k)" by (auto simp: in_set_conv_nth)
  have "deferred (?ts ! k)" if "k \<in> set (gone s)"
    using gone that k(2) unfolding gone_ok_def by (cases "?ts ! k") auto
  then have "exec pkg e (?ts ! k) ?w = None" for e using dis k(1) by blast
  moreover have "\<not> is_done (?ts ! k)" "?ts ! k \<noteq> Cl_wait_done" using k(2) by (cases "?ts ! k"; simp)+
  ultimately show False using nosleep [OF nth_mem [OF k(1)]] exec_enabled by blast
qed

lemma pruns_inv:
  assumes "panic_inv conn s" "pstep pkg s s'"
  shows "panic_inv conn s'"
  using assms pg.step_inv [OF _ assms(2)] ci.inv_steps [OF pstep_base [OF assms(2)]] by (simp add: panic_inv_def)

interpretation pr: terminating_runs "pstarted pkg conn" "pstep pkg" "panic_inv conn" "pruns pkg"
  "\<lambda>s. io_intact s \<longrightarrow> all_over s" pwork for pkg conn
proof (unfold_locales, goal_cases)
  case (1 s)
  then show ?case using started_inv by (auto simp: pstarted_def panic_inv_def gone_ok_def)
next
  case (2 s s')
  then show ?case by (rule pruns_inv)
next
  case (3 s s')
  then show ?case by (rule pstep.run)
next
  case (4 s s')
  then show ?case by (auto elim!: prunsE intro: prun_work panic_work)
next
  case (5 s)
  then show ?case using panic_progress [of conn s pkg] by (auto simp: unwinds_def intro: pruns.run)
qed


lemma pperform_steps: "pperform pkg as s = Some s' \<Longrightarrow> (pstep pkg)\<^sup>*\<^sup>* s s'"
proof (induction pkg as s rule: pperform.induct)
  case (2 pkg p as s)
  then show ?case by (auto split: if_splits intro: converse_rtranclp_into_rtranclp pstep.call)
next
  case (3 pkg i e as s)
  then show ?case by (auto split: option.splits intro: converse_rtranclp_into_rtranclp pstep.run pruns.run)
next
  case (4 pkg i as s)
  then show ?case by (auto split: option.splits intro: converse_rtranclp_into_rtranclp pstep.run pruns.panic)
qed simp

lemmas demo_panic_defs = demo_start_def demo_env_def demo_pkg_def demo_netconn_def
  WrapConnWithContext_def apply_options_def Conn_zero_def collectTCPInfo_def applyTCPInfoLocked_def
  prun_thread_def panic_thread_def run_thread_def spawn_def section_defs account_def wake_def
  snapshotLocked_def Info_Clone_def localAddrLocked_def remoteAddrLocked_def nth_append numeral_eq_Suc

lemma demo_io_panic:
  "pperform demo_pkg [Inl (Call (IO_call Rx)), Inl (Step 0 (demo_env 11)), Inr 0] \<lparr>base = demo_start, gone = []\<rparr> = Some demo_io_panic
 \<and> gone demo_io_panic = [0] \<and> threads (base demo_io_panic) = [IO_run Rx demo_netconn]"
  by (simp add: demo_io_panic_def demo_panic_defs)

lemma demo_io_close:
  "pperform demo_pkg (Inl (Call Cl_call) # replicate 4 (Inl (Step 1 (demo_env 12)))) demo_io_panic = Some demo_io_close
 \<and> gone demo_io_close = [0] \<and> threads (base demo_io_close) = [IO_run Rx demo_netconn, Cl_sleep None None None]"
  by (simp add: demo_io_close_def demo_io_panic_def demo_panic_defs)

lemma demo_callback:
  "pperform demo_pkg (Inl (Call Cl_call) # replicate 5 (Inl (Step 0 (demo_env 12)))
     @ [Inl (Call Cl_call), Inl (Step 1 (demo_env 13)), Inr 0]) \<lparr>base = demo_start, gone = []\<rparr> = Some demo_callback
 \<and> gone demo_callback = [0] \<and> threads (base demo_callback) = [Cl_deferred None, Cl_wait_done]"
  by (simp add: demo_callback_def demo_panic_defs)

lemma demo_pstarted: "pstarted demo_pkg demo_netconn \<lparr>base = demo_start, gone = []\<rparr>"
  unfolding pstarted_def demo_start_def
  by (auto intro: started.started [where kern = "pkg_GetTCPInfo demo_pkg" and ctl = "Control_fd 3" and now = 10
        and ctx = "()" and fn = "Some 7" and opts = "[]"])

lemma demo_preachable: "preachable demo_pkg demo_netconn demo_io_panic" "preachable demo_pkg demo_netconn demo_callback"
  using demo_pstarted demo_io_panic demo_callback pperform_steps unfolding preachable_def by blast+


lemma unwinds_intact:
  assumes "panic_inv conn s" "io_intact s" "unwinds pkg s s'"
  shows "io_intact s'"
proof -
  obtain j e b where b: "run_thread pkg j e (base s) = Some b" "s' = s\<lparr>base := b\<rparr>"
    and j: "j \<in> set (gone s) \<longrightarrow> deferred (threads (base s) ! j)"
    using assms(3) by (auto simp: unwinds_def prun_thread_def split: if_splits)
  have "\<not> busy (threads b ! i)" if i: "i \<in> set (gone s)" for i
  proof -
    have ok: "unwound (threads (base s) ! i)" "i < length (threads (base s))" "\<not> busy (threads (base s) ! i)"
      using assms(1,2) i by (auto simp: panic_inv_def gone_ok_def io_intact_def list_all_iff)
    then show ?thesis using unwound_stable [OF ok(1,2) b(1) refl] i j by blast
  qed
  then show ?thesis by (simp add: io_intact_def list_all_iff b(2))
qed

interpretation pu: terminating_runs "\<lambda>s. panic_inv conn s \<and> io_intact s" "unwinds pkg"
  "\<lambda>s. panic_inv conn s \<and> io_intact s" "unwinds pkg" all_over pwork for pkg conn
proof (unfold_locales, goal_cases)
  case (2 s s')
  then have "pruns pkg s s'" by (auto simp: unwinds_def intro: pruns.run)
  then show ?case using 2 unwinds_intact pruns_inv pstep.run by blast
next
  case (4 s s')
  then show ?case by (auto simp: unwinds_def intro: prun_work)
next
  case (5 s)
  then show ?case using panic_progress by blast
qed auto

lemma unwinds_pruns: "(unwinds pkg)\<^sup>*\<^sup>* s s' \<Longrightarrow> (pruns pkg)\<^sup>*\<^sup>* s s'"
  by (induction rule: rtranclp_induct) (auto simp: unwinds_def intro: rtranclp.rtrancl_into_rtrancl pruns.run)

text \<open>C8: a panic of the callback, or of a deadline method, holds up nobody. Executions are bounded, panics
  included. When one can go on no more and no \<open>Read\<close> or \<open>Write\<close> panicked in it, every call is over: it has returned
  or its panic is unwound, and in particular every \<open>Close\<close> that waited for the one whose callback panicked has
  returned. Such an end can always be reached.\<close>

theorem callback_panic_releases:
  assumes "preachable pkg conn s"
  shows "(\<forall>k s'. (pruns pkg ^^ k) s s' \<longrightarrow> k \<le> pwork s)
       \<and> (\<forall>s'. (pruns pkg)\<^sup>*\<^sup>* s s' \<and> (\<nexists>t. pruns pkg s' t) \<and> io_intact s' \<longrightarrow> all_over s')
       \<and> (io_intact s \<longrightarrow> (\<exists>s'. (pruns pkg)\<^sup>*\<^sup>* s s' \<and> io_intact s' \<and> all_over s'))"
proof -
  note inv = preachable_inv [OF assms]
  have "k \<le> pwork s" if "(pruns pkg ^^ k) s s'" for k s'
    using pr.run_bound [OF that inv] by simp
  moreover have "all_over s'" if "(pruns pkg)\<^sup>*\<^sup>* s s'" "\<nexists>t. pruns pkg s' t" "io_intact s'" for s'
    using pr.stuck_final [OF that(1) inv] that(2,3) by blast
  moreover have "\<exists>s'. (pruns pkg)\<^sup>*\<^sup>* s s' \<and> io_intact s' \<and> all_over s'" if "io_intact s"
    using pu.can_finish [of conn s pkg] pu.runs_inv [of pkg s _ conn] inv that unwinds_pruns by blast
  ultimately show ?thesis by blast
qed

theorem callback_panic_releases_witness:
  "preachable demo_pkg demo_netconn demo_callback \<and> io_intact demo_callback \<and> Cl_wait_done \<in> set (threads (base demo_callback))
 \<and> (\<exists>s'. (pruns demo_pkg)\<^sup>*\<^sup>* demo_callback s' \<and> all_over s')"
proof -
  have "io_intact demo_callback" using demo_callback by (simp add: io_intact_def)
  then show ?thesis
    using callback_panic_releases [OF demo_preachable(2)] demo_preachable(2) demo_callback by auto
qed

subsection \<open>A panic in I/O blocks closing\<close>

lemma io_panic_stays:
  assumes "pstep pkg s s'" "gone_ok s" "i \<in> set (gone s)" "threads (base s) ! i = IO_run d c"
  shows "i \<in> set (gone s') \<and> threads (base s') ! i = IO_run d c"
  using assms(1)
proof (rule pstepE)
  have i: "i < length (threads (base s))" using assms(2,3) by (simp add: gone_ok_def)
  fix p assume "s' = s\<lparr>base := spawn p (base s)\<rparr>"
  then show ?thesis using i assms by (simp add: spawn_def nth_append)
next
  have i: "i < length (threads (base s))" using assms(2,3) by (simp add: gone_ok_def)
  assume "pruns pkg s s'"
  then show ?thesis
  proof (rule prunsE)
    fix j e assume "prun_thread pkg j e s = Some s'"
    then obtain b where b: "run_thread pkg j e (base s) = Some b" "s' = s\<lparr>base := b\<rparr>"
      and j: "j \<in> set (gone s) \<longrightarrow> deferred (threads (base s) ! j)"
      by (auto simp: prun_thread_def split: if_splits)
    then have "i \<noteq> j" using assms(3,4) by auto
    then show ?thesis using unwound_stable [OF _ i b(1) assms(4)] b(2) assms(3) by simp
  next
    fix j assume "panic_thread j s = Some s'"
    then show ?thesis using assms(3,4) by (auto simp: panic_thread_def nth_list_update split: if_splits pc.splits)
  qed
qed



subsection \<open>A panic of the wrapped Close\<close>

text \<open>The state when the wrapped \<open>Close\<close> panics: the first section and the deferred function have run.\<close>

definition Close_panics :: "int64 \<Rightarrow> ('c, 's) Conn \<Rightarrow> ('c, 's) Conn option" where
  "Close_panics now w =
     (case Close_start now w of
        (Closing conn, w) \<Rightarrow> Some (Close_done w)
      | _ \<Rightarrow> None)"

text \<open>C10: when the wrapped \<open>Close\<close> panics, the wrapper is not closed but looks so: every later \<open>Close\<close> returns nil
  at once, without closing the connection or reporting, although I/O is refused from then on.\<close>

theorem Close_after_panic:
  assumes "netConn w = Some c" "closeErr w = None" "Close_panics now w = Some w'"
  shows "netConn w' = Some c \<and> Close pkg ctl cl now' w' = Some (None, w', [])
     \<and> Read rd ts w' = ((0, Some ErrClosed), w') \<and> Write wr ts w' = ((0, Some ErrClosed), w')
     \<and> withLiveConn fn w' = Some ErrClosed"
proof -
  have w': "netConn w' = Some c" "closeStarted w'" "closeErr w' = None" "closeDone w' = Some True"
    using assms by (auto simp: Close_panics_def Close_start_def Close_done_def split: if_splits)
  then show ?thesis
    by (simp add: Close_def Close_start_again Read_def Write_def beginIO_refused live_def withLiveConn_def liveConn_def)
qed

theorem Close_after_panic_witness:
  "\<exists>w'. Close_panics 44 demo_conn = Some w' \<and> Close demo_pkg (Control_fd 3) (\<lambda>_. Some ErrClosed) 45 w' = Some (None, w', [])"
proof -
  have p: "Close_panics 44 demo_conn = Some (Close_done (demo_conn\<lparr>closeStarted := True, ClosedAt := 44, closeDone := Some False\<rparr>))"
    by (simp add: Close_panics_def Close_start_live)
  show ?thesis
    using Close_after_panic [of demo_conn demo_netconn, OF _ _ p, of demo_pkg "Control_fd 3" "\<lambda>_. Some ErrClosed" 45] p by simp
qed

subsection \<open>The snapshot of the opening\<close>

text \<open>A schedule on a snapshot: a call of I/O is in the wrapped connection when \<open>Close\<close> starts. Then \<open>Close\<close> reaches its
  loop first, or the I/O its end.\<close>

definition close_first :: "dir \<Rightarrow> 's env \<Rightarrow> ('c, 's) action list" where
  "close_first d e = [Call (IO_call d), Step 0 e, Call Cl_call, Step 1 e, Step 1 e, Step 1 e]"

definition io_first :: "dir \<Rightarrow> 's env \<Rightarrow> ('c, 's) action list" where
  "io_first d e = [Call (IO_call d), Step 0 e, Call Cl_call, Step 1 e, Step 0 e, Step 0 e]"

text \<open>C11: the snapshot passed to a callback at the opening is not detached. It has the live connection: reading,
  writing and \<open>Close\<close> go through to it, and this \<open>Close\<close> closes the connection without a report. Its condition
  variable is nil, so that \<open>Close\<close> beside a running \<open>Read\<close> or \<open>Write\<close> panics, whichever comes first.\<close>

theorem opened_snapshot:
  assumes "snd (WrapConnWithContext pkg ctl now ctx (Some conn) (Some f) opts) = [(f', snap, st)]"
  shows "st = Opened \<and> Read rd ts snap = (rd conn, Read_account (fst (rd conn)) (snd (rd conn)) ts snap)
     \<and> Write wr ts snap = (wr conn, Write_account (fst (wr conn)) (snd (wr conn)) ts snap)
     \<and> (\<exists>w'. Close pkg ctl' cl now' snap = Some (cl conn, w', []))
     \<and> (\<exists>s. perform pkg (close_first d e) \<lparr>shared = snap, threads = [], log = []\<rparr> = Some s
          \<and> (\<exists>p w. exec pkg e (threads s ! 1) (shared s) = Some (p, w, [], Nil_panic)))
     \<and> (\<exists>s. perform pkg (io_first d e) \<lparr>shared = snap, threads = [], log = []\<rparr> = Some s
          \<and> (\<exists>p w. exec pkg e (threads s ! 0) (shared s) = Some (p, w, [], Nil_panic)))"
proof -
  have snap: "st = Opened" "netConn snap = Some conn" "\<not> closeStarted snap" "closeDone snap = None" "reportStats snap = None"
    "inFlight snap = 0" "\<not> ioDrained snap"
    using assms by (auto simp: WrapConn_eq Let_def snapshotLocked_def Conn_zero_def split: prod.splits if_splits)
  have "\<exists>w'. Close pkg ctl' cl now' snap = Some (cl conn, w', [])"
    using snap by (simp add: Close_def Close_start_live Close_detach_def Close_finish_def Let_def split: prod.split)
  moreover have "\<exists>s. perform pkg (close_first d e) \<lparr>shared = snap, threads = [], log = []\<rparr> = Some s
          \<and> (\<exists>p w. exec pkg e (threads s ! 1) (shared s) = Some (p, w, [], Nil_panic))"
    using snap by (simp add: close_first_def run_thread_def spawn_def section_defs wake_def split: prod.split)
  moreover have "\<exists>s. perform pkg (io_first d e) \<lparr>shared = snap, threads = [], log = []\<rparr> = Some s
          \<and> (\<exists>p w. exec pkg e (threads s ! 0) (shared s) = Some (p, w, [], Nil_panic))"
    using snap by (simp add: io_first_def run_thread_def spawn_def section_defs wake_def split: prod.split)
  ultimately show ?thesis using snap Read_Write_live [of snap conn] by simp
qed

theorem opened_snapshot_witness:
  "\<exists>snap. snd (WrapConnWithContext demo_pkg (Control_fd 3) 10 () (Some demo_netconn) (Some 7) [Some (WithEmitOpenCallback True)])
       = [(7, snap, Opened)]
     \<and> (\<exists>s. perform demo_pkg (close_first Rx (demo_env 11)) \<lparr>shared = snap, threads = [], log = []\<rparr> = Some s
          \<and> (\<exists>p w. exec demo_pkg (demo_env 11) (threads s ! 1) (shared s) = Some (p, w, [], Nil_panic)))"
proof -
  obtain snap where snap: "snd (WrapConnWithContext demo_pkg (Control_fd 3) 10 () (Some demo_netconn) (Some 7) [Some (WithEmitOpenCallback True)])
       = [(7, snap, Opened)]"
    by (auto simp: WrapConn_eq apply_options_def WithEmitOpenCallback_def collectTCPInfo_def demo_pkg_def Let_def)
  show ?thesis
    using opened_snapshot [OF snap, of "\<lambda>_. (0, None)" 12 "\<lambda>_. (0, None)" "Control_fd 3" "\<lambda>_. None" 13 Rx "demo_env 11"] snap
    by blast
qed

end
