(* ===== verification/Kernel_Version.thy ===== *)
theory Kernel_Version
  imports Go_Strings "HOL-Library.Product_Lexorder"
begin

unbundle bit_operations_syntax

text \<open>
  Package \<open>pkg/kernel\<close>: the version record, its printing, comparison and parsing, the lookup of
  the running kernel's version, and the Windows variant that unpacks \<open>GetVersion\<close>. The system
  call \<open>uname\<close> and \<open>unix.ByteSliceToString\<close>, which are outside the repository, are parameters.

  The locale \<open>version_order\<close> is the contract the version table of the Linux \<open>tcp_info\<close> code
  relies on: a three-way comparison that decides a total preorder.
\<close>

subsection \<open>Versions\<close>

record VersionInfo =
  Kernel :: int
  Major :: int
  Minor :: int
  Flavor :: string

definition VersionInfo_String :: "VersionInfo \<Rightarrow> string" where
  "VersionInfo_String k =
     Itoa (Kernel k) @ ''.'' @ Itoa (Major k) @ ''.'' @ Itoa (Minor k) @ Flavor k"

definition CompareKernelVersion :: "VersionInfo \<Rightarrow> VersionInfo \<Rightarrow> int" where
  "CompareKernelVersion a b =
     (if Kernel a < Kernel b then -1
      else if Kernel a > Kernel b then 1
      else if Major a < Major b then -1
      else if Major a > Major b then 1
      else if Minor a < Minor b then -1
      else if Minor a > Minor b then 1
      else 0)"

text \<open>The two formats, \<^verbatim>\<open>%d.%d%s\<close> and \<^verbatim>\<open>.%d%s\<close>.\<close>

definition release_format :: "directive list" where
  "release_format = [VerbD, Lit CHR ''.'', VerbD, VerbS]"

definition minor_format :: "directive list" where
  "minor_format = [Lit CHR ''.'', VerbD, VerbS]"

definition ParseRelease :: "string \<Rightarrow> goerror + VersionInfo" where
  "ParseRelease release =
     (case doScanf release_format release of
        ScanInt kern # ScanInt maj # vs \<Rightarrow>
          let partial = (case vs of ScanStr p # _ \<Rightarrow> p | _ \<Rightarrow> '''')
          in (case doScanf minor_format partial of
                ScanInt mnr # us \<Rightarrow>
                  Inr \<lparr>Kernel = kern, Major = maj, Minor = mnr,
                       Flavor = (case us of ScanStr f # _ \<Rightarrow> f | _ \<Rightarrow> '''')\<rparr>
              | _ \<Rightarrow> Inr \<lparr>Kernel = kern, Major = maj, Minor = 0, Flavor = partial\<rparr>)
      | _ \<Rightarrow> Inl (errors_New (''Can't parse kernel version '' @ release)))"

subsection \<open>The running kernel\<close>

definition uname_unix :: "goerror option \<times> uint8 list \<Rightarrow> goerror + uint8 list" where
  "uname_unix syscall = (case syscall of (Some e, _) \<Rightarrow> Inl e | (None, release) \<Rightarrow> Inr release)"

definition uname_unsupported :: "goerror + uint8 list" where
  "uname_unsupported = Inl (errors_New ''kernel version detection is not available on this platform'')"

definition GetKernelVersion :: "(uint8 list \<Rightarrow> string) \<Rightarrow> goerror + uint8 list \<Rightarrow> goerror + VersionInfo" where
  "GetKernelVersion byteSliceToString uname =
     (case uname of Inl e \<Rightarrow> Inl e | Inr release \<Rightarrow> ParseRelease (byteSliceToString release))"

definition CheckKernelVersion ::
    "(uint8 list \<Rightarrow> string) \<Rightarrow> goerror + uint8 list \<Rightarrow> int \<Rightarrow> int \<Rightarrow> int \<Rightarrow> goerror + bool" where
  "CheckKernelVersion byteSliceToString uname k maj mnr =
     (case GetKernelVersion byteSliceToString uname of
        Inl e \<Rightarrow> Inl e
      | Inr v \<Rightarrow>
          if CompareKernelVersion v \<lparr>Kernel = k, Major = maj, Minor = mnr, Flavor = ''''\<rparr> < 0
          then Inr False else Inr True)"

subsection \<open>Windows\<close>

record WinVersionInfo =
  kvi :: string
  win_major :: int
  win_minor :: int
  win_build :: int

definition WinVersionInfo_String :: "WinVersionInfo \<Rightarrow> string" where
  "WinVersionInfo_String k =
     Itoa (win_major k) @ ''.'' @ Itoa (win_minor k) @ '' '' @ Itoa (win_build k) @ '' ('' @ kvi k @ '')''"

text \<open>
  The registry key, the value \<open>BuildLabEx\<close> and \<open>windows.GetVersion\<close> are parameters. The version
  read so far is returned beside an error.
\<close>

definition GetKernelVersion_windows ::
    "goerror option \<Rightarrow> goerror + string \<Rightarrow> goerror + uint32 \<Rightarrow> WinVersionInfo \<times> goerror option" where
  "GetKernelVersion_windows openKey buildLabEx getVersion =
     (let KVI = \<lparr>kvi = ''Unknown'', win_major = 0, win_minor = 0, win_build = 0\<rparr>
      in case openKey of
        Some e \<Rightarrow> (KVI, Some e)
      | None \<Rightarrow> (case buildLabEx of
          Inl e \<Rightarrow> (KVI, Some e)
        | Inr blex \<Rightarrow>
            let KVI = KVI\<lparr>kvi := blex\<rparr>
            in (case getVersion of
              Inl e \<Rightarrow> (KVI, Some e)
            | Inr dwVersion \<Rightarrow>
                (KVI\<lparr>win_major := uint (dwVersion AND 0xFF),
                     win_minor := uint (drop_bit 8 (dwVersion AND 0xFF00)),
                     win_build := uint (drop_bit 16 (dwVersion AND 0xFFFF0000))\<rparr>, None))))"

subsection \<open>The comparison contract\<close>

locale version_order =
  fixes cmp :: "'v \<Rightarrow> 'v \<Rightarrow> int"
  assumes cmp_refl: "cmp a a = 0"
    and cmp_flip: "cmp b a = - cmp a b"
    and cmp_trans: "cmp a b \<ge> 0 \<Longrightarrow> cmp b c \<ge> 0 \<Longrightarrow> cmp a c \<ge> 0"
begin

definition at_least :: "'v \<Rightarrow> 'v \<Rightarrow> bool" where
  "at_least a b \<longleftrightarrow> cmp a b \<ge> 0"

lemma at_least_total: "at_least a b \<or> at_least b a"
  unfolding at_least_def using cmp_flip [of a b] by linarith

lemma at_least_trans: "at_least a b \<Longrightarrow> at_least b c \<Longrightarrow> at_least a c"
  unfolding at_least_def by (rule cmp_trans)

text \<open>In a table sorted by version, the entries a version reaches are an initial segment.\<close>

lemma reached_initial:
  assumes "sorted_wrt (\<lambda>x y. at_least y x) ts" and "j \<le> i" and "i < length ts"
    and "at_least v (ts ! i)"
  shows "at_least v (ts ! j)"
proof (cases "j = i")
  case False
  with assms(2) have "j < i" by simp
  then have "at_least (ts ! i) (ts ! j)" using assms(1,3) sorted_wrt_nth_less by blast
  with assms(4) show ?thesis by (rule at_least_trans)
qed (use assms(4) in simp)

end

subsection \<open>Facts on comparison\<close>

definition version_key :: "VersionInfo \<Rightarrow> int \<times> int \<times> int" where
  "version_key v = (Kernel v, Major v, Minor v)"

lemma CompareKernelVersion_key:
  "CompareKernelVersion a b =
     (if version_key a < version_key b then -1 else if version_key a = version_key b then 0 else 1)"
  by (auto simp: CompareKernelVersion_def version_key_def)

interpretation kv: version_order CompareKernelVersion
proof unfold_locales
  fix a b c :: VersionInfo
  show "CompareKernelVersion a a = 0"
    by (simp add: CompareKernelVersion_key)
  show "CompareKernelVersion b a = - CompareKernelVersion a b"
    by (auto simp: CompareKernelVersion_key)
  show "CompareKernelVersion a b \<ge> 0 \<Longrightarrow> CompareKernelVersion b c \<ge> 0 \<Longrightarrow> CompareKernelVersion a c \<ge> 0"
    by (auto simp: CompareKernelVersion_key split: if_splits)
qed

lemma kv_at_least_iff: "kv.at_least a b \<longleftrightarrow> version_key b \<le> version_key a"
  by (auto simp: kv.at_least_def CompareKernelVersion_key)

lemma Compare_ge_0_iff: "CompareKernelVersion a b \<ge> 0 \<longleftrightarrow> version_key b \<le> version_key a"
  by (auto simp: CompareKernelVersion_key)

text \<open>The comparison is the lexicographic order on (kernel, major, minor): it answers -1, 0
  or 1 exactly when the first version is below, equal to or above the second; flavours are
  ignored.\<close>

lemma CompareKernelVersion_lex:
  "(CompareKernelVersion a b = -1 \<longleftrightarrow> (Kernel a, Major a, Minor a) < (Kernel b, Major b, Minor b))
 \<and> (CompareKernelVersion a b = 0 \<longleftrightarrow> (Kernel a, Major a, Minor a) = (Kernel b, Major b, Minor b))
 \<and> (CompareKernelVersion a b = 1 \<longleftrightarrow> (Kernel b, Major b, Minor b) < (Kernel a, Major a, Minor a))"
  unfolding CompareKernelVersion_key version_key_def [symmetric] by auto

subsection \<open>Facts on parsing\<close>

definition flavor_ok :: "string \<Rightarrow> bool" where
  "flavor_ok f \<longleftrightarrow> (\<forall>c\<in>set f. \<not> isSpace c) \<and> (f = [] \<or> \<not> is_digit (hd f))"

lemma not_digit_dot [simp]: "\<not> is_digit CHR ''.''"
  by (simp add: is_digit_def)

lemma not_space_dot [simp]: "\<not> isSpace CHR ''.''"
  by (simp add: isSpace_def)

lemma scan_flavor:
  assumes "\<forall>c\<in>set f. \<not> isSpace c"
  shows "doScanf [VerbS] f = (if f = [] then [] else [ScanStr f])"
  using assms by (simp add: scanWord_word)

lemma scan_minor:
  assumes "int64_range m" and "flavor_ok f"
  shows "doScanf minor_format (CHR ''.'' # Itoa m @ f) = ScanInt m # (if f = [] then [] else [ScanStr f])"
proof -
  have "scanInt (Itoa m @ f) = Some (m, f)"
    using assms by (intro scanInt_Itoa) (auto simp: flavor_ok_def)
  moreover have "doScanf [VerbS] f = (if f = [] then [] else [ScanStr f])"
    using assms(2) by (intro scan_flavor) (auto simp: flavor_ok_def)
  ultimately show ?thesis by (simp add: minor_format_def)
qed

lemma scan_release:
  assumes "int64_range k" and "int64_range m"
    and "\<forall>c\<in>set rest. \<not> isSpace c" and "rest = [] \<or> \<not> is_digit (hd rest)"
  shows "doScanf release_format (Itoa k @ CHR ''.'' # Itoa m @ rest) =
           ScanInt k # ScanInt m # (if rest = [] then [] else [ScanStr rest])"
proof -
  have "scanInt (Itoa k @ CHR ''.'' # Itoa m @ rest) = Some (k, CHR ''.'' # Itoa m @ rest)"
    using assms(1) by (intro scanInt_Itoa) auto
  moreover have "scanInt (Itoa m @ rest) = Some (m, rest)"
    using assms(2,4) by (intro scanInt_Itoa) auto
  ultimately show ?thesis
    using scan_flavor [OF assms(3)] by (simp add: release_format_def)
qed

text \<open>C24: parsing the printed form of a version gives the version back, for every version whose
  numbers fit 64 bits and whose flavour has no white space and does not start with a digit.\<close>

theorem ParseRelease_String:
  assumes "int64_range (Kernel v)" and "int64_range (Major v)" and "int64_range (Minor v)"
    and "flavor_ok (Flavor v)"
  shows "ParseRelease (VersionInfo_String v) = Inr v"
proof -
  let ?rest = "CHR ''.'' # Itoa (Minor v) @ Flavor v"
  have sp: "\<forall>c\<in>set ?rest. \<not> isSpace c"
    using assms(4) Itoa_no_space by (auto simp: flavor_ok_def)
  have str: "VersionInfo_String v = Itoa (Kernel v) @ CHR ''.'' # Itoa (Major v) @ ?rest"
    by (simp add: VersionInfo_String_def)
  have "doScanf release_format (VersionInfo_String v) = [ScanInt (Kernel v), ScanInt (Major v), ScanStr ?rest]"
    unfolding str using scan_release [OF assms(1,2) sp] by simp
  then show ?thesis
    using scan_minor [OF assms(3,4)] by (simp add: ParseRelease_def)
qed

theorem ParseRelease_String_witness:
  "ParseRelease (VersionInfo_String \<lparr>Kernel = 3, Major = 10, Minor = 0, Flavor = ''-862.2.3.el7.x86_64''\<rparr>)
     = Inr \<lparr>Kernel = 3, Major = 10, Minor = 0, Flavor = ''-862.2.3.el7.x86_64''\<rparr>"
  by (rule ParseRelease_String) (simp_all add: int64_range_def flavor_ok_def isSpace_def is_digit_def)

end
