(* ===== verification/Linux_Init.thy ===== *)
theory Linux_Init
  imports Kernel_Version
begin

text \<open>
  \<open>pkg/tcpinfo/init_linux.go\<close>: the table of the sizes the kernel's \<open>tcp_info\<close> struct has had, and
  \<open>adaptToKernelVersion\<close>, which runs at start-up and sets the size to ask for and one flag per
  entry. A flag is a package variable whose address the table holds, so the flags are a store
  indexed by \<open>kflag\<close>.
\<close>

subsection \<open>The package variables\<close>

datatype kflag =
    AtLeast_2_6_2 | AtLeast_3_15 | AtLeast_4_1 | AtLeast_4_2 | AtLeast_4_6 | AtLeast_4_9
  | AtLeast_4_10 | AtLeast_4_18 | AtLeast_4_19 | AtLeast_5_4 | AtLeast_5_5 | AtLeast_6_2
  | AtLeast_6_7

record globals =
  linuxKernelVersion :: "VersionInfo option"
  sizeOfRawTCPInfo :: nat
  kernelVersionIs :: "kflag \<Rightarrow> bool"

definition initial_globals :: globals where
  "initial_globals = \<lparr>linuxKernelVersion = None, sizeOfRawTCPInfo = 0, kernelVersionIs = (\<lambda>_. False)\<rparr>"

record VersionedStructSize =
  Version :: VersionInfo
  Size :: nat
  Flag :: kflag

definition kversion :: "int \<Rightarrow> int \<Rightarrow> int \<Rightarrow> VersionInfo" where
  "kversion k major minor = \<lparr>Kernel = k, Major = major, Minor = minor, Flavor = ''''\<rparr>"

definition tcpInfoSizes :: "VersionedStructSize list" where
  "tcpInfoSizes =
     [\<lparr>Version = kversion 2 6 2, Size = 104, Flag = AtLeast_2_6_2\<rparr>,
      \<lparr>Version = kversion 3 15 0, Size = 120, Flag = AtLeast_3_15\<rparr>,
      \<lparr>Version = kversion 4 1 0, Size = 136, Flag = AtLeast_4_1\<rparr>,
      \<lparr>Version = kversion 4 2 0, Size = 144, Flag = AtLeast_4_2\<rparr>,
      \<lparr>Version = kversion 4 6 0, Size = 160, Flag = AtLeast_4_6\<rparr>,
      \<lparr>Version = kversion 4 9 0, Size = 148, Flag = AtLeast_4_9\<rparr>,
      \<lparr>Version = kversion 4 10 0, Size = 192, Flag = AtLeast_4_10\<rparr>,
      \<lparr>Version = kversion 4 18 0, Size = 200, Flag = AtLeast_4_18\<rparr>,
      \<lparr>Version = kversion 4 19 0, Size = 224, Flag = AtLeast_4_19\<rparr>,
      \<lparr>Version = kversion 5 4 0, Size = 232, Flag = AtLeast_5_4\<rparr>,
      \<lparr>Version = kversion 5 5 0, Size = 232, Flag = AtLeast_5_5\<rparr>,
      \<lparr>Version = kversion 6 2 0, Size = 240, Flag = AtLeast_6_2\<rparr>,
      \<lparr>Version = kversion 6 7 0, Size = 248, Flag = AtLeast_6_7\<rparr>]"

subsection \<open>adaptToKernelVersion\<close>

definition set_flag :: "kflag \<Rightarrow> bool \<Rightarrow> globals \<Rightarrow> globals" where
  "set_flag f b g = g\<lparr>kernelVersionIs := (kernelVersionIs g)(f := b)\<rparr>"

text \<open>The inner loop, \<open>for j := i; j >= 0; j--\<close>, as recursion on \<open>j + 1\<close>.\<close>

fun raise_flags :: "VersionedStructSize list \<Rightarrow> nat \<Rightarrow> globals \<Rightarrow> globals" where
  "raise_flags table 0 g = g"
| "raise_flags table (Suc j) g = raise_flags table j (set_flag (Flag (table ! j)) True g)"

text \<open>The outer loop, \<open>for i := len(table) - 1; i >= 0; i--\<close>, as recursion on \<open>i + 1\<close>.\<close>

fun adapt_loop :: "VersionedStructSize list \<Rightarrow> VersionInfo \<Rightarrow> nat \<Rightarrow> globals \<Rightarrow> globals" where
  "adapt_loop table v 0 g = g"
| "adapt_loop table v (Suc i) g =
     (if CompareKernelVersion v (Version (table ! i)) \<ge> 0
      then raise_flags table (Suc i) (g\<lparr>sizeOfRawTCPInfo := Size (table ! i)\<rparr>)
      else adapt_loop table v i (set_flag (Flag (table ! i)) False g))"

definition resolve_version :: "goerror + VersionInfo \<Rightarrow> globals \<Rightarrow> VersionInfo" where
  "resolve_version getKernelVersion g = (case linuxKernelVersion g of
     Some v \<Rightarrow> v
   | None \<Rightarrow> (case getKernelVersion of Inl e \<Rightarrow> kversion 2 6 2 | Inr v \<Rightarrow> v))"

definition adaptToKernelVersion :: "goerror + VersionInfo \<Rightarrow> globals \<Rightarrow> globals" where
  "adaptToKernelVersion getKernelVersion g =
     (let v = resolve_version getKernelVersion g
      in adapt_loop tcpInfoSizes v (length tcpInfoSizes) (g\<lparr>linuxKernelVersion := Some v\<rparr>))"

subsection \<open>Facts on the loops\<close>

lemma set_flag_simps [simp]:
  "sizeOfRawTCPInfo (set_flag f b g) = sizeOfRawTCPInfo g"
  "linuxKernelVersion (set_flag f b g) = linuxKernelVersion g"
  "kernelVersionIs (set_flag f b g) = (kernelVersionIs g)(f := b)"
  by (simp_all add: set_flag_def)

lemma raise_flags_frame [simp]:
  "sizeOfRawTCPInfo (raise_flags table n g) = sizeOfRawTCPInfo g"
  "linuxKernelVersion (raise_flags table n g) = linuxKernelVersion g"
  by (induction n arbitrary: g) auto

lemma raise_flags_flag:
  "kernelVersionIs (raise_flags table n g) f \<longleftrightarrow>
     kernelVersionIs g f \<or> (\<exists>j<n. Flag (table ! j) = f)"
  by (induction n arbitrary: g) (auto simp: less_Suc_eq)

lemma adapt_loop_version [simp]:
  "linuxKernelVersion (adapt_loop table v n g) = linuxKernelVersion g"
  by (induction n arbitrary: g) auto

text \<open>The number of table entries a version reaches, counted from the top as the loop does.\<close>

fun reached :: "VersionedStructSize list \<Rightarrow> VersionInfo \<Rightarrow> nat \<Rightarrow> nat" where
  "reached table v 0 = 0"
| "reached table v (Suc i) = (if kv.at_least v (Version (table ! i)) then Suc i else reached table v i)"

lemma reached_le: "reached table v n \<le> n"
  by (induction n) auto

lemma adapt_loop_size:
  "sizeOfRawTCPInfo (adapt_loop table v n g) =
     (if reached table v n = 0 then sizeOfRawTCPInfo g else Size (table ! (reached table v n - 1)))"
  by (induction n arbitrary: g) (auto simp: kv.at_least_def)

lemma adapt_loop_flag:
  "kernelVersionIs (adapt_loop table v n g) f \<longleftrightarrow>
     (\<exists>j < reached table v n. Flag (table ! j) = f)
   \<or> (kernelVersionIs g f \<and> (\<forall>j. reached table v n \<le> j \<and> j < n \<longrightarrow> Flag (table ! j) \<noteq> f))"
proof (induction n arbitrary: g)
  case (Suc n)
  show ?case
  proof (cases "kv.at_least v (Version (table ! n))")
    case True
    then show ?thesis by (auto simp: kv.at_least_def raise_flags_flag less_Suc_eq)
  next
    case False
    with Suc [of "set_flag (Flag (table ! n)) False g"] reached_le [of table v n] show ?thesis
      by (auto simp: kv.at_least_def less_Suc_eq)
  qed
qed simp

text \<open>In a sorted table the entries counted by \<open>reached\<close> are exactly those the version reaches.\<close>

lemma reached_iff:
  assumes "sorted_wrt (\<lambda>x y. kv.at_least y x) (map Version table)" and "n \<le> length table" and "j < n"
  shows "j < reached table v n \<longleftrightarrow> kv.at_least v (Version (table ! j))"
  using assms(2,3)
proof (induction n)
  case (Suc n)
  show ?case
  proof (cases "kv.at_least v (Version (table ! n))")
    case True
    have "kv.at_least v (map Version table ! j)"
      using kv.reached_initial [OF assms(1), of j n v] True Suc.prems by simp
    with True Suc.prems show ?thesis by simp
  next
    case False
    with Suc reached_le [of table v n] show ?thesis by (auto simp: less_Suc_eq)
  qed
qed simp

lemma tcpInfoSizes_length [simp]: "length tcpInfoSizes = 13"
  by (simp add: tcpInfoSizes_def)

lemma tcpInfoSizes_sorted: "sorted_wrt (\<lambda>x y. kv.at_least y x) (map Version tcpInfoSizes)"
  by (simp add: tcpInfoSizes_def kversion_def kv_at_least_iff version_key_def)

lemma all_flags: "\<exists>j < 13. Flag (tcpInfoSizes ! j) = f"
proof -
  have "f \<in> set (map Flag tcpInfoSizes)" by (cases f) (simp_all add: tcpInfoSizes_def)
  then show ?thesis by (auto simp: in_set_conv_nth)
qed

lemma tcpInfoSizes_flag_inj:
  "i < 13 \<Longrightarrow> j < 13 \<Longrightarrow> Flag (tcpInfoSizes ! i) = Flag (tcpInfoSizes ! j) \<longleftrightarrow> i = j"
proof -
  have "distinct (map Flag tcpInfoSizes)" by (simp add: tcpInfoSizes_def)
  then show "i < 13 \<Longrightarrow> j < 13 \<Longrightarrow> Flag (tcpInfoSizes ! i) = Flag (tcpInfoSizes ! j) \<longleftrightarrow> i = j"
    by (auto simp: distinct_conv_nth)
qed

text \<open>The version from which a flag is meant to hold, by the name of its variable.\<close>

fun flag_threshold :: "kflag \<Rightarrow> int \<times> int \<times> int" where
  "flag_threshold AtLeast_2_6_2 = (2, 6, 2)"
| "flag_threshold AtLeast_3_15 = (3, 15, 0)"
| "flag_threshold AtLeast_4_1 = (4, 1, 0)"
| "flag_threshold AtLeast_4_2 = (4, 2, 0)"
| "flag_threshold AtLeast_4_6 = (4, 6, 0)"
| "flag_threshold AtLeast_4_9 = (4, 9, 0)"
| "flag_threshold AtLeast_4_10 = (4, 10, 0)"
| "flag_threshold AtLeast_4_18 = (4, 18, 0)"
| "flag_threshold AtLeast_4_19 = (4, 19, 0)"
| "flag_threshold AtLeast_5_4 = (5, 4, 0)"
| "flag_threshold AtLeast_5_5 = (5, 5, 0)"
| "flag_threshold AtLeast_6_2 = (6, 2, 0)"
| "flag_threshold AtLeast_6_7 = (6, 7, 0)"

lemma flag_threshold_table:
  "j < 13 \<Longrightarrow> version_key (Version (tcpInfoSizes ! j)) = flag_threshold (Flag (tcpInfoSizes ! j))"
proof -
  have "map (\<lambda>e. version_key (Version e)) tcpInfoSizes = map (\<lambda>e. flag_threshold (Flag e)) tcpInfoSizes"
    by (simp add: tcpInfoSizes_def kversion_def version_key_def)
  then show "j < 13 \<Longrightarrow> version_key (Version (tcpInfoSizes ! j)) = flag_threshold (Flag (tcpInfoSizes ! j))"
    by (metis (mono_tags, lifting) length_map nth_map tcpInfoSizes_length)
qed

abbreviation running :: "goerror + VersionInfo \<Rightarrow> globals \<Rightarrow> int \<times> int \<times> int" where
  "running getKernelVersion g \<equiv> version_key (resolve_version getKernelVersion g)"

text \<open>C23: whatever the flags held before, after \<open>adaptToKernelVersion\<close> every flag is true
  exactly when the resolved kernel version is at least the version in the flag's name.\<close>

theorem adapt_flags_exact:
  "kernelVersionIs (adaptToKernelVersion getKernelVersion g) f \<longleftrightarrow>
     flag_threshold f \<le> running getKernelVersion g"
proof -
  let ?v = "resolve_version getKernelVersion g"
  obtain j where j: "j < 13" "Flag (tcpInfoSizes ! j) = f" using all_flags [of f] by blast
  have uniq: "Flag (tcpInfoSizes ! i) = f \<longleftrightarrow> i = j" if "i < 13" for i
    using tcpInfoSizes_flag_inj [OF that j(1)] j(2) by simp
  have le: "reached tcpInfoSizes ?v 13 \<le> 13" by (rule reached_le)
  have "kernelVersionIs (adaptToKernelVersion getKernelVersion g) f \<longleftrightarrow> j < reached tcpInfoSizes ?v 13"
    unfolding adaptToKernelVersion_def Let_def tcpInfoSizes_length adapt_loop_flag
    using uniq le j(1) by (metis less_le_trans not_le)
  also have "\<dots> \<longleftrightarrow> kv.at_least ?v (Version (tcpInfoSizes ! j))"
    using tcpInfoSizes_sorted j(1) by (intro reached_iff) simp_all
  also have "\<dots> \<longleftrightarrow> flag_threshold f \<le> running getKernelVersion g"
    using flag_threshold_table [OF j(1)] j(2) by (simp add: kv_at_least_iff)
  finally show ?thesis .
qed

end
