(* ===== verification/Tcp_Linux_Data.thy ===== *)
theory Tcp_Linux_Data
  imports Tcp_Info
begin

text \<open>
  The records of \<open>pkg/tcpinfo/tcpinfo_linux.go\<close>: the kernel's \<open>tcp_info\<close> as the Go struct
  \<open>RawTCPInfo\<close> lays it out, and its unpacked form \<open>SysInfo\<close>. The fields of \<open>RawTCPInfo\<close> carry
  the kernel's names, which the source gives beside each of them.

  \<open>raw_view\<close> reads the struct out of the buffer the kernel fills: every field at its natural
  alignment, which leaves no padding, in the little-endian byte order of amd64 and arm64.
\<close>

subsection \<open>The kernel's struct\<close>

record RawTCPInfo =
  tcpi_state :: uint8
  tcpi_ca_state :: uint8
  tcpi_retransmits :: uint8
  tcpi_probes :: uint8
  tcpi_backoff :: uint8
  tcpi_options :: uint8
  tcpi_bitfield0 :: uint8
  tcpi_bitfield1 :: uint8
  tcpi_rto :: uint32
  tcpi_ato :: uint32
  tcpi_snd_mss :: uint32
  tcpi_rcv_mss :: uint32
  tcpi_unacked :: uint32
  tcpi_sacked :: uint32
  tcpi_lost :: uint32
  tcpi_retrans :: uint32
  tcpi_fackets :: uint32
  tcpi_last_data_sent :: uint32
  tcpi_last_ack_sent :: uint32
  tcpi_last_data_recv :: uint32
  tcpi_last_ack_recv :: uint32
  tcpi_pmtu :: uint32
  tcpi_rcv_ssthresh :: uint32
  tcpi_rtt :: uint32
  tcpi_rttvar :: uint32
  tcpi_snd_ssthresh :: uint32
  tcpi_snd_cwnd :: uint32
  tcpi_advmss :: uint32
  tcpi_reordering :: uint32
  tcpi_rcv_rtt :: uint32
  tcpi_rcv_space :: uint32
  tcpi_total_retrans :: uint32
  tcpi_pacing_rate :: uint64
  tcpi_max_pacing_rate :: uint64
  tcpi_bytes_acked :: uint64
  tcpi_bytes_received :: uint64
  tcpi_segs_out :: uint32
  tcpi_segs_in :: uint32
  tcpi_notsent_bytes :: uint32
  tcpi_min_rtt :: uint32
  tcpi_data_segs_in :: uint32
  tcpi_data_segs_out :: uint32
  tcpi_delivery_rate :: uint64
  tcpi_busy_time :: uint64
  tcpi_rwnd_limited :: uint64
  tcpi_sndbuf_limited :: uint64
  tcpi_delivered :: uint32
  tcpi_delivered_ce :: uint32
  tcpi_bytes_sent :: uint64
  tcpi_bytes_retrans :: uint64
  tcpi_dsack_dups :: uint32
  tcpi_reord_seen :: uint32
  tcpi_rcv_ooopack :: uint32
  tcpi_snd_wnd :: uint32
  tcpi_rcv_wnd :: uint32
  tcpi_rehash :: uint32
  tcpi_total_rto :: uint16
  tcpi_total_rto_recoveries :: uint16
  tcpi_total_rto_time :: uint32


text \<open>Reading \<open>n\<close> bytes at an offset; bytes past the end of the buffer would read as absent.\<close>

fun le_nat :: "uint8 list \<Rightarrow> nat" where
  "le_nat [] = 0"
| "le_nat (b # bs) = unat b + 256 * le_nat bs"

definition mem :: "nat \<Rightarrow> nat \<Rightarrow> uint8 list \<Rightarrow> 'a::len word" where
  "mem off n buf = of_nat (le_nat (take n (drop off buf)))"

definition raw_view :: "uint8 list \<Rightarrow> RawTCPInfo" where
  "raw_view buf = \<lparr>
     tcpi_state = mem 0 1 buf, tcpi_ca_state = mem 1 1 buf, tcpi_retransmits = mem 2 1 buf,
     tcpi_probes = mem 3 1 buf, tcpi_backoff = mem 4 1 buf, tcpi_options = mem 5 1 buf,
     tcpi_bitfield0 = mem 6 1 buf, tcpi_bitfield1 = mem 7 1 buf, tcpi_rto = mem 8 4 buf,
     tcpi_ato = mem 12 4 buf, tcpi_snd_mss = mem 16 4 buf, tcpi_rcv_mss = mem 20 4 buf,
     tcpi_unacked = mem 24 4 buf, tcpi_sacked = mem 28 4 buf, tcpi_lost = mem 32 4 buf,
     tcpi_retrans = mem 36 4 buf, tcpi_fackets = mem 40 4 buf, tcpi_last_data_sent = mem 44 4 buf,
     tcpi_last_ack_sent = mem 48 4 buf, tcpi_last_data_recv = mem 52 4 buf,
     tcpi_last_ack_recv = mem 56 4 buf, tcpi_pmtu = mem 60 4 buf,
     tcpi_rcv_ssthresh = mem 64 4 buf, tcpi_rtt = mem 68 4 buf, tcpi_rttvar = mem 72 4 buf,
     tcpi_snd_ssthresh = mem 76 4 buf, tcpi_snd_cwnd = mem 80 4 buf, tcpi_advmss = mem 84 4 buf,
     tcpi_reordering = mem 88 4 buf, tcpi_rcv_rtt = mem 92 4 buf, tcpi_rcv_space = mem 96 4 buf,
     tcpi_total_retrans = mem 100 4 buf, tcpi_pacing_rate = mem 104 8 buf,
     tcpi_max_pacing_rate = mem 112 8 buf, tcpi_bytes_acked = mem 120 8 buf,
     tcpi_bytes_received = mem 128 8 buf, tcpi_segs_out = mem 136 4 buf,
     tcpi_segs_in = mem 140 4 buf, tcpi_notsent_bytes = mem 144 4 buf,
     tcpi_min_rtt = mem 148 4 buf, tcpi_data_segs_in = mem 152 4 buf,
     tcpi_data_segs_out = mem 156 4 buf, tcpi_delivery_rate = mem 160 8 buf,
     tcpi_busy_time = mem 168 8 buf, tcpi_rwnd_limited = mem 176 8 buf,
     tcpi_sndbuf_limited = mem 184 8 buf, tcpi_delivered = mem 192 4 buf,
     tcpi_delivered_ce = mem 196 4 buf, tcpi_bytes_sent = mem 200 8 buf,
     tcpi_bytes_retrans = mem 208 8 buf, tcpi_dsack_dups = mem 216 4 buf,
     tcpi_reord_seen = mem 220 4 buf, tcpi_rcv_ooopack = mem 224 4 buf,
     tcpi_snd_wnd = mem 228 4 buf, tcpi_rcv_wnd = mem 232 4 buf, tcpi_rehash = mem 236 4 buf,
     tcpi_total_rto = mem 240 2 buf, tcpi_total_rto_recoveries = mem 242 2 buf,
     tcpi_total_rto_time = mem 244 4 buf\<rparr>"

subsection \<open>Nullable fields\<close>

record 'a Nullable =
  Valid :: bool
  Value :: 'a

text \<open>
  \<open>X = Nullable{Valid: false}\<close>, then \<open>if flag { X.Valid = true; X.Value = v }\<close>; the value of an
  invalid field is the zero value of its type.
\<close>

definition null :: "'a \<Rightarrow> 'a Nullable" where
  "null z = \<lparr>Valid = False, Value = z\<rparr>"

definition valid :: "'a \<Rightarrow> 'a Nullable" where
  "valid v = \<lparr>Valid = True, Value = v\<rparr>"

definition nullable :: "'a \<Rightarrow> bool \<Rightarrow> 'a \<Rightarrow> 'a Nullable" where
  "nullable z flag v = (if flag then valid v else null z)"

lemma nullable_simps [simp]:
  "Valid (nullable z b v) = b"
  "Value (nullable z b v) = (if b then v else z)"
  "Valid (null z) = False" "Value (null z) = z"
  "Valid (valid v) = True" "Value (valid v) = v"
  by (simp_all add: nullable_def null_def valid_def)

subsection \<open>The unpacked record\<close>

record SysInfo =
  State :: uint8
  StateName :: string
  CAState :: uint8
  Retransmits :: uint8
  Probes :: uint8
  Backoff :: uint8
  TxOptions :: "Option slice"
  RxOptions :: "Option slice"
  TxWindowScale :: uint8
  RxWindowScale :: uint8
  DeliveryRateAppLimited :: "bool Nullable"
  FastOpenClientFail :: "uint8 Nullable"
  RTO :: duration
  ATO :: duration
  TxMSS :: uint32
  RxMSS :: uint32
  UnAcked :: uint32
  Sacked :: uint32
  Lost :: uint32
  Retrans :: uint32
  Fackets :: uint32
  LastTxAt :: duration
  LastTxAckAt :: duration
  LastRxAt :: duration
  LastRxAckAt :: duration
  PMTU :: uint32
  RxSSThreshold :: uint32
  RTT :: duration
  RTTVar :: duration
  TxSSThreshold :: uint32
  TxCWindow :: uint32
  AdvMSS :: uint32
  Reordering :: uint32
  RxRTT :: duration
  RxSpace :: uint32
  TotalRetrans :: uint32
  PacingRate :: "uint64 Nullable"
  MaxPacingRate :: "uint64 Nullable"
  BytesAcked :: "uint64 Nullable"
  BytesReceived :: "uint64 Nullable"
  SegsOut :: "uint32 Nullable"
  SegsIn :: "uint32 Nullable"
  NotSentBytes :: "uint32 Nullable"
  MinRTT :: "duration Nullable"
  DataSegsIn :: "uint32 Nullable"
  DataSegsOut :: "uint32 Nullable"
  DeliveryRate :: "uint64 Nullable"
  BusyTime :: "uint64 Nullable"
  RxWindowLimited :: "uint64 Nullable"
  TxBufferLimited :: "uint64 Nullable"
  Delivered :: "uint32 Nullable"
  DeliveredCE :: "uint32 Nullable"
  BytesSent :: "uint64 Nullable"
  BytesRetrans :: "uint64 Nullable"
  DSACKDups :: "uint32 Nullable"
  ReordSeen :: "uint32 Nullable"
  RxOutOfOrder :: "uint32 Nullable"
  TxWindow :: "uint32 Nullable"
  RxWindow :: "uint32 Nullable"
  Rehash :: "uint32 Nullable"
  TotalRTO :: "uint16 Nullable"
  TotalRTORecoveries :: "uint16 Nullable"
  TotalRTOTime :: "uint32 Nullable"
  CCAlgorithm :: string
  CCVegasEnabled :: "uint32 Nullable"
  CCVegasRTTCnt :: "uint32 Nullable"
  CCVegasRTT :: "duration Nullable"
  CCVegasRTTMin :: "duration Nullable"
  CCBBRBwLo :: "uint32 Nullable"
  CCBBRBwHi :: "uint32 Nullable"
  CCBBRMinRTT :: "duration Nullable"
  CCBBRPacingGain :: "uint32 Nullable"
  CCBBRCWindowGain :: "uint32 Nullable"
  CCDCTCPEnabled :: "bool Nullable"
  CCDCTCPCEState :: "uint16 Nullable"
  CCDCTCPAlpha :: "uint32 Nullable"
  CCDCTCPABECN :: "uint32 Nullable"
  CCDCTCPABTOT :: "uint32 Nullable"

definition SysInfo_zero :: SysInfo where
  "SysInfo_zero = \<lparr>
     State = 0, StateName = '''', CAState = 0, Retransmits = 0, Probes = 0, Backoff = 0,
     TxOptions = None, RxOptions = None, TxWindowScale = 0, RxWindowScale = 0,
     DeliveryRateAppLimited = null False, FastOpenClientFail = null 0, RTO = 0, ATO = 0,
     TxMSS = 0, RxMSS = 0, UnAcked = 0, Sacked = 0, Lost = 0, Retrans = 0, Fackets = 0,
     LastTxAt = 0, LastTxAckAt = 0, LastRxAt = 0, LastRxAckAt = 0, PMTU = 0, RxSSThreshold = 0,
     RTT = 0, RTTVar = 0, TxSSThreshold = 0, TxCWindow = 0, AdvMSS = 0, Reordering = 0, RxRTT = 0,
     RxSpace = 0, TotalRetrans = 0, PacingRate = null 0, MaxPacingRate = null 0,
     BytesAcked = null 0, BytesReceived = null 0, SegsOut = null 0, SegsIn = null 0,
     NotSentBytes = null 0, MinRTT = null 0, DataSegsIn = null 0, DataSegsOut = null 0,
     DeliveryRate = null 0, BusyTime = null 0, RxWindowLimited = null 0, TxBufferLimited = null 0,
     Delivered = null 0, DeliveredCE = null 0, BytesSent = null 0, BytesRetrans = null 0,
     DSACKDups = null 0, ReordSeen = null 0, RxOutOfOrder = null 0, TxWindow = null 0,
     RxWindow = null 0, Rehash = null 0, TotalRTO = null 0, TotalRTORecoveries = null 0,
     TotalRTOTime = null 0, CCAlgorithm = '''', CCVegasEnabled = null 0, CCVegasRTTCnt = null 0,
     CCVegasRTT = null 0, CCVegasRTTMin = null 0, CCBBRBwLo = null 0, CCBBRBwHi = null 0,
     CCBBRMinRTT = null 0, CCBBRPacingGain = null 0, CCBBRCWindowGain = null 0,
     CCDCTCPEnabled = null False, CCDCTCPCEState = null 0, CCDCTCPAlpha = null 0,
     CCDCTCPABECN = null 0, CCDCTCPABTOT = null 0\<rparr>"

end
