(* ===== verification/Tcp_Info_Heap.thy ===== *)
theory Tcp_Info_Heap
  imports Tcp_Info
begin

text \<open>
  \<open>Info\<close>, the platform record and their option lists as objects in memory. In Go all three are
  reached through references: \<open>ToInfo\<close> returns an \<open>Info\<close> that shares the arrays of the platform record
  and points to it, and \<open>Clone\<close> copies what it reaches. Here the copying is modelled with its
  allocations, to show what the definitions on values cannot say: a snapshot shares no memory with the
  wrapper it was taken from.

  A store maps addresses to arrays of options, platform records and \<open>Info\<close> structs. A slice is nil or
  the address of the array it spans. The fields of a struct that are references are kept apart from the
  others; in the part with the others they are nil.
\<close>

subsection \<open>The store\<close>

type_synonym addr = nat

record 's sys_cell =
  sc_fields :: 's
  sc_TxOptions :: "addr option"
  sc_RxOptions :: "addr option"

record 's info_cell =
  ic_fields :: "'s Info"
  ic_TxOptions :: "addr option"
  ic_RxOptions :: "addr option"
  ic_Sys :: "addr option"

record 's store =
  arrays :: "addr \<rightharpoonup> Option list"
  sysinfos :: "addr \<rightharpoonup> 's sys_cell"
  infos :: "addr \<rightharpoonup> 's info_cell"
  next_addr :: addr

text \<open>How a platform record holds its options: reading the two lists, and replacing them.\<close>

record 's layout =
  lay_Tx :: "'s \<Rightarrow> Option slice"
  lay_Rx :: "'s \<Rightarrow> Option slice"
  lay_with :: "Option slice \<Rightarrow> Option slice \<Rightarrow> 's \<Rightarrow> 's"

definition load_slice :: "'s store \<Rightarrow> addr option \<Rightarrow> Option slice" where
  "load_slice st r = (case r of None \<Rightarrow> None | Some a \<Rightarrow> Some (case arrays st a of None \<Rightarrow> [] | Some xs \<Rightarrow> xs))"

text \<open>The values that references stand for; \<^const>\<open>None\<close> for nil.\<close>

definition load_sys :: "'s layout \<Rightarrow> 's store \<Rightarrow> addr option \<Rightarrow> 's option" where
  "load_sys lay st p = (case p of None \<Rightarrow> None | Some a \<Rightarrow>
     map_option (\<lambda>c. lay_with lay (load_slice st (sc_TxOptions c)) (load_slice st (sc_RxOptions c)) (sc_fields c))
       (sysinfos st a))"

definition load_info :: "'s layout \<Rightarrow> 's store \<Rightarrow> addr option \<Rightarrow> 's Info option" where
  "load_info lay st p = (case p of None \<Rightarrow> None | Some a \<Rightarrow>
     map_option (\<lambda>c. (ic_fields c)\<lparr>Info_TxOptions := load_slice st (ic_TxOptions c),
         Info_RxOptions := load_slice st (ic_RxOptions c), Info_Sys := load_sys lay st (ic_Sys c)\<rparr>)
       (infos st a))"

subsection \<open>Operations\<close>

definition new_array :: "Option list \<Rightarrow> 's store \<Rightarrow> addr \<times> 's store" where
  "new_array xs st = (next_addr st, st\<lparr>arrays := (arrays st)(next_addr st \<mapsto> xs), next_addr := Suc (next_addr st)\<rparr>)"

definition new_sys :: "'s sys_cell \<Rightarrow> 's store \<Rightarrow> addr \<times> 's store" where
  "new_sys c st = (next_addr st, st\<lparr>sysinfos := (sysinfos st)(next_addr st \<mapsto> c), next_addr := Suc (next_addr st)\<rparr>)"

definition new_info :: "'s info_cell \<Rightarrow> 's store \<Rightarrow> addr \<times> 's store" where
  "new_info c st = (next_addr st, st\<lparr>infos := (infos st)(next_addr st \<mapsto> c), next_addr := Suc (next_addr st)\<rparr>)"

text \<open>\<open>append([]Option(nil), options...)\<close> allocates unless there is nothing to append.\<close>

definition heap_cloneOptions :: "addr option \<Rightarrow> 's store \<Rightarrow> addr option \<times> 's store" where
  "heap_cloneOptions options st =
     (case load_slice st options of
        None \<Rightarrow> (None, st)
      | Some xs \<Rightarrow> if xs = [] then (None, st) else let (a, st) = new_array xs st in (Some a, st))"

definition heap_SysInfo_Clone :: "addr option \<Rightarrow> 's store \<Rightarrow> addr option \<times> 's store" where
  "heap_SysInfo_Clone s st =
     (case Option.bind s (sysinfos st) of
        None \<Rightarrow> (None, st)
      | Some c \<Rightarrow>
          let (tx, st) = heap_cloneOptions (sc_TxOptions c) st;
              (rx, st) = heap_cloneOptions (sc_RxOptions c) st;
              (a, st) = new_sys (c\<lparr>sc_TxOptions := tx, sc_RxOptions := rx\<rparr>) st
          in (Some a, st))"

definition heap_Info_Clone :: "addr option \<Rightarrow> 's store \<Rightarrow> addr option \<times> 's store" where
  "heap_Info_Clone i st =
     (case Option.bind i (infos st) of
        None \<Rightarrow> (None, st)
      | Some c \<Rightarrow>
          let (tx, st) = heap_cloneOptions (ic_TxOptions c) st;
              (rx, st) = heap_cloneOptions (ic_RxOptions c) st;
              (sys, st) = heap_SysInfo_Clone (ic_Sys c) st;
              (a, st) = new_info (c\<lparr>ic_TxOptions := tx, ic_RxOptions := rx, ic_Sys := sys\<rparr>) st
          in (Some a, st))"

text \<open>\<open>ToInfo\<close> on Linux and macOS: the scalar fields as on values, the references shared.\<close>

definition heap_ToInfo :: "('s \<Rightarrow> 's Info) \<Rightarrow> addr \<Rightarrow> 's store \<Rightarrow> addr option \<times> 's store" where
  "heap_ToInfo toInfo s st =
     (case sysinfos st s of
        None \<Rightarrow> (None, st)
      | Some c \<Rightarrow>
          let fields = (toInfo (sc_fields c))\<lparr>Info_TxOptions := None, Info_RxOptions := None, Info_Sys := None\<rparr>;
              (a, st) = new_info \<lparr>ic_fields = fields, ic_TxOptions = sc_TxOptions c, ic_RxOptions = sc_RxOptions c,
                                  ic_Sys = Some s\<rparr> st
          in (Some a, st))"

text \<open>The two copies that a snapshot of the wrapper makes.\<close>

definition heap_snapshot :: "addr option \<Rightarrow> addr option \<Rightarrow> 's store \<Rightarrow> (addr option \<times> addr option) \<times> 's store" where
  "heap_snapshot openedInfo closedInfo st =
     (let (o', st) = heap_Info_Clone openedInfo st;
          (c', st) = heap_Info_Clone closedInfo st
      in ((o', c'), st))"

subsection \<open>Memory reached, and what an operation leaves alone\<close>

definition sys_reach :: "'s store \<Rightarrow> addr option \<Rightarrow> addr set" where
  "sys_reach st p = (case p of None \<Rightarrow> {} | Some a \<Rightarrow> insert a
     (case sysinfos st a of None \<Rightarrow> {} | Some c \<Rightarrow> set_option (sc_TxOptions c) \<union> set_option (sc_RxOptions c)))"

definition info_reach :: "'s store \<Rightarrow> addr option \<Rightarrow> addr set" where
  "info_reach st p = (case p of None \<Rightarrow> {} | Some a \<Rightarrow> insert a
     (case infos st a of None \<Rightarrow> {}
      | Some c \<Rightarrow> set_option (ic_TxOptions c) \<union> set_option (ic_RxOptions c) \<union> sys_reach st (ic_Sys c)))"

text \<open>Two stores that hold the same objects at some addresses, and a store extended by allocation.\<close>

definition same_at :: "addr set \<Rightarrow> 's store \<Rightarrow> 's store \<Rightarrow> bool" where
  "same_at A st st' \<longleftrightarrow> (\<forall>a\<in>A. arrays st' a = arrays st a \<and> sysinfos st' a = sysinfos st a \<and> infos st' a = infos st a)"

definition extended :: "'s store \<Rightarrow> 's store \<Rightarrow> bool" where
  "extended st st' \<longleftrightarrow> next_addr st \<le> next_addr st' \<and> same_at {..<next_addr st} st st'"

text \<open>All memory that an \<open>Info\<close> reaches is allocated.\<close>

definition allocated :: "'s store \<Rightarrow> addr option \<Rightarrow> bool" where
  "allocated st p \<longleftrightarrow> info_reach st p \<subseteq> {..<next_addr st}"

text \<open>
  What the platform record owes: the lists read are the ones put in, \<open>Clone\<close> copies the lists and
  nothing else, and \<open>ToInfo\<close> takes the lists and the record as they are.
\<close>

locale sys_layout =
  fixes lay :: "'s layout" and clone :: "'s \<Rightarrow> 's" and toInfo :: "'s \<Rightarrow> 's Info"
  assumes Tx_with [simp]: "lay_Tx lay (lay_with lay tx rx s) = tx"
    and Rx_with [simp]: "lay_Rx lay (lay_with lay tx rx s) = rx"
    and with_with [simp]: "lay_with lay tx rx (lay_with lay tx' rx' s) = lay_with lay tx rx s"
    and with_id [simp]: "lay_with lay (lay_Tx lay s) (lay_Rx lay s) s = s"
    and clone_with: "clone s = lay_with lay (cloneOptions (lay_Tx lay s)) (cloneOptions (lay_Rx lay s)) s"
    and toInfo_with: "toInfo s = (toInfo (lay_with lay tx rx s))\<lparr>Info_TxOptions := lay_Tx lay s,
      Info_RxOptions := lay_Rx lay s, Info_Sys := Some s\<rparr>"
begin

lemma clone_of_with: "clone (lay_with lay tx rx s) = lay_with lay (cloneOptions tx) (cloneOptions rx) s"
  by (simp add: clone_with)

end

subsection \<open>Extension and locality\<close>

lemma same_at_refl [simp]: "same_at A st st"
  by (simp add: same_at_def)

lemma same_at_mono: "same_at A st st' \<Longrightarrow> B \<subseteq> A \<Longrightarrow> same_at B st st'"
  by (auto simp: same_at_def)

lemma extended_refl [simp]: "extended st st"
  by (simp add: extended_def)

lemma extended_trans: "extended st st' \<Longrightarrow> extended st' st'' \<Longrightarrow> extended st st''"
  by (auto simp: extended_def same_at_def)

lemma extended_new:
  "extended st (snd (new_array xs st))" "extended st (snd (new_sys c st))" "extended st (snd (new_info i st))"
  by (simp_all add: new_array_def new_sys_def new_info_def extended_def same_at_def)

lemma load_slice_same: "same_at (set_option r) st st' \<Longrightarrow> load_slice st' r = load_slice st r"
  by (cases r) (auto simp: load_slice_def same_at_def)

lemma sys_same:
  assumes "same_at (sys_reach st p) st st'"
  shows "load_sys lay st' p = load_sys lay st p" "sys_reach st' p = sys_reach st p"
proof -
  show "sys_reach st' p = sys_reach st p"
    using assms by (auto simp: sys_reach_def same_at_def split: option.splits)
  show "load_sys lay st' p = load_sys lay st p"
  proof (cases p)
    case (Some a)
    then have at: "sysinfos st' a = sysinfos st a" using assms by (simp add: sys_reach_def same_at_def)
    show ?thesis
    proof (cases "sysinfos st a")
      case (Some c)
      then have "same_at (set_option (sc_TxOptions c)) st st'" "same_at (set_option (sc_RxOptions c)) st st'"
        using assms \<open>p = Some a\<close> by (auto simp: sys_reach_def same_at_def)
      then show ?thesis using Some at \<open>p = Some a\<close> by (simp add: load_sys_def load_slice_same)
    qed (simp add: load_sys_def at \<open>p = Some a\<close>)
  qed (simp add: load_sys_def)
qed

text \<open>An \<open>Info\<close> depends only on the memory it reaches.\<close>

lemma info_same:
  assumes "same_at (info_reach st p) st st'"
  shows "load_info lay st' p = load_info lay st p" "info_reach st' p = info_reach st p"
proof -
  have "load_info lay st' p = load_info lay st p \<and> info_reach st' p = info_reach st p"
  proof (cases p)
    case (Some a)
    then have at: "infos st' a = infos st a" using assms by (simp add: info_reach_def same_at_def)
    show ?thesis
    proof (cases "infos st a")
      case (Some c)
      then have "same_at (set_option (ic_TxOptions c)) st st'" "same_at (set_option (ic_RxOptions c)) st st'"
        "same_at (sys_reach st (ic_Sys c)) st st'"
        using assms \<open>p = Some a\<close> by (auto simp: info_reach_def same_at_def)
      then show ?thesis
        using Some at \<open>p = Some a\<close> by (simp add: load_info_def info_reach_def load_slice_same sys_same)
    qed (simp add: load_info_def info_reach_def at \<open>p = Some a\<close>)
  qed (simp add: load_info_def info_reach_def)
  then show "load_info lay st' p = load_info lay st p" "info_reach st' p = info_reach st p" by simp_all
qed

lemma extended_info:
  assumes "extended st st'" "allocated st p"
  shows "load_info lay st' p = load_info lay st p" "info_reach st' p = info_reach st p" "allocated st' p"
proof -
  have "same_at (info_reach st p) st st'"
    using assms by (auto simp: extended_def allocated_def elim: same_at_mono)
  then show "load_info lay st' p = load_info lay st p" and reach: "info_reach st' p = info_reach st p"
    by (rule info_same)+
  show "allocated st' p" using assms unfolding allocated_def reach extended_def by auto
qed

subsection \<open>Copies\<close>

lemma heap_cloneOptions_spec:
  assumes "heap_cloneOptions r st = (r', st')"
  shows "extended st st'" "load_slice st' r' = cloneOptions (load_slice st r)"
    "set_option r' \<subseteq> {next_addr st..<next_addr st'}"
  using assms extended_new(1) [of st]
  by (auto simp: heap_cloneOptions_def new_array_def load_slice_def cloneOptions_def sappend_def
      split: option.splits if_splits)

text \<open>Loading through a later store gives the same slice.\<close>

lemma load_slice_extended: "extended st st' \<Longrightarrow> set_option r \<subseteq> {..<next_addr st} \<Longrightarrow> load_slice st' r = load_slice st r"
  by (rule load_slice_same) (auto simp: extended_def elim: same_at_mono)

lemma extended_next: "extended st st' \<Longrightarrow> next_addr st \<le> next_addr st'"
  by (simp add: extended_def)

text \<open>Both lists of a record copied, one after the other.\<close>

lemma heap_clone_both:
  assumes "heap_cloneOptions t st = (tx, st1)" "heap_cloneOptions r st1 = (rx, st2)"
    and "set_option t \<subseteq> {..<next_addr st}" "set_option r \<subseteq> {..<next_addr st}"
  shows "extended st st2" "load_slice st2 tx = cloneOptions (load_slice st t)" "load_slice st2 rx = cloneOptions (load_slice st r)"
    "set_option tx \<union> set_option rx \<subseteq> {next_addr st..<next_addr st2}"
proof -
  note tx = heap_cloneOptions_spec [OF assms(1)] and rx = heap_cloneOptions_spec [OF assms(2)]
  show "extended st st2" by (rule extended_trans [OF tx(1) rx(1)])
  show "load_slice st2 tx = cloneOptions (load_slice st t)"
    using tx(2,3) load_slice_extended [OF rx(1), of tx] by (auto simp: subset_iff)
  show "load_slice st2 rx = cloneOptions (load_slice st r)"
    using rx(2) load_slice_extended [OF tx(1) assms(4)] by simp
  show "set_option tx \<union> set_option rx \<subseteq> {next_addr st..<next_addr st2}"
    using tx(3) rx(3) extended_next [OF tx(1)] extended_next [OF rx(1)] by fastforce
qed

lemma load_slice_later:
  assumes "extended st st'" "set_option tx \<union> set_option rx \<subseteq> {n..<next_addr st}"
  shows "load_slice st' tx = load_slice st tx" "load_slice st' rx = load_slice st rx"
  using assms(2) by (auto intro!: load_slice_extended [OF assms(1)] simp: subset_iff)

context sys_layout
begin

lemma heap_SysInfo_Clone_spec:
  assumes "heap_SysInfo_Clone p st = (p', st')" "sys_reach st p \<subseteq> {..<next_addr st}"
  shows "extended st st' \<and> load_sys lay st' p' = map_option clone (load_sys lay st p)
       \<and> sys_reach st' p' \<subseteq> {next_addr st..<next_addr st'}"
proof (cases "Option.bind p (sysinfos st)")
  case None
  then show ?thesis
    using assms(1) by (auto simp: heap_SysInfo_Clone_def load_sys_def sys_reach_def split: option.splits bind_splits)
next
  case (Some c)
  then obtain a where a: "p = Some a" "sysinfos st a = Some c" by (auto split: bind_splits)
  obtain tx st1 where tx: "heap_cloneOptions (sc_TxOptions c) st = (tx, st1)" by fastforce
  obtain rx st2 where rx: "heap_cloneOptions (sc_RxOptions c) st1 = (rx, st2)" by fastforce
  let ?c = "c\<lparr>sc_TxOptions := tx, sc_RxOptions := rx\<rparr>"
  have p': "p' = Some (next_addr st2)" and st': "st' = snd (new_sys ?c st2)"
    using assms(1) Some tx rx by (simp_all add: heap_SysInfo_Clone_def new_sys_def)
  have "set_option (sc_TxOptions c) \<subseteq> {..<next_addr st}" "set_option (sc_RxOptions c) \<subseteq> {..<next_addr st}"
    using assms(2) a by (auto simp: sys_reach_def)
  note both = heap_clone_both [OF tx rx this]
  have e: "extended st2 st'" using extended_new(2) [of st2 ?c] st' by simp
  have new: "sysinfos st' (next_addr st2) = Some ?c" "next_addr st' = Suc (next_addr st2)"
    using st' by (simp_all add: new_sys_def)
  have "load_sys lay st' p' = map_option clone (load_sys lay st p)"
    using a p' new(1) both(2,3) load_slice_later [OF e both(4)] by (simp add: load_sys_def clone_of_with)
  moreover have "sys_reach st' p' \<subseteq> {next_addr st..<next_addr st'}"
    using p' new both(4) extended_next [OF both(1)] by (auto simp: sys_reach_def subset_iff)
  ultimately show ?thesis using extended_trans [OF both(1) e] by blast
qed

text \<open>A copy loads as the copy of the value, and reaches only memory allocated for it.\<close>

lemma heap_Info_Clone_cell:
  assumes "heap_Info_Clone (Some a) st = (p', st')" "allocated st (Some a)" "infos st a = Some c"
  shows "extended st st' \<and> load_info lay st' p' = Info_Clone clone (load_info lay st (Some a))
      \<and> info_reach st' p' \<subseteq> {next_addr st..<next_addr st'}"
proof -
  obtain tx st1 where tx: "heap_cloneOptions (ic_TxOptions c) st = (tx, st1)" by fastforce
  obtain rx st2 where rx: "heap_cloneOptions (ic_RxOptions c) st1 = (rx, st2)" by fastforce
  obtain sys st3 where sys: "heap_SysInfo_Clone (ic_Sys c) st2 = (sys, st3)" by fastforce
  let ?c = "c\<lparr>ic_TxOptions := tx, ic_RxOptions := rx, ic_Sys := sys\<rparr>"
  have p': "p' = Some (next_addr st3)" and st': "st' = snd (new_info ?c st3)"
    using assms(1,3) tx rx sys by (simp_all add: heap_Info_Clone_def new_info_def)
  have reach: "set_option (ic_TxOptions c) \<subseteq> {..<next_addr st}" "set_option (ic_RxOptions c) \<subseteq> {..<next_addr st}"
    "sys_reach st (ic_Sys c) \<subseteq> {..<next_addr st}"
    using assms(2,3) by (auto simp: allocated_def info_reach_def)
  note both = heap_clone_both [OF tx rx reach(1,2)]
  have same2: "same_at (sys_reach st (ic_Sys c)) st st2"
    using both(1) reach(3) by (auto simp: extended_def elim: same_at_mono)
  have "sys_reach st2 (ic_Sys c) \<subseteq> {..<next_addr st2}"
    unfolding sys_same(2) [OF same2] using reach(3) extended_next [OF both(1)] by auto
  from heap_SysInfo_Clone_spec [OF sys this]
  have sys': "extended st2 st3" "load_sys lay st3 sys = map_option clone (load_sys lay st (ic_Sys c))"
    "sys_reach st3 sys \<subseteq> {next_addr st2..<next_addr st3}"
    by (simp_all add: sys_same(1) [OF same2])
  have e: "extended st3 st'" "extended st2 st'"
    using st' extended_new(3) [of st3 ?c] sys'(1) extended_trans by blast+
  have same3: "same_at (sys_reach st3 sys) st3 st'"
    using e(1) sys'(3) by (auto simp: extended_def elim!: same_at_mono)
  have new: "infos st' (next_addr st3) = Some ?c" "next_addr st' = Suc (next_addr st3)"
    using st' by (simp_all add: new_info_def)
  have "load_info lay st' p' = Info_Clone clone (load_info lay st (Some a))"
    using assms(3) p' new(1) sys'(2) sys_same(1) [OF same3] both(2,3) load_slice_later [OF e(2) both(4)]
    by (simp add: load_info_def Info_Clone_def)
  moreover have "info_reach st' p' = insert (next_addr st3) (set_option tx \<union> set_option rx \<union> sys_reach st3 sys)"
    using p' new(1) sys_same(2) [OF same3] by (simp add: info_reach_def)
  moreover have "insert (next_addr st3) (set_option tx \<union> set_option rx \<union> sys_reach st3 sys) \<subseteq> {next_addr st..<next_addr st'}"
    using both(4) sys'(3) extended_next [OF both(1)] extended_next [OF sys'(1)] new(2) by fastforce
  ultimately show ?thesis using extended_trans [OF both(1) e(2)] by simp
qed

lemma heap_Info_Clone_spec:
  assumes "heap_Info_Clone p st = (p', st')" "allocated st p"
  shows "extended st st'" "load_info lay st' p' = Info_Clone clone (load_info lay st p)"
    "info_reach st' p' \<subseteq> {next_addr st..<next_addr st'}"
proof -
  have "extended st st' \<and> load_info lay st' p' = Info_Clone clone (load_info lay st p)
      \<and> info_reach st' p' \<subseteq> {next_addr st..<next_addr st'}"
  proof (cases "Option.bind p (infos st)")
    case None
    then show ?thesis
      using assms(1) by (auto simp: heap_Info_Clone_def load_info_def info_reach_def Info_Clone_def split: option.splits bind_splits)
  next
    case (Some c)
    then show ?thesis using heap_Info_Clone_cell [of _ st p' st' c] assms by (auto split: bind_splits)
  qed
  then show "extended st st'" "load_info lay st' p' = Info_Clone clone (load_info lay st p)"
    "info_reach st' p' \<subseteq> {next_addr st..<next_addr st'}" by simp_all
qed

text \<open>Stores that agree but for memory of the copies, or that was not allocated: the original is as before.
  Stores that agree but for memory of the original: the copies are as before.\<close>

lemma heap_snapshot_detached:
  assumes "heap_snapshot p q st = ((p', q'), st')" "allocated st p" "allocated st q"
  shows "load_info lay st' p' = Info_Clone clone (load_info lay st p)"
    "load_info lay st' q' = Info_Clone clone (load_info lay st q)"
    "same_at (- (info_reach st' p' \<union> info_reach st' q' \<union> {next_addr st'..})) st' later \<Longrightarrow>
       load_info lay later p = load_info lay st p \<and> load_info lay later q = load_info lay st q"
    "same_at (- (info_reach st p \<union> info_reach st q \<union> {next_addr st'..})) st' later \<Longrightarrow>
       load_info lay later p' = load_info lay st' p' \<and> load_info lay later q' = load_info lay st' q'"
proof -
  obtain st1 where 1: "heap_Info_Clone p st = (p', st1)" "heap_Info_Clone q st1 = (q', st')"
    using assms(1) by (auto simp: heap_snapshot_def Let_def split: prod.splits)
  note pspec = heap_Info_Clone_spec [OF 1(1) assms(2)]
  have q1: "allocated st1 q" "load_info lay st1 q = load_info lay st q"
    using extended_info [OF pspec(1) assms(3)] by simp_all
  note qspec = heap_Info_Clone_spec [OF 1(2) q1(1)]
  have p'1: "allocated st1 p'" using pspec(3) by (auto simp: allocated_def)
  note p'2 = extended_info [OF qspec(1) p'1]
  have ext: "extended st st'" using pspec(1) qspec(1) by (rule extended_trans)
  note p2 = extended_info [OF ext assms(2)] and q2 = extended_info [OF ext assms(3)]
  show "load_info lay st' p' = Info_Clone clone (load_info lay st p)" using pspec(2) p'2(1) by simp
  show "load_info lay st' q' = Info_Clone clone (load_info lay st q)" using qspec(2) q1(2) by simp
  have old: "info_reach st p \<subseteq> {..<next_addr st}" "info_reach st q \<subseteq> {..<next_addr st}"
    using assms(2,3) by (simp_all add: allocated_def)
  have new: "info_reach st' p' \<subseteq> {next_addr st..<next_addr st'}" "info_reach st' q' \<subseteq> {next_addr st..<next_addr st'}"
    using pspec(3) qspec(3) p'2(2) extended_next [OF pspec(1)] extended_next [OF qspec(1)] by auto
  show "load_info lay later p = load_info lay st p \<and> load_info lay later q = load_info lay st q"
    if "same_at (- (info_reach st' p' \<union> info_reach st' q' \<union> {next_addr st'..})) st' later"
  proof -
    have "{..<next_addr st} \<subseteq> - (info_reach st' p' \<union> info_reach st' q' \<union> {next_addr st'..})"
      using new extended_next [OF ext] by auto
    then have "same_at (info_reach st' p) st' later" "same_at (info_reach st' q) st' later"
      using that old unfolding p2(2) q2(2) by (auto elim!: same_at_mono)
    then show ?thesis using info_same(1) p2(1) q2(1) by metis
  qed
  show "load_info lay later p' = load_info lay st' p' \<and> load_info lay later q' = load_info lay st' q'"
    if "same_at (- (info_reach st p \<union> info_reach st q \<union> {next_addr st'..})) st' later"
  proof -
    have "{next_addr st..<next_addr st'} \<subseteq> - (info_reach st p \<union> info_reach st q \<union> {next_addr st'..})"
      using old by auto
    then have "same_at (info_reach st' p') st' later" "same_at (info_reach st' q') st' later"
      using that new by (auto elim!: same_at_mono)
    then show ?thesis using info_same(1) by blast
  qed
qed

lemma heap_ToInfo_shares:
  assumes "heap_ToInfo toInfo s st = (Some i, st')" "sysinfos st s = Some c" "sys_reach st (Some s) \<subseteq> {..<next_addr st}"
  shows "load_info lay st' (Some i) = map_option toInfo (load_sys lay st (Some s))"
    "info_reach st' (Some i) = insert i (sys_reach st (Some s))"
proof -
  have i: "i = next_addr st" and st': "st' = snd (new_info \<lparr>ic_fields = (toInfo (sc_fields c))\<lparr>Info_TxOptions := None,
      Info_RxOptions := None, Info_Sys := None\<rparr>, ic_TxOptions = sc_TxOptions c, ic_RxOptions = sc_RxOptions c, ic_Sys = Some s\<rparr> st)"
    using assms(1,2) by (auto simp: heap_ToInfo_def new_info_def)
  have ext: "extended st st'" unfolding st' by (rule extended_new)
  then have "same_at (sys_reach st (Some s)) st st'"
    using assms(3) by (auto simp: extended_def elim!: same_at_mono)
  note same = sys_same [OF this]
  have "set_option (sc_TxOptions c) \<subseteq> {..<next_addr st}" "set_option (sc_RxOptions c) \<subseteq> {..<next_addr st}"
    using assms(2,3) by (auto simp: sys_reach_def)
  note slices = this [THEN load_slice_extended [OF ext]]
  show "info_reach st' (Some i) = insert i (sys_reach st (Some s))"
    using assms(2) same(2) unfolding i st' by (auto simp: info_reach_def new_info_def sys_reach_def)
  let ?s = "lay_with lay (load_slice st (sc_TxOptions c)) (load_slice st (sc_RxOptions c)) (sc_fields c)"
  have "load_sys lay st (Some s) = Some ?s" using assms(2) by (simp add: load_sys_def)
  moreover have "toInfo ?s = (toInfo (sc_fields c))\<lparr>Info_TxOptions := load_slice st (sc_TxOptions c),
      Info_RxOptions := load_slice st (sc_RxOptions c), Info_Sys := Some ?s\<rparr>"
    using toInfo_with [of ?s "lay_Tx lay (sc_fields c)" "lay_Rx lay (sc_fields c)"] by simp
  ultimately show "load_info lay st' (Some i) = map_option toInfo (load_sys lay st (Some s))"
    using same(1) [of lay] slices unfolding i st' by (simp add: load_info_def new_info_def)
qed

end

end
