(* ===== verification/Json_Map.thy ===== *)
theory Json_Map
  imports Tcp_Info "HOL-Library.List_Lexorder" "HOL-Library.Char_ord" "HOL-Library.Multiset"
begin

text \<open>
  The JSON form of the maps: \<open>Option.MarshalJSON\<close> of \<open>tcpinfo.go\<close>, the \<open>MarshalJSON\<close> methods of the platform
  records, which are all \<open>json.Marshal(s.ToMap())\<close>, and what \<open>encoding/json\<close> and \<open>strconv.Quote\<close> do
  with the dynamic types that the maps hold.

  Bytes from 0x80 on are copied, as both libraries do with printable text in UTF-8. A failure to marshal
  is \<^const>\<open>None\<close>. The reader of JSON text is there to state that nothing is lost.
\<close>

subsection \<open>Strings\<close>

definition hex_byte :: "char \<Rightarrow> string" where
  "hex_byte c = (let n = of_char c in [hex_char (n div 16), hex_char (n mod 16)])"

text \<open>A character inside a JSON string, as \<open>json.Marshal\<close> writes it.\<close>

definition json_escape :: "char \<Rightarrow> string" where
  "json_escape c =
     (let n = of_char c :: nat in
      if c = CHR 0x22 \<or> c = CHR 0x5C then [CHR 0x5C, c]
      else if n = 8 then [CHR 0x5C, CHR ''b'']
      else if n = 9 then [CHR 0x5C, CHR ''t'']
      else if n = 10 then [CHR 0x5C, CHR ''n'']
      else if n = 12 then [CHR 0x5C, CHR ''f'']
      else if n = 13 then [CHR 0x5C, CHR ''r'']
      else if n < 32 \<or> c \<in> {CHR ''<'', CHR ''>'', CHR ''&''} then [CHR 0x5C, CHR ''u'', CHR ''0'', CHR ''0''] @ hex_byte c
      else [c])"

definition json_string :: "string \<Rightarrow> string" where
  "json_string s = CHR 0x22 # concat (map json_escape s) @ [CHR 0x22]"

text \<open>\<open>strconv.Quote\<close>.\<close>

definition quote_char :: "char \<Rightarrow> string" where
  "quote_char c =
     (let n = of_char c :: nat in
      if c = CHR 0x22 \<or> c = CHR 0x5C then [CHR 0x5C, c]
      else if n = 7 then [CHR 0x5C, CHR ''a'']
      else if n = 8 then [CHR 0x5C, CHR ''b'']
      else if n = 9 then [CHR 0x5C, CHR ''t'']
      else if n = 10 then [CHR 0x5C, CHR ''n'']
      else if n = 11 then [CHR 0x5C, CHR ''v'']
      else if n = 12 then [CHR 0x5C, CHR ''f'']
      else if n = 13 then [CHR 0x5C, CHR ''r'']
      else if n < 32 \<or> n = 127 then [CHR 0x5C, CHR ''x''] @ hex_byte c
      else [c])"

definition Quote :: "string \<Rightarrow> string" where
  "Quote s = CHR 0x22 # concat (map quote_char s) @ [CHR 0x22]"

definition Option_MarshalJSON :: "Option \<Rightarrow> string" where
  "Option_MarshalJSON opt = Quote (Option_String opt)"

text \<open>Reading the rest of a JSON string after its opening quote, and what follows it.\<close>

definition hex_value :: "char \<Rightarrow> nat option" where
  "hex_value c =
     (let n = of_char c :: nat in
      if 48 \<le> n \<and> n \<le> 57 then Some (n - 48) else if 97 \<le> n \<and> n \<le> 102 then Some (n - 87) else None)"

definition read_simple :: "char \<Rightarrow> char option" where
  "read_simple c =
     (if c = CHR 0x22 \<or> c = CHR 0x5C \<or> c = CHR ''/'' then Some c
      else if c = CHR ''b'' then Some (char_of (8::nat))
      else if c = CHR ''t'' then Some (char_of (9::nat))
      else if c = CHR ''n'' then Some (char_of (10::nat))
      else if c = CHR ''f'' then Some (char_of (12::nat))
      else if c = CHR ''r'' then Some (char_of (13::nat))
      else None)"

fun read_string :: "string \<Rightarrow> (string \<times> string) option" where
  "read_string [] = None"
| "read_string (c # cs) =
     (if c = CHR 0x22 then Some ([], cs)
      else if c = CHR 0x5C
      then (case cs of
              [] \<Rightarrow> None
            | d # ds \<Rightarrow>
                (case read_simple d of
                   Some x \<Rightarrow> map_option (apfst (Cons x)) (read_string ds)
                 | None \<Rightarrow>
                     if d = CHR ''u''
                     then (case ds of
                             z # z' # h # l # rest \<Rightarrow>
                               (case (hex_value h, hex_value l) of
                                  (Some h, Some l) \<Rightarrow>
                                    if z = CHR ''0'' \<and> z' = CHR ''0'' \<and> h < 8
                                    then map_option (apfst (Cons (char_of (16 * h + l)))) (read_string rest)
                                    else None
                                | _ \<Rightarrow> None)
                           | _ \<Rightarrow> None)
                     else None))
      else if (of_char c :: nat) < 32 then None
      else map_option (apfst (Cons c)) (read_string cs))"

text \<open>What \<open>json.Marshal\<close> does with the text of a \<open>MarshalJSON\<close> method: it must be valid, and the three
  characters special to HTML are escaped. The text here is one string.\<close>

definition compact :: "string \<Rightarrow> string option" where
  "compact q =
     (case read_string (drop 1 q) of
        Some (_, []) \<Rightarrow>
          Some (concat (map (\<lambda>c. if c \<in> {CHR ''<'', CHR ''>'', CHR ''&''} then json_escape c else [c]) q))
      | _ \<Rightarrow> None)"

subsection \<open>Values\<close>

definition json_list :: "('a \<Rightarrow> string option) \<Rightarrow> 'a slice \<Rightarrow> string option" where
  "json_list enc xs =
     (case xs of
        None \<Rightarrow> Some ''null''
      | Some xs \<Rightarrow> map_option (\<lambda>ts. ''['' @ Join ts '','' @ '']'') (those (map enc xs)))"

text \<open>A map is written with its keys in order.\<close>

primrec json_Marshal :: "any \<Rightarrow> string option" where
  "json_Marshal (AString s) = Some (json_string s)"
| "json_Marshal (ABool b) = Some (if b then ''true'' else ''false'')"
| "json_Marshal (AUint8 w) = Some (Itoa (uint w))"
| "json_Marshal (AUint16 w) = Some (Itoa (uint w))"
| "json_Marshal (AUint32 w) = Some (Itoa (uint w))"
| "json_Marshal (AUint64 w) = Some (Itoa (uint w))"
| "json_Marshal (AInt i) = Some (Itoa i)"
| "json_Marshal (AInt64 w) = Some (Itoa (sint w))"
| "json_Marshal (ADuration w) = Some (Itoa (sint w))"
| "json_Marshal (AOptions os) = json_list (\<lambda>opt. compact (Option_MarshalJSON opt)) os"
| "json_Marshal (AStrings ss) = json_list (\<lambda>s. Some (json_string s)) ss"
| "json_Marshal (AMap m) =
     map_option (\<lambda>ts. ''{'' @ Join ts '','' @ ''}'')
       (those (map (\<lambda>(k, t). map_option (\<lambda>t. json_string k @ '':'' @ t) t)
                   (sort_key fst (map (map_prod (\<lambda>k. k) json_Marshal) m))))"

text \<open>\<open>MarshalJSON\<close> of a platform record with the given \<open>ToMap\<close>.\<close>

definition SysInfo_MarshalJSON :: "('s \<Rightarrow> gomap) \<Rightarrow> 's \<Rightarrow> string option" where
  "SysInfo_MarshalJSON toMap s = json_Marshal (AMap (toMap s))"

subsection \<open>Reading back\<close>

datatype json = JNull | JBool bool | JNum int | JStr string | JArr "json list" | JObj "(string \<times> json) list"

definition read_number :: "string \<Rightarrow> (json \<times> string) option" where
  "read_number s =
     (let neg = (s \<noteq> [] \<and> hd s = CHR ''-'');
          s = (if neg then tl s else s);
          ds = takeWhile is_digit s
      in if ds = [] then None
         else Some (JNum (if neg then - int (digits_value ds) else int (digits_value ds)), dropWhile is_digit s))"

fun read_value :: "nat \<Rightarrow> string \<Rightarrow> (json \<times> string) option"
  and read_elems :: "nat \<Rightarrow> string \<Rightarrow> (json list \<times> string) option"
  and read_members :: "nat \<Rightarrow> string \<Rightarrow> ((string \<times> json) list \<times> string) option" where
  "read_value 0 s = None"
| "read_value (Suc n) s =
     (if HasPrefix s [CHR 0x22] then map_option (apfst JStr) (read_string (drop 1 s))
      else if HasPrefix s ''{}'' then Some (JObj [], drop 2 s)
      else if HasPrefix s ''{'' then map_option (apfst JObj) (read_members n (drop 1 s))
      else if HasPrefix s ''[]'' then Some (JArr [], drop 2 s)
      else if HasPrefix s ''['' then map_option (apfst JArr) (read_elems n (drop 1 s))
      else if HasPrefix s ''null'' then Some (JNull, drop 4 s)
      else if HasPrefix s ''true'' then Some (JBool True, drop 4 s)
      else if HasPrefix s ''false'' then Some (JBool False, drop 5 s)
      else read_number s)"
| "read_elems 0 s = None"
| "read_elems (Suc n) s =
     (case read_value n s of
        Some (v, c # r) \<Rightarrow>
          if c = CHR '']'' then Some ([v], r)
          else if c = CHR '','' then map_option (apfst (Cons v)) (read_elems n r)
          else None
      | _ \<Rightarrow> None)"
| "read_members 0 s = None"
| "read_members (Suc n) s =
     (case (if HasPrefix s [CHR 0x22] then read_string (drop 1 s) else None) of
        Some (k, d # r) \<Rightarrow>
          (case (if d = CHR '':'' then read_value n r else None) of
             Some (v, c # r) \<Rightarrow>
               if c = CHR ''}'' then Some ([(k, v)], r)
               else if c = CHR '','' then map_option (apfst (Cons (k, v))) (read_members n r)
               else None
           | _ \<Rightarrow> None)
      | _ \<Rightarrow> None)"

definition read_json :: "string \<Rightarrow> json option" where
  "read_json s = (case read_value (Suc (length s)) s of Some (j, []) \<Rightarrow> Some j | _ \<Rightarrow> None)"

text \<open>The JSON value that a Go value stands for.\<close>

primrec json_of :: "any \<Rightarrow> json" where
  "json_of (AString s) = JStr s"
| "json_of (ABool b) = JBool b"
| "json_of (AUint8 w) = JNum (uint w)"
| "json_of (AUint16 w) = JNum (uint w)"
| "json_of (AUint32 w) = JNum (uint w)"
| "json_of (AUint64 w) = JNum (uint w)"
| "json_of (AInt i) = JNum i"
| "json_of (AInt64 w) = JNum (sint w)"
| "json_of (ADuration w) = JNum (sint w)"
| "json_of (AOptions os) = (case os of None \<Rightarrow> JNull | Some os \<Rightarrow> JArr (map (\<lambda>opt. JStr (Option_String opt)) os))"
| "json_of (AStrings ss) = (case ss of None \<Rightarrow> JNull | Some ss \<Rightarrow> JArr (map JStr ss))"
| "json_of (AMap m) = JObj (sort_key fst (map (map_prod (\<lambda>k. k) json_of) m))"

text \<open>Text that \<open>strconv.Quote\<close> and \<open>encoding/json\<close> both leave as it is, and a value whose option kinds are
  such text.\<close>

definition plain_char :: "char \<Rightarrow> bool" where
  "plain_char c \<longleftrightarrow> 32 \<le> (of_char c :: nat) \<and> (of_char c :: nat) < 127
     \<and> c \<notin> {CHR 0x22, CHR 0x5C, CHR ''<'', CHR ''>'', CHR ''&''}"

primrec plain_options :: "any \<Rightarrow> bool" where
  "plain_options (AString s) = True"
| "plain_options (ABool b) = True"
| "plain_options (AUint8 w) = True"
| "plain_options (AUint16 w) = True"
| "plain_options (AUint32 w) = True"
| "plain_options (AUint64 w) = True"
| "plain_options (AInt i) = True"
| "plain_options (AInt64 w) = True"
| "plain_options (ADuration w) = True"
| "plain_options (AOptions os) = list_all (\<lambda>opt. list_all plain_char (Kind opt)) (elems os)"
| "plain_options (AStrings ss) = True"
| "plain_options (AMap m) = list_all (\<lambda>b. b) (map (\<lambda>kv. snd kv) (map (map_prod (\<lambda>k. k) plain_options) m))"

text \<open>A platform whose option kinds are plain: what \<open>GetTCPInfo\<close> returns has a JSON form, copies and
  portable views keep it.\<close>

locale tcpinfo_json = tcpinfo_answers pkg
  for pkg :: "'s tcpinfo_pkg" +
  assumes Get_plain: "pkg_GetTCPInfo pkg fd = (Some s, e) \<Longrightarrow> plain_options (AMap (pkg_ToMap pkg s))"
    and Clone_plain: "plain_options (AMap (pkg_ToMap pkg s)) \<Longrightarrow> plain_options (AMap (pkg_ToMap pkg (pkg_Clone pkg s)))"
    and ToInfo_plain: "plain_options (AMap (pkg_ToMap pkg s)) \<Longrightarrow>
      plain_options (AMap (Info_ToMap (pkg_ToMap pkg) (pkg_ToInfo pkg s)))"

subsection \<open>Strings read back\<close>

lemma hex_value_hex_char: "d < 16 \<Longrightarrow> hex_value (hex_char d) = Some d"
  by (auto simp: hex_value_def hex_char_def Let_def)

lemma read_hex:
  assumes "(of_char c :: nat) < 128"
  shows "read_string ([CHR 0x5C, CHR ''u'', CHR ''0'', CHR ''0''] @ hex_byte c @ t) = map_option (apfst (Cons c)) (read_string t)"
proof -
  have h: "(of_char c :: nat) div 16 < 8" using assms by simp
  have same: "char_of (16 * (of_char c div 16) + of_char c mod 16 :: nat) = c" by simp
  have "hex_value (hex_char (of_char c div 16)) = Some (of_char c div 16)" "hex_value (hex_char (of_char c mod 16)) = Some (of_char c mod 16)"
    using h by (simp_all add: hex_value_hex_char)
  then show ?thesis using h same by (simp add: hex_byte_def read_simple_def Let_def)
qed

lemma read_escaped: "read_string (json_escape c @ t) = map_option (apfst (Cons c)) (read_string t)"
proof -
  have small: "(of_char c :: nat) < 128" if "(of_char c :: nat) < 32 \<or> c \<in> {CHR ''<'', CHR ''>'', CHR ''&''}"
    using that by auto
  have code: "char_of n = c" if "of_char c = n" for n :: nat using that by (metis char_of_char)
  consider "c = CHR 0x22 \<or> c = CHR 0x5C" | "(of_char c :: nat) \<in> {8, 9, 10, 12, 13}" "c \<noteq> CHR 0x22" "c \<noteq> CHR 0x5C"
    | "(of_char c :: nat) < 32 \<or> c \<in> {CHR ''<'', CHR ''>'', CHR ''&''}" "(of_char c :: nat) \<notin> {8, 9, 10, 12, 13}" "c \<noteq> CHR 0x22" "c \<noteq> CHR 0x5C"
    | "\<not> (of_char c :: nat) < 32" "c \<notin> {CHR ''<'', CHR ''>'', CHR ''&''}" "c \<noteq> CHR 0x22" "c \<noteq> CHR 0x5C"
    by blast
  then show ?thesis
  proof cases
    case 1
    then show ?thesis by (auto simp: json_escape_def read_simple_def)
  next
    case 2
    then obtain x where x: "json_escape c = [CHR 0x5C, x]" "read_simple x = Some c"
      using code [of 8] code [of 9] code [of 10] code [of 12] code [of 13]
      by (auto simp: json_escape_def read_simple_def simp del: char_of_eq_iff)
    then show ?thesis by simp
  next
    case 3
    then have "json_escape c = [CHR 0x5C, CHR ''u'', CHR ''0'', CHR ''0''] @ hex_byte c"
      by (simp add: json_escape_def Let_def)
    then show ?thesis using read_hex [OF small [OF 3(1)], of t] by simp
  next
    case 4
    then have "json_escape c = [c]" by (auto simp: json_escape_def Let_def)
    then show ?thesis using 4 by simp
  qed
qed

lemma read_json_string: "read_string (concat (map json_escape s) @ CHR 0x22 # t) = Some (s, t)"
  by (induction s) (simp_all add: read_escaped)

lemma plain_json_escape: "plain_char c \<Longrightarrow> json_escape c = [c] \<and> quote_char c = [c]"
  by (auto simp: plain_char_def json_escape_def quote_char_def Let_def)

lemma plain_escapes:
  assumes "list_all plain_char s"
  shows "concat (map json_escape s) = s" "concat (map quote_char s) = s"
    "concat (map (\<lambda>c. if c \<in> {CHR ''<'', CHR ''>'', CHR ''&''} then json_escape c else [c]) s) = s"
  using assms by (induction s) (auto simp: plain_json_escape)

lemma compact_Quote:
  assumes "list_all plain_char s"
  shows "compact (Quote s) = Some (json_string s)"
proof -
  have "read_string (s @ [CHR 0x22]) = Some (s, [])"
    using read_json_string [of s "[]"] plain_escapes(1) [OF assms] by simp
  then show ?thesis
    using plain_escapes(3) [OF assms] by (simp add: compact_def Quote_def json_string_def plain_escapes(1,2) [OF assms])
qed

lemma plain_char_code:
  "plain_char c \<longleftrightarrow> 32 \<le> (of_char c :: nat) \<and> (of_char c :: nat) < 127 \<and> (of_char c :: nat) \<notin> {34, 92, 60, 62, 38}"
proof -
  have "c = d \<longleftrightarrow> (of_char c :: nat) = of_char d" for d by simp
  from this [of "CHR 0x22"] this [of "CHR 0x5C"] this [of "CHR ''<''"] this [of "CHR ''>''"] this [of "CHR ''&''"]
  show ?thesis by (auto simp: plain_char_def)
qed

lemma hex_char_plain: "d < 16 \<Longrightarrow> plain_char (hex_char d)"
  by (auto simp: plain_char_code hex_char_def)

lemma digits16_plain: "list_all plain_char (digits16 n)"
proof (induction n rule: digits16.induct)
  case (1 n)
  then show ?case by (subst digits16.simps) (auto simp: hex_char_plain)
qed

lemma Option_String_plain: "list_all plain_char (Kind opt) \<Longrightarrow> list_all plain_char (Option_String opt)"
  using digits16_plain [of "unat (OptValue opt)"]
  by (auto simp: Option_String_def hex2_def Let_def plain_char_def)

lemma compact_Option: "list_all plain_char (Kind opt) \<Longrightarrow> compact (Option_MarshalJSON opt) = Some (json_string (Option_String opt))"
  by (simp add: Option_MarshalJSON_def compact_Quote Option_String_plain)

subsection \<open>Values read back\<close>

text \<open>What may follow a value, and text that reads as a value whatever follows.\<close>

definition stops :: "string \<Rightarrow> bool" where
  "stops rest \<longleftrightarrow> rest = [] \<or> \<not> is_digit (hd rest)"

definition readable :: "string \<Rightarrow> json \<Rightarrow> bool" where
  "readable t v \<longleftrightarrow> (\<forall>n rest. length t < n \<longrightarrow> stops rest \<longrightarrow> read_value n (t @ rest) = Some (v, rest))"

lemma readableI:
  assumes "\<And>n rest. length t \<le> n \<Longrightarrow> stops rest \<Longrightarrow> read_value (Suc n) (t @ rest) = Some (v, rest)"
  shows "readable t v"
  unfolding readable_def
proof (intro allI impI)
  fix n rest assume n: "length t < n" and "stops rest"
  moreover obtain m where "n = Suc m" "length t \<le> m" using n by (cases n) auto
  ultimately show "read_value n (t @ rest) = Some (v, rest)" using assms [of m rest] by simp
qed

lemma HasPrefix_Cons [simp]: "HasPrefix (c # cs) (d # ds) \<longleftrightarrow> c = d \<and> HasPrefix cs ds" "HasPrefix [] (d # ds) = False"
    "HasPrefix cs [] = True"
  by (auto simp: HasPrefix_def)

lemma stops_simps [simp]: "stops (c # cs) \<longleftrightarrow> \<not> is_digit c" "stops []"
  by (simp_all add: stops_def)

lemma not_digits [simp]: "\<not> is_digit CHR '']''" "\<not> is_digit CHR '',''" "\<not> is_digit CHR ''}''"
  by (simp_all add: is_digit_def)

lemma read_number_Itoa:
  assumes "stops rest"
  shows "read_number (Itoa i @ rest) = Some (JNum i, rest)"
proof -
  have digits: "takeWhile is_digit (digits10 n @ rest) = digits10 n" "dropWhile is_digit (digits10 n @ rest) = rest" for n
    by (rule takeWhile_app_stop dropWhile_app_stop; use assms digits10_digits in \<open>auto simp: stops_def\<close>)+
  have "hd (digits10 n @ rest) \<noteq> CHR ''-''" for n
    using hd_digits10_digit [of n] is_digit_not_sign by fastforce
  then show ?thesis
    using digits by (cases "i < 0") (simp_all add: Itoa_def read_number_def Let_def)
qed

lemma readable_number: "readable (Itoa i) (JNum i)"
proof (rule readableI)
  fix n rest assume r: "stops rest"
  obtain c cs where c: "Itoa i = c # cs" by (meson Itoa_nonempty neq_Nil_conv)
  then have "c = CHR ''-'' \<or> is_digit c" using hd_Itoa [of i] by simp
  then have "c \<notin> {CHR 0x22, CHR ''{'', CHR ''['', CHR ''n'', CHR ''t'', CHR ''f''}" by (auto simp: is_digit_def)
  then show "read_value (Suc n) (Itoa i @ rest) = Some (JNum i, rest)"
    using read_number_Itoa [OF r, of i] c by auto
qed

lemma readable_string: "readable (json_string s) (JStr s)"
  by (rule readableI) (simp add: json_string_def read_json_string)

lemma readable_words: "readable ''null'' JNull" "readable ''true'' (JBool True)" "readable ''false'' (JBool False)"
  by (rule readableI, simp)+

lemma readable_start:
  assumes "readable t v"
  shows "\<exists>c cs. t = c # cs \<and> c \<noteq> CHR '']''"
proof -
  have r: "read_value (Suc (length t)) t = Some (v, [])"
    using assms unfolding readable_def by (metis append_Nil2 lessI stops_simps(2))
  show ?thesis
  proof (cases t)
    case Nil
    then show ?thesis using r by (simp add: read_number_def)
  next
    case (Cons c cs)
    then show ?thesis using r by (auto simp: read_number_def)
  qed
qed

lemma Join_Cons: "ts \<noteq> [] \<Longrightarrow> Join (t # ts) sep = t @ sep @ Join ts sep"
  by (cases ts) simp_all

lemma read_elems_Join:
  assumes "list_all2 readable ts vs" "ts \<noteq> []" "length (Join ts '','') + 1 < n"
  shows "read_elems n (Join ts '','' @ CHR '']'' # rest) = Some (vs, rest)"
  using assms
proof (induction ts vs arbitrary: n rule: list_all2_induct)
  case (Cons t ts v vs)
  obtain m where n: "n = Suc m" using Cons.prems(2) by (cases n) auto
  have r: "length t < m \<Longrightarrow> stops rest \<Longrightarrow> read_value m (t @ rest) = Some (v, rest)" for rest
    using Cons.hyps(1) by (simp add: readable_def)
  show ?case
  proof (cases "ts = []")
    case True
    then show ?thesis using Cons.hyps(2) Cons.prems n r [of "CHR '']'' # rest"] by simp
  next
    case False
    note j = Join_Cons [OF False, of t "'',''"]
    have "read_elems m (Join ts '','' @ CHR '']'' # rest) = Some (vs, rest)"
      using Cons.IH [OF False, of m] Cons.prems(2) n unfolding j by simp
    moreover have "read_value m (t @ CHR '','' # Join ts '','' @ CHR '']'' # rest) = Some (v, CHR '','' # Join ts '','' @ CHR '']'' # rest)"
      using Cons.prems(2) n unfolding j by (intro r) simp_all
    ultimately show ?thesis unfolding j n by simp
  qed
qed simp

lemma readable_array:
  assumes "list_all2 readable ts vs"
  shows "readable (''['' @ Join ts '','' @ '']'') (JArr vs)"
proof (cases "ts = []")
  case True
  then show ?thesis using assms by (intro readableI) simp
next
  case False
  then obtain t ts' v vs' where t: "ts = t # ts'" "readable t v" using assms by (cases ts; cases vs) auto
  then obtain c cs where c: "Join ts '','' = c # cs" "c \<noteq> CHR '']''"
    using readable_start [OF t(2)] by (cases ts') auto
  show ?thesis
  proof (rule readableI)
    fix n rest assume n: "length (''['' @ Join ts '','' @ '']'') \<le> n"
    have "read_elems n (Join ts '','' @ CHR '']'' # rest) = Some (vs, rest)"
      using n by (intro read_elems_Join [OF assms False]) simp
    then show "read_value (Suc n) ((''['' @ Join ts '','' @ '']'') @ rest) = Some (JArr vs, rest)"
      using c by simp
  qed
qed

text \<open>A member of an object: its key, a colon and its value.\<close>

definition member_text :: "string \<times> string \<Rightarrow> string" where
  "member_text m = json_string (fst m) @ '':'' @ snd m"

lemma read_members_Join:
  assumes "list_all2 (\<lambda>t kv. fst t = fst kv \<and> readable (snd t) (snd kv)) ts kvs" "ts \<noteq> []"
    "length (Join (map member_text ts) '','') + 1 < n"
  shows "read_members n (Join (map member_text ts) '','' @ CHR ''}'' # rest) = Some (kvs, rest)"
  using assms
proof (induction ts kvs arbitrary: n rule: list_all2_induct)
  case (Cons t ts kv kvs)
  obtain m where n: "n = Suc m" using Cons.prems(2) by (cases n) auto
  have r: "length (member_text t) < m \<Longrightarrow> stops rest \<Longrightarrow> read_value m (snd t @ rest) = Some (snd kv, rest)" for rest
    using Cons.hyps(1) by (simp add: readable_def member_text_def)
  have key: "read_string (drop 1 (member_text t @ rest)) = Some (fst kv, CHR '':'' # snd t @ rest)"
      "HasPrefix (member_text t @ rest) [CHR 0x22]" for rest
    using Cons.hyps(1) read_json_string [of "fst t"] by (simp_all add: member_text_def json_string_def)
  have kv: "(fst kv, snd kv) = kv" by simp
  show ?case
  proof (cases "ts = []")
    case True
    then show ?thesis using Cons.hyps(2) Cons.prems n r [of "CHR ''}'' # rest"] key by simp
  next
    case False
    then have ne: "map member_text ts \<noteq> []" by simp
    note j = Join_Cons [OF ne, of "member_text t" "'',''"]
    let ?rest = "CHR '','' # Join (map member_text ts) '','' @ CHR ''}'' # rest"
    have "read_members m (Join (map member_text ts) '','' @ CHR ''}'' # rest) = Some (kvs, rest)"
      using Cons.IH [OF False, of m] Cons.prems(2) n j by simp
    moreover have "read_value m (snd t @ ?rest) = Some (snd kv, ?rest)"
      using Cons.prems(2) n j by (intro r) simp_all
    ultimately show ?thesis using j n key [of ?rest] by simp
  qed
qed simp

lemma readable_object:
  assumes "list_all2 (\<lambda>t kv. fst t = fst kv \<and> readable (snd t) (snd kv)) ts kvs"
  shows "readable (''{'' @ Join (map member_text ts) '','' @ ''}'') (JObj kvs)"
proof (cases "ts = []")
  case True
  then show ?thesis using assms by (intro readableI) simp
next
  case False
  then obtain cs where c: "Join (map member_text ts) '','' = CHR 0x22 # cs"
    by (cases ts; cases "tl ts") (auto simp: member_text_def json_string_def)
  show ?thesis
  proof (rule readableI)
    fix n rest assume n: "length (''{'' @ Join (map member_text ts) '','' @ ''}'') \<le> n"
    have "read_members n (Join (map member_text ts) '','' @ CHR ''}'' # rest) = Some (kvs, rest)"
      using n by (intro read_members_Join [OF assms False]) simp
    then show "read_value (Suc n) ((''{'' @ Join (map member_text ts) '','' @ ''}'') @ rest) = Some (JObj kvs, rest)"
      using c by simp
  qed
qed

subsection \<open>Marshalling\<close>

lemma those_map: "(\<And>x. x \<in> set xs \<Longrightarrow> f x = Some (g x)) \<Longrightarrow> those (map f xs) = Some (map g xs)"
  by (induction xs) simp_all

lemma sort_key_map_prod: "sort_key fst (map (map_prod (\<lambda>k. k) f) m) = map (map_prod (\<lambda>k. k) f) (sort_key fst m)"
proof -
  have ins: "insort_key fst (map_prod (\<lambda>k. k) f x) (map (map_prod (\<lambda>k. k) f) ys) = map (map_prod (\<lambda>k. k) f) (insort_key fst x ys)"
    for x ys
    by (induction ys) auto
  show ?thesis by (induction m) (simp_all add: ins)
qed

lemma json_list_readable:
  assumes "\<And>x. x \<in> set (elems xs) \<Longrightarrow> enc x = Some (txt x) \<and> readable (txt x) (val x)"
  shows "\<exists>t. json_list enc xs = Some t \<and> readable t (case xs of None \<Rightarrow> JNull | Some xs \<Rightarrow> JArr (map val xs))"
proof (cases xs)
  case None
  then show ?thesis by (simp add: json_list_def readable_words)
next
  case (Some ys)
  then have "those (map enc ys) = Some (map txt ys)" using assms by (intro those_map) simp
  moreover have "list_all2 readable (map txt ys) (map val ys)"
    using assms Some by (auto simp: list_all2_map1 list_all2_map2 list_all2_same)
  ultimately show ?thesis using Some readable_array by (auto simp: json_list_def)
qed

text \<open>Every value with plain option kinds has a JSON text, which reads as the value.\<close>

lemma json_Marshal_readable:
  "plain_options a \<Longrightarrow> \<exists>t. json_Marshal a = Some t \<and> readable t (json_of a)"
proof (induction a)
  case (AOptions os)
  then show ?case
    using json_list_readable [of os "\<lambda>opt. compact (Option_MarshalJSON opt)" "\<lambda>opt. json_string (Option_String opt)"
        "\<lambda>opt. JStr (Option_String opt)"]
    by (simp add: list_all_iff compact_Option readable_string)
next
  case (AStrings ss)
  then show ?case
    using json_list_readable [of ss "\<lambda>s. Some (json_string s)" json_string JStr] by (simp add: readable_string)
next
  case (AMap m)
  let ?txt = "\<lambda>a. the (json_Marshal a)" and ?sorted = "sort_key fst m"
  have val: "json_Marshal v = Some (?txt v) \<and> readable (?txt v) (json_of v)" if "(k, v) \<in> set m" for k v
    using AMap.IH [of "(k, v)" v] AMap.prems that by (force simp: list_all_iff)
  let ?ts = "map (\<lambda>(k, v). (k, ?txt v)) ?sorted" and ?kvs = "map (map_prod (\<lambda>k. k) json_of) ?sorted"
  have "those (map (\<lambda>(k, t). map_option (\<lambda>t. json_string k @ '':'' @ t) t) (map (map_prod (\<lambda>k. k) json_Marshal) ?sorted))
      = Some (map member_text ?ts)"
    unfolding map_map by (rule those_map) (use val in \<open>auto simp: member_text_def\<close>)
  moreover have "list_all2 (\<lambda>t kv. fst t = fst kv \<and> readable (snd t) (snd kv)) ?ts ?kvs"
    using val by (auto simp: list_all2_map1 list_all2_map2 list_all2_same)
  ultimately show ?case using readable_object [of ?ts ?kvs] by (auto simp: sort_key_map_prod)
qed (auto simp: readable_number readable_string readable_words)

lemma readable_reads: "readable t v \<Longrightarrow> read_json t = Some v"
proof -
  assume "readable t v"
  then have "read_value (Suc (length t)) (t @ []) = Some (v, [])" unfolding readable_def using stops_simps(2) by blast
  then show ?thesis by (simp add: read_json_def)
qed

lemma json_Marshal_reads:
  assumes "plain_options a"
  shows "\<exists>t. json_Marshal a = Some t \<and> read_json t = Some (json_of a)"
  using json_Marshal_readable [OF assms] readable_reads by blast

lemma map_of_sort_key:
  assumes "distinct (map fst m)"
  shows "map_of (sort_key fst m) = map_of m"
proof -
  have "distinct (map fst (sort_key fst m))"
    using assms by (metis mset_map mset_sort mset_eq_imp_distinct_iff)
  then show ?thesis using assms by (metis map_of_inject_set set_sort)
qed

text \<open>The object written has the entries of the map.\<close>

lemma json_Marshal_map:
  assumes "plain_options (AMap m)" "distinct (map fst m)"
  shows "\<exists>t kvs. json_Marshal (AMap m) = Some t \<and> read_json t = Some (JObj kvs) \<and> sorted (map fst kvs)
     \<and> (\<forall>k. map_of kvs k = map_option json_of (map_of m k))"
proof -
  let ?kvs = "map (map_prod (\<lambda>k. k) json_of) (sort_key fst m)"
  have "json_of (AMap m) = JObj ?kvs" by (simp add: sort_key_map_prod)
  moreover have "map_of ?kvs k = map_option json_of (map_of m k)" for k
    unfolding map_prod_def map_of_map using map_of_sort_key [OF assms(2)] by simp
  moreover have "map fst ?kvs = map fst (sort_key fst m)" by simp
  ultimately show ?thesis using json_Marshal_reads [OF assms(1)] by (metis sorted_sort_key)
qed

subsection \<open>Plain option kinds\<close>

abbreviation plain_kinds :: "Option slice \<Rightarrow> bool" where
  "plain_kinds os \<equiv> list_all (\<lambda>opt. list_all plain_char (Kind opt)) (elems os)"

lemma plain_map: "plain_options (AMap m) \<longleftrightarrow> (\<forall>kv\<in>set m. plain_options (snd kv))"
  by (auto simp: list_all_iff)

declare plain_options.simps(12) [simp del]

lemma plain_update: "plain_options (AMap m) \<Longrightarrow> plain_options v \<Longrightarrow> plain_options (AMap (AList.update k v m))"
  unfolding plain_map by (induction m) (auto split: if_splits)

lemma plain_put_all:
  assumes "plain_options (AMap m)" "\<And>k v. (k, Some v) \<in> set es \<Longrightarrow> plain_options v"
  shows "plain_options (AMap (put_all es m))"
  using assms
proof (induction es arbitrary: m)
  case (Cons e es)
  have "plain_options (AMap (case snd e of None \<Rightarrow> m | Some v \<Rightarrow> AList.update (fst e) v m))"
    using Cons.prems(1) Cons.prems(2) [of "fst e" "the (snd e)"] by (cases e; cases "snd e") (auto intro: plain_update)
  then have "plain_options (AMap (put_all es (case snd e of None \<Rightarrow> m | Some v \<Rightarrow> AList.update (fst e) v m)))"
    by (rule Cons.IH) (use Cons.prems(2) in auto)
  then show ?case by (simp only: put_all.simps)
qed simp

lemma plain_Info:
  "plain_options (AMap (Info_ToMap f i)) \<longleftrightarrow>
     plain_kinds (Info_TxOptions i) \<and> plain_kinds (Info_RxOptions i)
   \<and> (\<forall>s. Info_Sys i = Some s \<longrightarrow> plain_options (AMap (f s)))"
  by (auto simp: Info_ToMap_def Let_def plain_map split: option.splits)

context tcpinfo_json
begin

lemma Info_Clone_plain:
  assumes "plain_options (AMap (Info_ToMap (pkg_ToMap pkg) i))" "Info_Clone (pkg_Clone pkg) (Some i) = Some j"
  shows "plain_options (AMap (Info_ToMap (pkg_ToMap pkg) j))"
  using assms Clone_plain unfolding plain_Info by (auto simp: Info_Clone_def)

lemma MarshalJSON_entries:
  assumes "pkg_GetTCPInfo pkg fd = (Some s, e)"
  shows "\<exists>t kvs. SysInfo_MarshalJSON (pkg_ToMap pkg) s = Some t \<and> read_json t = Some (JObj kvs) \<and> sorted (map fst kvs)
     \<and> (\<forall>k. map_of kvs k = map_option json_of (map_of (pkg_ToMap pkg s) k))"
  unfolding SysInfo_MarshalJSON_def by (rule json_Marshal_map [OF Get_plain [OF assms] ToMap_distinct])

end

end
