(* ===== verification/Tcp_Info_Linux.thy ===== *)
theory Tcp_Info_Linux
  imports Linux_Init Tcp_Linux_Data Tcp_Info_Heap Json_Map
begin

unbundle bit_operations_syntax

text \<open>
  \<open>pkg/tcpinfo/tcpinfo_linux.go\<close> and \<open>tcpinfo_linux_others.go\<close>: reading \<open>TCP_INFO\<close> from the
  kernel, unpacking it under the version flags of \<open>Linux_Init\<close>, adding the congestion control
  algorithm's data, the portable view, the map and the warnings.

  The system calls and \<open>golang.org/x/sys/unix\<close> are parameters, gathered in \<open>linux_sys\<close>.
\<close>

subsection \<open>Constants and tables\<close>

definition TCP_ESTABLISHED :: uint8 where "TCP_ESTABLISHED = 1"
definition TCP_SYN_SENT :: uint8 where "TCP_SYN_SENT = 2"
definition TCP_SYN_RECV :: uint8 where "TCP_SYN_RECV = 3"
definition TCP_FIN_WAIT1 :: uint8 where "TCP_FIN_WAIT1 = 4"
definition TCP_FIN_WAIT2 :: uint8 where "TCP_FIN_WAIT2 = 5"
definition TCP_TIME_WAIT :: uint8 where "TCP_TIME_WAIT = 6"
definition TCP_CLOSE :: uint8 where "TCP_CLOSE = 7"
definition TCP_CLOSE_WAIT :: uint8 where "TCP_CLOSE_WAIT = 8"
definition TCP_LAST_ACK :: uint8 where "TCP_LAST_ACK = 9"
definition TCP_LISTEN :: uint8 where "TCP_LISTEN = 10"
definition TCP_CLOSING :: uint8 where "TCP_CLOSING = 11"
definition TCP_NEW_SYN_RECV :: uint8 where "TCP_NEW_SYN_RECV = 12"

lemmas tcp_state_defs =
  TCP_ESTABLISHED_def TCP_SYN_SENT_def TCP_SYN_RECV_def TCP_FIN_WAIT1_def TCP_FIN_WAIT2_def
  TCP_TIME_WAIT_def TCP_CLOSE_def TCP_CLOSE_WAIT_def TCP_LAST_ACK_def TCP_LISTEN_def
  TCP_CLOSING_def TCP_NEW_SYN_RECV_def

definition tcpStateMap :: "(uint8 \<times> string) list" where
  "tcpStateMap =
     [(TCP_ESTABLISHED, ''ESTABLISHED''), (TCP_SYN_SENT, ''SYN_SENT''), (TCP_SYN_RECV, ''SYN_RECV''),
      (TCP_FIN_WAIT1, ''FIN_WAIT1''), (TCP_FIN_WAIT2, ''FIN_WAIT2''), (TCP_TIME_WAIT, ''TIME_WAIT''),
      (TCP_CLOSE, ''CLOSE''), (TCP_CLOSE_WAIT, ''CLOSE_WAIT''), (TCP_LAST_ACK, ''LAST_ACK''),
      (TCP_LISTEN, ''LISTEN''), (TCP_CLOSING, ''CLOSING'')]"

definition tcpStateName :: "uint8 \<Rightarrow> string" where
  "tcpStateName st = go_index tcpStateMap st"

definition TCPI_OPT_TIMESTAMPS :: uint8 where "TCPI_OPT_TIMESTAMPS = 1"
definition TCPI_OPT_SACK :: uint8 where "TCPI_OPT_SACK = 2"
definition TCPI_OPT_WSCALE :: uint8 where "TCPI_OPT_WSCALE = 4"
definition TCPI_OPT_ECN :: uint8 where "TCPI_OPT_ECN = 8"
definition TCPI_OPT_ECN_SEEN :: uint8 where "TCPI_OPT_ECN_SEEN = 16"
definition TCPI_OPT_SYN_DATA :: uint8 where "TCPI_OPT_SYN_DATA = 32"
definition TCPI_OPT_USEC_TS :: uint8 where "TCPI_OPT_USEC_TS = 64"
definition TCPI_OPT_TFO_CHILD :: uint8 where "TCPI_OPT_TFO_CHILD = 128"

lemmas tcp_opt_defs =
  TCPI_OPT_TIMESTAMPS_def TCPI_OPT_SACK_def TCPI_OPT_WSCALE_def TCPI_OPT_ECN_def
  TCPI_OPT_ECN_SEEN_def TCPI_OPT_SYN_DATA_def TCPI_OPT_USEC_TS_def TCPI_OPT_TFO_CHILD_def

definition tcpOptionsMap :: "(uint8 \<times> string) list" where
  "tcpOptionsMap =
     [(TCPI_OPT_TIMESTAMPS, ''Timestamps''), (TCPI_OPT_SACK, ''SACK''), (TCPI_OPT_WSCALE, ''WindowScale''),
      (TCPI_OPT_ECN, ''ECN''), (TCPI_OPT_ECN_SEEN, ''ECNSeen''), (TCPI_OPT_SYN_DATA, ''SYNData''),
      (TCPI_OPT_USEC_TS, ''UsecTS''), (TCPI_OPT_TFO_CHILD, ''TFOChild'')]"

definition tcpOptions :: "uint8 list" where
  "tcpOptions =
     [TCPI_OPT_TIMESTAMPS, TCPI_OPT_SACK, TCPI_OPT_WSCALE, TCPI_OPT_ECN, TCPI_OPT_ECN_SEEN,
      TCPI_OPT_SYN_DATA, TCPI_OPT_USEC_TS, TCPI_OPT_TFO_CHILD]"

definition timeFieldMultiplier :: duration where
  "timeFieldMultiplier = Microsecond"

subsection \<open>Copying, conversion to a map\<close>

definition SysInfo_Clone :: "SysInfo \<Rightarrow> SysInfo" where
  "SysInfo_Clone s = s\<lparr>TxOptions := cloneOptions (TxOptions s), RxOptions := cloneOptions (RxOptions s)\<rparr>"

text \<open>The entries of the map literal, and those added only when the field is valid.\<close>

definition map_fixed :: "SysInfo \<Rightarrow> gomap" where
  "map_fixed s =
     [(''state'', AString (StateName s)),
      (''caState'', AUint8 (CAState s)),
      (''retransmits'', AUint8 (Retransmits s)),
      (''probes'', AUint8 (Probes s)),
      (''backoff'', AUint8 (Backoff s)),
      (''txOptions'', AOptions (TxOptions s)),
      (''rxOptions'', AOptions (RxOptions s)),
      (''txWindowScale'', AUint8 (TxWindowScale s)),
      (''rxWindowScale'', AUint8 (RxWindowScale s)),
      (''rto'', ADuration (RTO s)),
      (''ato'', ADuration (ATO s)),
      (''txMSS'', AUint32 (TxMSS s)),
      (''rxMSS'', AUint32 (RxMSS s)),
      (''unAcked'', AUint32 (UnAcked s)),
      (''sacked'', AUint32 (Sacked s)),
      (''lost'', AUint32 (Lost s)),
      (''retrans'', AUint32 (Retrans s)),
      (''fackets'', AUint32 (Fackets s)),
      (''lastTxAt'', ADuration (LastTxAt s)),
      (''lastTxAckAt'', ADuration (LastTxAckAt s)),
      (''lastRxAt'', ADuration (LastRxAt s)),
      (''lastRxAckAt'', ADuration (LastRxAckAt s)),
      (''pmtu'', AUint32 (PMTU s)),
      (''rxSSThreshold'', AUint32 (RxSSThreshold s)),
      (''rtt'', ADuration (RTT s)),
      (''rttVar'', ADuration (RTTVar s)),
      (''txSSThreshold'', AUint32 (TxSSThreshold s)),
      (''txCWindow'', AUint32 (TxCWindow s)),
      (''advMSS'', AUint32 (AdvMSS s)),
      (''reordering'', AUint32 (Reordering s)),
      (''rxRTT'', ADuration (RxRTT s)),
      (''rxSpace'', AUint32 (RxSpace s)),
      (''totalRetrans'', AUint32 (TotalRetrans s)),
      (''ccAlgorithm'', AString (CCAlgorithm s))]"

definition opt :: "('a \<Rightarrow> any) \<Rightarrow> 'a Nullable \<Rightarrow> any option" where
  "opt mk n = (if Valid n then Some (mk (Value n)) else None)"

definition map_optional :: "SysInfo \<Rightarrow> (string \<times> any option) list" where
  "map_optional s =
     [(''deliveryRateAppLimited'', opt ABool (DeliveryRateAppLimited s)),
      (''fastOpenClientFail'', opt AUint8 (FastOpenClientFail s)),
      (''pacingRate'', opt AUint64 (PacingRate s)),
      (''maxPacingRate'', opt AUint64 (MaxPacingRate s)),
      (''bytesAcked'', opt AUint64 (BytesAcked s)),
      (''bytesReceived'', opt AUint64 (BytesReceived s)),
      (''segsOut'', opt AUint32 (SegsOut s)),
      (''segsIn'', opt AUint32 (SegsIn s)),
      (''notSentBytes'', opt AUint32 (NotSentBytes s)),
      (''minRTT'', opt ADuration (MinRTT s)),
      (''dataSegsIn'', opt AUint32 (DataSegsIn s)),
      (''dataSegsOut'', opt AUint32 (DataSegsOut s)),
      (''deliveryRate'', opt AUint64 (DeliveryRate s)),
      (''busyTime'', opt AUint64 (BusyTime s)),
      (''rxWindowLimited'', opt AUint64 (RxWindowLimited s)),
      (''txBufferLimited'', opt AUint64 (TxBufferLimited s)),
      (''delivered'', opt AUint32 (Delivered s)),
      (''deliveredCE'', opt AUint32 (DeliveredCE s)),
      (''bytesSent'', opt AUint64 (BytesSent s)),
      (''bytesRetrans'', opt AUint64 (BytesRetrans s)),
      (''dsackDups'', opt AUint32 (DSACKDups s)),
      (''reordSeen'', opt AUint32 (ReordSeen s)),
      (''rxOutOfOrder'', opt AUint32 (RxOutOfOrder s)),
      (''txWindow'', opt AUint32 (TxWindow s)),
      (''rxWindow'', opt AUint32 (RxWindow s)),
      (''rehash'', opt AUint32 (Rehash s)),
      (''totalRTO'', opt AUint16 (TotalRTO s)),
      (''totalRTORecoveries'', opt AUint16 (TotalRTORecoveries s)),
      (''totalRTOTime'', opt AUint32 (TotalRTOTime s)),
      (''ccVegasEnabled'', opt AUint32 (CCVegasEnabled s)),
      (''ccVegasRTTCnt'', opt AUint32 (CCVegasRTTCnt s)),
      (''ccVegasRTT'', opt ADuration (CCVegasRTT s)),
      (''ccVegasRTTMin'', opt ADuration (CCVegasRTTMin s)),
      (''ccBBRBwLo'', opt AUint32 (CCBBRBwLo s)),
      (''ccBBRBwHi'', opt AUint32 (CCBBRBwHi s)),
      (''ccBBRMinRTT'', opt ADuration (CCBBRMinRTT s)),
      (''ccBBRPacingGain'', opt AUint32 (CCBBRPacingGain s)),
      (''ccBBRCWindowGain'', opt AUint32 (CCBBRCWindowGain s)),
      (''ccDCTCPEnabled'', opt ABool (CCDCTCPEnabled s)),
      (''ccDCTCPCEState'', opt AUint16 (CCDCTCPCEState s)),
      (''ccDCTCPAlpha'', opt AUint32 (CCDCTCPAlpha s)),
      (''ccDCTCPABECN'', opt AUint32 (CCDCTCPABECN s)),
      (''ccDCTCPABTOT'', opt AUint32 (CCDCTCPABTOT s))]"

definition SysInfo_ToMap :: "SysInfo \<Rightarrow> gomap" where
  "SysInfo_ToMap s = put_all (map_optional s) (map_fixed s)"

definition linux_MarshalJSON :: "SysInfo \<Rightarrow> string option" where
  "linux_MarshalJSON s = SysInfo_MarshalJSON SysInfo_ToMap s"

subsection \<open>Unpacking\<close>

text \<open>The loop over \<open>tcpOptions\<close>: a set bit appends one option to both lists.\<close>

definition append_option :: "uint8 \<Rightarrow> uint64 \<Rightarrow> uint64 \<Rightarrow> SysInfo \<Rightarrow> SysInfo" where
  "append_option flag txv rxv u =
     u\<lparr>TxOptions := sappend (TxOptions u) [\<lparr>Kind = go_index tcpOptionsMap flag, OptValue = txv\<rparr>],
       RxOptions := sappend (RxOptions u) [\<lparr>Kind = go_index tcpOptionsMap flag, OptValue = rxv\<rparr>]\<rparr>"

definition unpack_option :: "uint8 \<Rightarrow> uint8 \<Rightarrow> SysInfo \<Rightarrow> SysInfo" where
  "unpack_option options flag u =
     (if options AND flag = 0 then u
      else if flag \<in> {TCPI_OPT_TIMESTAMPS, TCPI_OPT_SACK, TCPI_OPT_ECN, TCPI_OPT_ECN_SEEN,
                      TCPI_OPT_SYN_DATA, TCPI_OPT_USEC_TS, TCPI_OPT_TFO_CHILD}
        then append_option flag 0 0 u
      else if flag = TCPI_OPT_WSCALE
        then append_option flag (ucast (TxWindowScale u)) (ucast (RxWindowScale u)) u
      else u)"

definition unpack_fields :: "globals \<Rightarrow> RawTCPInfo \<Rightarrow> SysInfo" where
  "unpack_fields g packed =
     SysInfo_zero\<lparr>
       State := tcpi_state packed,
       StateName := tcpStateName (tcpi_state packed),
       CAState := tcpi_ca_state packed,
       Retransmits := tcpi_retransmits packed,
       Probes := tcpi_probes packed,
       Backoff := tcpi_backoff packed,
       TxWindowScale := tcpi_bitfield0 packed AND 0x0F,
       RxWindowScale := drop_bit 4 (tcpi_bitfield0 packed),
       DeliveryRateAppLimited := nullable False (kernelVersionIs g AtLeast_4_9) (tcpi_bitfield1 packed AND 1 = 1),
       FastOpenClientFail := nullable 0 (kernelVersionIs g AtLeast_5_5) (drop_bit 1 (tcpi_bitfield1 packed) AND 0x3),
       RTO := ucast (tcpi_rto packed) * timeFieldMultiplier,
       ATO := ucast (tcpi_ato packed) * timeFieldMultiplier,
       TxMSS := tcpi_snd_mss packed,
       RxMSS := tcpi_rcv_mss packed,
       UnAcked := tcpi_unacked packed,
       Sacked := tcpi_sacked packed,
       Lost := tcpi_lost packed,
       Retrans := tcpi_retrans packed,
       Fackets := tcpi_fackets packed,
       LastTxAt := ucast (tcpi_last_data_sent packed) * timeFieldMultiplier,
       LastTxAckAt := ucast (tcpi_last_ack_sent packed) * timeFieldMultiplier,
       LastRxAt := ucast (tcpi_last_data_recv packed) * timeFieldMultiplier,
       LastRxAckAt := ucast (tcpi_last_ack_recv packed) * timeFieldMultiplier,
       PMTU := tcpi_pmtu packed,
       RxSSThreshold := tcpi_rcv_ssthresh packed,
       RTT := ucast (tcpi_rtt packed) * timeFieldMultiplier,
       RTTVar := ucast (tcpi_rttvar packed) * timeFieldMultiplier,
       TxSSThreshold := tcpi_snd_ssthresh packed,
       TxCWindow := tcpi_snd_cwnd packed,
       AdvMSS := tcpi_advmss packed,
       Reordering := tcpi_reordering packed,
       RxRTT := ucast (tcpi_rcv_rtt packed) * timeFieldMultiplier,
       RxSpace := tcpi_rcv_space packed,
       TotalRetrans := tcpi_total_retrans packed,
       PacingRate := nullable 0 (kernelVersionIs g AtLeast_3_15) (tcpi_pacing_rate packed),
       MaxPacingRate := nullable 0 (kernelVersionIs g AtLeast_3_15) (tcpi_max_pacing_rate packed),
       BytesAcked := nullable 0 (kernelVersionIs g AtLeast_4_1) (tcpi_bytes_acked packed),
       BytesReceived := nullable 0 (kernelVersionIs g AtLeast_4_1) (tcpi_bytes_received packed),
       SegsOut := nullable 0 (kernelVersionIs g AtLeast_4_2) (tcpi_segs_out packed),
       SegsIn := nullable 0 (kernelVersionIs g AtLeast_4_2) (tcpi_segs_in packed),
       NotSentBytes := nullable 0 (kernelVersionIs g AtLeast_4_6) (tcpi_notsent_bytes packed),
       MinRTT := nullable 0 (kernelVersionIs g AtLeast_4_6) (ucast (tcpi_min_rtt packed) * timeFieldMultiplier),
       DataSegsIn := nullable 0 (kernelVersionIs g AtLeast_4_6) (tcpi_data_segs_in packed),
       DataSegsOut := nullable 0 (kernelVersionIs g AtLeast_4_6) (tcpi_data_segs_out packed),
       DeliveryRate := nullable 0 (kernelVersionIs g AtLeast_4_9) (tcpi_delivery_rate packed),
       BusyTime := nullable 0 (kernelVersionIs g AtLeast_4_10) (tcpi_busy_time packed),
       RxWindowLimited := nullable 0 (kernelVersionIs g AtLeast_4_10) (tcpi_rwnd_limited packed),
       TxBufferLimited := nullable 0 (kernelVersionIs g AtLeast_4_10) (tcpi_sndbuf_limited packed),
       Delivered := nullable 0 (kernelVersionIs g AtLeast_4_18) (tcpi_delivered packed),
       DeliveredCE := nullable 0 (kernelVersionIs g AtLeast_4_18) (tcpi_delivered_ce packed),
       BytesSent := nullable 0 (kernelVersionIs g AtLeast_4_19) (tcpi_bytes_sent packed),
       BytesRetrans := nullable 0 (kernelVersionIs g AtLeast_4_19) (tcpi_bytes_retrans packed),
       DSACKDups := nullable 0 (kernelVersionIs g AtLeast_4_19) (tcpi_dsack_dups packed),
       ReordSeen := nullable 0 (kernelVersionIs g AtLeast_4_19) (tcpi_reord_seen packed),
       RxOutOfOrder := nullable 0 (kernelVersionIs g AtLeast_5_4) (tcpi_rcv_ooopack packed),
       TxWindow := nullable 0 (kernelVersionIs g AtLeast_5_4) (tcpi_snd_wnd packed),
       RxWindow := nullable 0 (kernelVersionIs g AtLeast_6_2) (tcpi_rcv_wnd packed),
       Rehash := nullable 0 (kernelVersionIs g AtLeast_6_2) (tcpi_rehash packed),
       TotalRTO := nullable 0 (kernelVersionIs g AtLeast_6_2) (tcpi_total_rto packed),
       TotalRTORecoveries := nullable 0 (kernelVersionIs g AtLeast_6_2) (tcpi_total_rto_recoveries packed),
       TotalRTOTime := nullable 0 (kernelVersionIs g AtLeast_6_2) (tcpi_total_rto_time packed)\<rparr>"

definition Unpack :: "globals \<Rightarrow> RawTCPInfo \<Rightarrow> SysInfo" where
  "Unpack g packed = fold (unpack_option (tcpi_options packed)) tcpOptions (unpack_fields g packed)"

definition SysInfo_ToInfo :: "SysInfo \<Rightarrow> SysInfo Info" where
  "SysInfo_ToInfo s = Info_zero\<lparr>
     Info_State := StateName s,
     Info_TxOptions := TxOptions s,
     Info_RxOptions := RxOptions s,
     Info_TxMSS := ucast (TxMSS s),
     Info_RxMSS := ucast (RxMSS s),
     Info_RTT := RTT s,
     Info_RTTVar := RTTVar s,
     Info_RTO := RTO s,
     Info_ATO := ATO s,
     Info_LastTxAt := LastTxAt s,
     Info_LastRxAt := LastRxAt s,
     Info_LastTxAckAt := LastTxAckAt s,
     Info_LastRxAckAt := LastRxAckAt s,
     Info_RxWindow := ucast (RxSpace s),
     Info_TxSSThreshold := ucast (TxSSThreshold s),
     Info_RxSSThreshold := ucast (RxSSThreshold s),
     Info_TxWindowSegs := ucast (TxCWindow s),
     Info_Retransmits := ucast (TotalRetrans s),
     Info_Sys := Some s\<rparr>"

subsection \<open>Congestion control data\<close>

record TCPVegasInfo =
  Vegas_Enabled :: uint32
  Vegas_Rttcnt :: uint32
  Vegas_Rtt :: uint32
  Vegas_Minrtt :: uint32

record TCPBBRInfo =
  Bw_lo :: uint32
  Bw_hi :: uint32
  Min_rtt :: uint32
  Pacing_gain :: uint32
  Cwnd_gain :: uint32

record TCPDCTCPInfo =
  DCTCP_Enabled :: uint16
  Ce_state :: uint16
  Alpha :: uint32
  Ab_ecn :: uint32
  Ab_tot :: uint32

record TCPInfoPlusCC =
  TCPInfo :: RawTCPInfo
  CCAlg :: string
  CCVegas :: "TCPVegasInfo option"
  CCBBR :: "TCPBBRInfo option"
  CCDCTP :: "TCPDCTCPInfo option"

definition PlusCC_Unpack :: "globals \<Rightarrow> TCPInfoPlusCC \<Rightarrow> SysInfo" where
  "PlusCC_Unpack g t =
     (let sysInfo = (Unpack g (TCPInfo t))\<lparr>CCAlgorithm := CCAlg t\<rparr>
      in case (if CCAlg t = ''vegas'' then CCVegas t else None) of
        Some v \<Rightarrow>
          sysInfo\<lparr>CCVegasEnabled := valid (Vegas_Enabled v),
                  CCVegasRTTCnt := valid (Vegas_Rttcnt v),
                  CCVegasRTTMin := valid (ucast (Vegas_Minrtt v) * Microsecond),
                  CCVegasRTT := valid (ucast (Vegas_Rtt v) * Microsecond)\<rparr>
      | None \<Rightarrow> (case (if CCAlg t = ''bbr'' then CCBBR t else None) of
        Some b \<Rightarrow>
          sysInfo\<lparr>CCBBRBwHi := valid (Bw_hi b),
                  CCBBRBwLo := valid (Bw_lo b),
                  CCBBRMinRTT := valid (ucast (Min_rtt b) * Microsecond),
                  CCBBRPacingGain := valid (Pacing_gain b),
                  CCBBRCWindowGain := valid (Cwnd_gain b)\<rparr>
      | None \<Rightarrow> (case (if CCAlg t = ''dctcp'' then CCDCTP t else None) of
        Some d \<Rightarrow>
          sysInfo\<lparr>CCDCTCPEnabled := valid (DCTCP_Enabled d \<noteq> 0),
                  CCDCTCPCEState := valid (Ce_state d),
                  CCDCTCPAlpha := valid (Alpha d),
                  CCDCTCPABECN := valid (Ab_ecn d),
                  CCDCTCPABTOT := valid (Ab_tot d)\<rparr>
      | None \<Rightarrow> sysInfo)))"

subsection \<open>Reading from the kernel\<close>

text \<open>
  \<open>sys_getsockopt fd len\<close> is the raw call for \<open>TCP_INFO\<close>: an error number, 0 for success, and the
  bytes written at the start of the buffer. \<open>sys_errno\<close> is the error value of an error number.
\<close>

record linux_sys =
  sys_getsockopt :: "nat \<Rightarrow> nat \<Rightarrow> nat \<times> uint8 list"
  sys_errno :: "nat \<Rightarrow> goerror"
  sys_congestion :: "nat \<Rightarrow> goerror + string"
  sys_vegas :: "nat \<Rightarrow> goerror + TCPVegasInfo"
  sys_bbr :: "nat \<Rightarrow> goerror + TCPBBRInfo"
  sys_dctcp :: "nat \<Rightarrow> goerror + TCPDCTCPInfo"

definition sizeof_RawTCPInfo :: nat where
  "sizeof_RawTCPInfo = 248"

text \<open>The zeroed variable \<open>value\<close> after the kernel has written to it.\<close>

definition fill_buffer :: "uint8 list \<Rightarrow> uint8 list" where
  "fill_buffer written = written @ replicate (sizeof_RawTCPInfo - length written) 0"

definition GetRawTCPInfo :: "linux_sys \<Rightarrow> globals \<Rightarrow> nat \<Rightarrow> goerror + RawTCPInfo" where
  "GetRawTCPInfo sys g fd =
     (case sys_getsockopt sys fd (sizeOfRawTCPInfo g) of
        (errNo, written) \<Rightarrow>
          if errNo \<noteq> 0 then Inl (sys_errno sys errNo)
          else Inr (raw_view (fill_buffer written)))"

text \<open>The variant for 386 (\<open>tcpinfo_linux_386.go\<close>), which goes through \<open>socketcall\<close>. Of the two pointers in
  the argument array the kernel is given what they point to: the length, and the buffer to fill.\<close>

definition SOL_TCP :: nat where "SOL_TCP = 6"
definition TCP_INFO :: nat where "TCP_INFO = 11"
definition netGetSockOpt :: nat where "netGetSockOpt = 15"

definition GetRawTCPInfo_386 ::
  "(nat \<Rightarrow> nat list \<Rightarrow> nat \<times> uint8 list) \<Rightarrow> (nat \<Rightarrow> goerror) \<Rightarrow> globals \<Rightarrow> nat \<Rightarrow> goerror + RawTCPInfo" where
  "GetRawTCPInfo_386 socketcall errno g fd =
     (let args = [fd, SOL_TCP, TCP_INFO, sizeOfRawTCPInfo g] in
      case socketcall netGetSockOpt args of
        (errNo, written) \<Rightarrow>
          if errNo \<noteq> 0 then Inl (errno errNo)
          else Inr (raw_view (fill_buffer written)))"

definition GetTCPCongestionAlgorithm :: "linux_sys \<Rightarrow> nat \<Rightarrow> goerror + string" where
  "GetTCPCongestionAlgorithm sys fd =
     (case sys_congestion sys fd of Inl e \<Rightarrow> Inl e | Inr algo \<Rightarrow> Inr algo)"

definition ErrKernelTooOld :: goerror where
  "ErrKernelTooOld = errors_New ''tcp_info is not available on Linux prior to kernel 2.6.2''"

definition GetTCPInfo :: "linux_sys \<Rightarrow> globals \<Rightarrow> nat \<Rightarrow> SysInfo option \<times> goerror option" where
  "GetTCPInfo sys g fd =
     (if \<not> kernelVersionIs g AtLeast_2_6_2 then (None, Some ErrKernelTooOld)
      else (case GetRawTCPInfo sys g fd of
        Inl e \<Rightarrow> (None, Some e)
      | Inr raw \<Rightarrow>
          let res = \<lparr>TCPInfo = raw, CCAlg = '''', CCVegas = None, CCBBR = None, CCDCTP = None\<rparr>
          in (case GetTCPCongestionAlgorithm sys fd of
            Inl e \<Rightarrow> (Some (PlusCC_Unpack g res), Some e)
          | Inr alg \<Rightarrow>
              let res = res\<lparr>CCAlg := alg\<rparr>
              in if alg = ''vegas'' then
                   (case sys_vegas sys fd of
                      Inl e \<Rightarrow> (Some (PlusCC_Unpack g res), Some e)
                    | Inr v \<Rightarrow> (Some (PlusCC_Unpack g (res\<lparr>CCVegas := Some v\<rparr>)), None))
                 else if alg = ''bbr'' then
                   (case sys_bbr sys fd of
                      Inl e \<Rightarrow> (Some (PlusCC_Unpack g res), Some e)
                    | Inr v \<Rightarrow> (Some (PlusCC_Unpack g (res\<lparr>CCBBR := Some v\<rparr>)), None))
                 else if alg = ''dctcp'' then
                   (case sys_dctcp sys fd of
                      Inl e \<Rightarrow> (Some (PlusCC_Unpack g res), Some e)
                    | Inr v \<Rightarrow> (Some (PlusCC_Unpack g (res\<lparr>CCDCTP := Some v\<rparr>)), None))
                 else (Some (PlusCC_Unpack g res), None))))"

definition Supported :: "globals \<Rightarrow> bool" where
  "Supported g = kernelVersionIs g AtLeast_2_6_2"

subsection \<open>Warnings\<close>

definition SysInfo_Warnings :: "SysInfo \<Rightarrow> string slice" where
  "SysInfo_Warnings s =
     (let warns = None;
          warns = warn_if (Valid (BytesRetrans s) \<and> Value (BytesRetrans s) > 0)
                    (''retransBytes='' @ FormatUint (Value (BytesRetrans s))) warns;
          warns = warn_if (TotalRetrans s > 0)
                    (''retransTotal='' @ FormatUint (ucast (TotalRetrans s))) warns;
          warns = warn_if (Backoff s > 0)
                    (''backoff='' @ FormatUint (ucast (Backoff s))) warns;
          warns = warn_if (Valid (RxOutOfOrder s) \<and> Value (RxOutOfOrder s) > 0)
                    (''outOfOrderBytes='' @ FormatUint (ucast (Value (RxOutOfOrder s)))) warns;
          warns = warn_if (Valid (TxBufferLimited s) \<and> Value (TxBufferLimited s) > 0)
                    (''txSendBufferLimited='' @ FormatUint (Value (TxBufferLimited s))) warns;
          warns = warn_if (Valid (RxWindowLimited s) \<and> Value (RxWindowLimited s) > 0)
                    (''rxWindowLimited='' @ FormatUint (Value (RxWindowLimited s))) warns
      in warns)"

definition linux_pkg :: "linux_sys \<Rightarrow> globals \<Rightarrow> SysInfo tcpinfo_pkg" where
  "linux_pkg sys g = \<lparr>pkg_Supported = Supported g, pkg_GetTCPInfo = GetTCPInfo sys g,
     pkg_Clone = SysInfo_Clone, pkg_ToInfo = SysInfo_ToInfo, pkg_ToMap = SysInfo_ToMap,
     pkg_Warnings = SysInfo_Warnings\<rparr>"

text \<open>Where the record holds its option lists.\<close>

definition linux_layout :: "SysInfo layout" where
  "linux_layout = \<lparr>lay_Tx = TxOptions, lay_Rx = RxOptions,
     lay_with = (\<lambda>tx rx s. s\<lparr>TxOptions := tx, RxOptions := rx\<rparr>)\<rparr>"

subsection \<open>Facts on the option lists\<close>

definition option_of :: "uint8 \<Rightarrow> uint8 \<Rightarrow> Option" where
  "option_of scale flag =
     \<lparr>Kind = go_index tcpOptionsMap flag,
      OptValue = (if flag = TCPI_OPT_WSCALE then ucast scale else 0)\<rparr>"

definition set_flags :: "uint8 \<Rightarrow> uint8 list" where
  "set_flags options = filter (\<lambda>flag. options AND flag \<noteq> 0) tcpOptions"

lemma unpack_option_known:
  "flag \<in> set tcpOptions \<Longrightarrow>
     unpack_option options flag u =
       (if options AND flag = 0 then u
        else u\<lparr>TxOptions := sappend (TxOptions u) [option_of (TxWindowScale u) flag],
               RxOptions := sappend (RxOptions u) [option_of (RxWindowScale u) flag]\<rparr>)"
  by (auto simp: unpack_option_def append_option_def option_of_def tcpOptions_def tcp_opt_defs)

lemma fold_unpack_option:
  "set flags \<subseteq> set tcpOptions \<Longrightarrow>
     fold (unpack_option options) flags u =
       u\<lparr>TxOptions := sappend (TxOptions u) (map (option_of (TxWindowScale u)) (filter (\<lambda>f. options AND f \<noteq> 0) flags)),
         RxOptions := sappend (RxOptions u) (map (option_of (RxWindowScale u)) (filter (\<lambda>f. options AND f \<noteq> 0) flags))\<rparr>"
  by (induction flags arbitrary: u) (auto simp: unpack_option_known)

lemma unpack_fields_options [simp]:
  "TxOptions (unpack_fields g p) = None" "RxOptions (unpack_fields g p) = None"
  by (simp_all add: unpack_fields_def SysInfo_zero_def)

lemma Unpack_eq:
  "Unpack g p = (unpack_fields g p)\<lparr>
     TxOptions := sappend None (map (option_of (TxWindowScale (unpack_fields g p))) (set_flags (tcpi_options p))),
     RxOptions := sappend None (map (option_of (RxWindowScale (unpack_fields g p))) (set_flags (tcpi_options p)))\<rparr>"
  unfolding Unpack_def set_flags_def by (subst fold_unpack_option) simp_all

lemma flags_powers: "tcpOptions = map (\<lambda>n. 2 ^ n) [0..<8]"
  by (simp add: tcpOptions_def tcp_opt_defs upt_conv_Cons)

lemma set_flags_determine: "options = foldr (OR) (set_flags options) 0"
proof (rule bit_eqI)
  fix n
  assume "possible_bit TYPE(uint8) n"
  then have n: "n < 8" by simp
  have b: "bit (foldr (OR) fs 0) n \<longleftrightarrow> (\<exists>f\<in>set fs. bit f n)" for fs :: "uint8 list"
    by (induction fs) (auto simp: bit_or_iff)
  have "bit (foldr (OR) (set_flags options) 0) n \<longleftrightarrow> (\<exists>m<8. bit options m \<and> bit ((2::uint8) ^ m) n)"
    by (auto simp: b set_flags_def flags_powers and_exp_eq_0_iff_not_bit)
  also have "\<dots> \<longleftrightarrow> bit options n" using n by (auto simp: bit_exp_iff)
  finally show "bit options n = bit (foldr (OR) (set_flags options) 0) n" by simp
qed

lemma option_names_inj: "inj_on (go_index tcpOptionsMap) (set tcpOptions)"
  by (simp add: inj_on_def tcpOptions_def tcpOptionsMap_def go_index_def tcp_opt_defs)

lemma option_of_inj:
  assumes "set fs \<subseteq> set tcpOptions" and "set gs \<subseteq> set tcpOptions"
    and "map (option_of a) fs = map (option_of b) gs"
  shows "fs = gs"
proof (rule map_inj_on)
  show "inj_on (go_index tcpOptionsMap) (set fs \<union> set gs)"
    using assms(1,2) by (intro inj_on_subset [OF option_names_inj]) simp
  from assms(3) have "map Kind (map (option_of a) fs) = map Kind (map (option_of b) gs)" by simp
  then show "map (go_index tcpOptionsMap) fs = map (go_index tcpOptionsMap) gs"
    by (simp add: option_of_def o_def)
qed

lemma set_flags_subset: "set (set_flags options) \<subseteq> set tcpOptions"
  by (auto simp: set_flags_def)

lemma bitfield0_split:
  fixes b :: uint8
  shows "unat (b AND 0x0F) + 16 * unat (drop_bit 4 b) = unat b" "unat (b AND 0x0F) < 16" "unat (drop_bit 4 b) < 16"
proof -
  have "b AND 0x0F = take_bit 4 b" by (simp add: take_bit_eq_mask mask_eq_decr_exp)
  then have lo: "unat (b AND 0x0F) = unat b mod 16" by (simp add: take_bit_eq_mod unat_mod)
  have hi: "unat (drop_bit 4 b) = unat b div 16" by (simp add: unsigned_drop_bit_eq drop_bit_eq_div unat_div)
  show "unat (b AND 0x0F) + 16 * unat (drop_bit 4 b) = unat b" "unat (b AND 0x0F) < 16"
    by (simp_all add: lo hi)
  have "unat b < 256" using unsigned_less [of b, where ?'a = nat] by simp
  then show "unat (drop_bit 4 b) < 16" by (simp add: hi)
qed

subsection \<open>Facts on maps and warnings of SysInfo\<close>

lemma map_optional_keys_distinct: "distinct (map fst (map_optional s))"
  by (simp add: map_optional_def)

lemma map_fixed_keys_distinct: "distinct (map fst (map_fixed s))"
  by (simp add: map_fixed_def)

lemma map_fixed_keys: "map fst (map_fixed s) = map fst (map_fixed t)"
  by (simp add: map_fixed_def)

lemma map_optional_Clone: "map_optional (SysInfo_Clone s) = map_optional s"
  by (simp add: map_optional_def SysInfo_Clone_def)

lemma SysInfo_ToMap_lookup:
  "map_of (SysInfo_ToMap s) k =
     (case map_of (map_optional s) k of Some (Some v) \<Rightarrow> Some v | _ \<Rightarrow> map_of (map_fixed s) k)"
  unfolding SysInfo_ToMap_def by (rule put_all_lookup) (rule map_optional_keys_distinct)

text \<open>Where \<open>socketcall\<close> with that number is \<open>getsockopt\<close>, both variants read the same.\<close>

lemma GetRawTCPInfo_386_eq:
  assumes "\<And>fd len. socketcall netGetSockOpt [fd, SOL_TCP, TCP_INFO, len] = sys_getsockopt sys fd len"
  shows "GetRawTCPInfo_386 socketcall (sys_errno sys) g fd = GetRawTCPInfo sys g fd"
  by (simp add: GetRawTCPInfo_386_def GetRawTCPInfo_def assms)

interpretation lx: tcpinfo_answers "linux_pkg sys g"
proof unfold_locales
  fix s
  show "pkg_Warnings (linux_pkg sys g) (pkg_Clone (linux_pkg sys g) s) = pkg_Warnings (linux_pkg sys g) s"
    by (simp add: linux_pkg_def SysInfo_Warnings_def SysInfo_Clone_def)
  show "pkg_Clone (linux_pkg sys g) (pkg_Clone (linux_pkg sys g) s) = pkg_Clone (linux_pkg sys g) s"
    by (simp add: linux_pkg_def SysInfo_Clone_def cloneOptions_def sappend_def split: option.splits)
  show "map fst (pkg_ToMap (linux_pkg sys g) (pkg_Clone (linux_pkg sys g) s)) = map fst (pkg_ToMap (linux_pkg sys g) s)"
    unfolding linux_pkg_def tcpinfo_pkg.simps SysInfo_ToMap_def map_optional_Clone
    by (rule put_all_keys) (rule map_fixed_keys, rule refl)
  show "distinct (map fst (pkg_ToMap (linux_pkg sys g) s))"
    unfolding linux_pkg_def tcpinfo_pkg.simps SysInfo_ToMap_def
    by (rule put_all_distinct) (rule map_fixed_keys_distinct)
  show "Info_Sys (pkg_ToInfo (linux_pkg sys g) s) = Some s \<or> pkg_ToInfo (linux_pkg sys g) s = Info_zero"
    by (simp add: linux_pkg_def SysInfo_ToInfo_def)
  show "pkg_GetTCPInfo (linux_pkg sys g) fd \<noteq> (None, None)" for fd
    by (simp add: linux_pkg_def GetTCPInfo_def Let_def split: sum.split)
qed

interpretation ll: sys_layout linux_layout SysInfo_Clone SysInfo_ToInfo
  by unfold_locales (simp_all add: linux_layout_def SysInfo_Clone_def SysInfo_ToInfo_def)

subsection \<open>The JSON form\<close>

lemma linux_plain: "plain_options (AMap (SysInfo_ToMap s)) \<longleftrightarrow> plain_kinds (TxOptions s) \<and> plain_kinds (RxOptions s)"
proof
  have "map_of (SysInfo_ToMap s) ''txOptions'' = Some (AOptions (TxOptions s))"
    "map_of (SysInfo_ToMap s) ''rxOptions'' = Some (AOptions (RxOptions s))"
    by (simp_all add: SysInfo_ToMap_lookup map_optional_def map_fixed_def)
  then have "(''txOptions'', AOptions (TxOptions s)) \<in> set (SysInfo_ToMap s)" "(''rxOptions'', AOptions (RxOptions s)) \<in> set (SysInfo_ToMap s)"
    by (auto dest: map_of_SomeD)
  then show "plain_options (AMap (SysInfo_ToMap s)) \<Longrightarrow> plain_kinds (TxOptions s) \<and> plain_kinds (RxOptions s)"
    unfolding plain_map by force
next
  assume kinds: "plain_kinds (TxOptions s) \<and> plain_kinds (RxOptions s)"
  show "plain_options (AMap (SysInfo_ToMap s))"
    unfolding SysInfo_ToMap_def
  proof (rule plain_put_all)
    show "plain_options (AMap (map_fixed s))" using kinds by (simp add: map_fixed_def plain_map)
    have opt: "(\<forall>v. opt mk n = Some v \<longrightarrow> plain_options v) \<longleftrightarrow> (Valid n \<longrightarrow> plain_options (mk (Value n)))" for mk and n :: "'a Nullable"
      by (simp add: opt_def)
    have "list_all (\<lambda>e. \<forall>v. snd e = Some v \<longrightarrow> plain_options v) (map_optional s)"
      by (simp add: map_optional_def opt)
    then show "plain_options v" if "(k, Some v) \<in> set (map_optional s)" for k v
      using that by (auto simp: list_all_iff)
  qed
qed

lemma PlusCC_Unpack_options [simp]:
  "TxOptions (PlusCC_Unpack g t) = TxOptions (Unpack g (TCPInfo t))" "RxOptions (PlusCC_Unpack g t) = RxOptions (Unpack g (TCPInfo t))"
  by (simp_all add: PlusCC_Unpack_def Let_def split: option.splits)

lemma GetTCPInfo_unpacks: "GetTCPInfo sys g fd = (Some s, e) \<Longrightarrow> \<exists>t. s = PlusCC_Unpack g t"
  by (auto simp: GetTCPInfo_def Let_def split: if_splits sum.splits)

lemma option_of_plain: "flag \<in> set tcpOptions \<Longrightarrow> list_all plain_char (Kind (option_of scale flag))"
  by (auto simp: tcpOptions_def option_of_def go_index_def tcpOptionsMap_def plain_char_def tcp_opt_defs)

lemma Unpack_plain: "plain_kinds (TxOptions (Unpack g p)) \<and> plain_kinds (RxOptions (Unpack g p))"
  by (auto simp: Unpack_eq set_flags_def list_all_iff intro!: option_of_plain [unfolded list_all_iff, rule_format])

interpretation lj: tcpinfo_json "linux_pkg sys g"
proof unfold_locales
  fix fd s e
  show "plain_options (AMap (pkg_ToMap (linux_pkg sys g) s))" if "pkg_GetTCPInfo (linux_pkg sys g) fd = (Some s, e)"
    using that GetTCPInfo_unpacks [of sys g fd s e] Unpack_plain [of g] by (auto simp: linux_pkg_def linux_plain )
  show "plain_options (AMap (pkg_ToMap (linux_pkg sys g) (pkg_Clone (linux_pkg sys g) s)))"
    if "plain_options (AMap (pkg_ToMap (linux_pkg sys g) s))"
    using that by (simp add: linux_pkg_def linux_plain SysInfo_Clone_def)
  show "plain_options (AMap (Info_ToMap (pkg_ToMap (linux_pkg sys g)) (pkg_ToInfo (linux_pkg sys g) s)))"
    if "plain_options (AMap (pkg_ToMap (linux_pkg sys g) s))"
    using that by (simp add: linux_pkg_def linux_plain plain_Info SysInfo_ToInfo_def)
qed

end
