(* ===== verification/Linux_Read.thy ===== *)
theory Linux_Read
  imports Tcp_Info_Linux
begin

unbundle bit_operations_syntax

text \<open>
  What reading \<open>TCP_INFO\<close> on Linux guarantees: whether the bytes asked for cover the fields that
  the version flags declare present, what the unpacked record says of the kernel's struct, and
  what \<open>GetTCPInfo\<close> returns on its error paths.

  The kernel's side is a hypothesis of the theorems that need it: \<open>getsockopt\<close> copies the first
  \<open>len\<close> bytes of its own struct \<open>full\<close>, as the system call is documented to do.
\<close>

subsection \<open>Facts on the buffer\<close>

lemma le_nat_zeros: "le_nat (bs @ replicate k 0) = le_nat bs"
proof (induction bs)
  case Nil
  show ?case by (induction k) auto
qed simp

lemma mem_fill_buffer: "mem off n (fill_buffer bs) = mem off n bs"
proof -
  have "take n (drop off (bs @ replicate k 0)) =
      take n (drop off bs) @ replicate (min (n - (length bs - off)) (k - (off - length bs))) 0" for k
    by (simp add: take_replicate)
  then show ?thesis by (simp add: mem_def fill_buffer_def le_nat_zeros)
qed

lemma mem_take: "off + n \<le> e \<Longrightarrow> mem off n (take e bs) = mem off n bs"
  by (simp add: mem_def drop_take min_def)

lemma mem_take_beyond: "e \<le> off \<Longrightarrow> mem off n (take e bs) = 0"
  by (simp add: mem_def)

lemma raw_view_fill_buffer: "raw_view (fill_buffer bs) = raw_view bs"
  by (simp only: raw_view_def mem_fill_buffer)

subsection \<open>What the flags promise and what the size delivers\<close>

text \<open>The end offset of the fields that \<open>Unpack\<close> reads under a flag.\<close>

fun group_end :: "kflag \<Rightarrow> nat" where
  "group_end AtLeast_2_6_2 = 104"
| "group_end AtLeast_3_15 = 120"
| "group_end AtLeast_4_1 = 136"
| "group_end AtLeast_4_2 = 144"
| "group_end AtLeast_4_6 = 160"
| "group_end AtLeast_4_9 = 168"
| "group_end AtLeast_4_10 = 192"
| "group_end AtLeast_4_18 = 200"
| "group_end AtLeast_4_19 = 224"
| "group_end AtLeast_5_4 = 232"
| "group_end AtLeast_5_5 = 8"
| "group_end AtLeast_6_2 = 248"
| "group_end AtLeast_6_7 = 0"

lemma nullable_cong: "(b \<Longrightarrow> v = v') \<Longrightarrow> nullable z b v = nullable z b v'"
  by (simp add: nullable_def)

lemma unpack_fields_take:
  assumes "104 \<le> e" and "\<And>f. kernelVersionIs g f \<Longrightarrow> group_end f \<le> e"
  shows "unpack_fields g (raw_view (take e bs)) = unpack_fields g (raw_view bs)"
proof -
  have r: "mem off n (take e bs) = mem off n bs" if "kernelVersionIs g f" "off + n \<le> group_end f" for off n f
    using assms(2) [OF that(1)] that(2) by (simp add: mem_take)
  have r0: "mem off n (take e bs) = mem off n bs" if "off + n \<le> 104" for off n
    using assms(1) that by (simp add: mem_take)
  note rs = r [of AtLeast_3_15] r [of AtLeast_4_1] r [of AtLeast_4_2] r [of AtLeast_4_6] r [of AtLeast_4_9]
    r [of AtLeast_4_10] r [of AtLeast_4_18] r [of AtLeast_4_19] r [of AtLeast_5_4] r [of AtLeast_6_2]
  show ?thesis
    unfolding unpack_fields_def raw_view_def RawTCPInfo.simps
    by (simp add: r0 rs cong: nullable_cong)
qed

lemma Unpack_take:
  assumes "104 \<le> e" and "\<And>f. kernelVersionIs g f \<Longrightarrow> group_end f \<le> e"
  shows "Unpack g (raw_view (take e bs)) = Unpack g (raw_view bs)"
proof -
  have "tcpi_options (raw_view (take e bs)) = tcpi_options (raw_view bs)"
    using assms(1) by (simp add: raw_view_def mem_take)
  then show ?thesis by (simp add: Unpack_def unpack_fields_take [OF assms])
qed

text \<open>The entry that decides the size is the last one the version reaches.\<close>

lemma adapt_size:
  assumes "(2, 6, 2) \<le> running gkv g"
  obtains i where "i < 13"
    and "sizeOfRawTCPInfo (adaptToKernelVersion gkv g) = Size (tcpInfoSizes ! i)"
    and "\<And>j. j < 13 \<Longrightarrow> j \<le> i \<longleftrightarrow> flag_threshold (Flag (tcpInfoSizes ! j)) \<le> running gkv g"
proof -
  let ?v = "resolve_version gkv g"
  let ?r = "reached tcpInfoSizes ?v 13"
  have iff: "j < ?r \<longleftrightarrow> flag_threshold (Flag (tcpInfoSizes ! j)) \<le> running gkv g" if "j < 13" for j
    using reached_iff [OF tcpInfoSizes_sorted, of 13 j ?v] that flag_threshold_table [OF that]
    by (simp add: kv_at_least_iff)
  have "Flag (tcpInfoSizes ! 0) = AtLeast_2_6_2" by (simp add: tcpInfoSizes_def)
  then have pos: "0 < ?r" using iff [of 0] assms by simp
  have le: "?r \<le> 13" by (rule reached_le)
  show thesis
  proof (rule that [of "?r - 1"])
    show "?r - 1 < 13" using pos le by linarith
    show "sizeOfRawTCPInfo (adaptToKernelVersion gkv g) = Size (tcpInfoSizes ! (?r - 1))"
      using pos by (simp add: adaptToKernelVersion_def Let_def adapt_loop_size)
    show "j \<le> ?r - 1 \<longleftrightarrow> flag_threshold (Flag (tcpInfoSizes ! j)) \<le> running gkv g" if "j < 13" for j
      using iff [OF that] pos by linarith
  qed
qed

lemma sizes_cover:
  "i < 13 \<Longrightarrow> i \<noteq> 5 \<Longrightarrow> i \<noteq> 11 \<Longrightarrow> j \<le> i \<Longrightarrow>
     group_end (Flag (tcpInfoSizes ! j)) \<le> Size (tcpInfoSizes ! i)"
proof -
  have "list_all (\<lambda>i. i = 5 \<or> i = 11 \<or>
      list_all (\<lambda>j. group_end (Flag (tcpInfoSizes ! j)) \<le> Size (tcpInfoSizes ! i)) [0..<Suc i]) [0..<13]"
    by code_simp
  then show "i < 13 \<Longrightarrow> i \<noteq> 5 \<Longrightarrow> i \<noteq> 11 \<Longrightarrow> j \<le> i \<Longrightarrow>
      group_end (Flag (tcpInfoSizes ! j)) \<le> Size (tcpInfoSizes ! i)"
    by (cases "j = i") (auto simp: list_all_iff)
qed

lemma entry_flags:
  "Flag (tcpInfoSizes ! 5) = AtLeast_4_9" "Flag (tcpInfoSizes ! 6) = AtLeast_4_10"
  "Flag (tcpInfoSizes ! 11) = AtLeast_6_2" "Flag (tcpInfoSizes ! 12) = AtLeast_6_7"
  "Size (tcpInfoSizes ! 5) = 148" "Size (tcpInfoSizes ! 11) = 240"
  by (simp_all add: tcpInfoSizes_def)

lemma adapt_covers:
  assumes "(2, 6, 2) \<le> running gkv g0"
    and "running gkv g0 < (4, 9, 0) \<or> (4, 10, 0) \<le> running gkv g0"
    and "running gkv g0 < (6, 2, 0) \<or> (6, 7, 0) \<le> running gkv g0"
    and "kernelVersionIs (adaptToKernelVersion gkv g0) f"
  shows "group_end f \<le> sizeOfRawTCPInfo (adaptToKernelVersion gkv g0)"
proof -
  obtain i where i: "i < 13"
    and size: "sizeOfRawTCPInfo (adaptToKernelVersion gkv g0) = Size (tcpInfoSizes ! i)"
    and iff: "\<And>j. j < 13 \<Longrightarrow> j \<le> i \<longleftrightarrow> flag_threshold (Flag (tcpInfoSizes ! j)) \<le> running gkv g0"
    using adapt_size [OF assms(1)] by blast
  have "i \<noteq> 5" using iff [of 5] iff [of 6] assms(2) by (auto simp: entry_flags)
  moreover have "i \<noteq> 11" using iff [of 11] iff [of 12] assms(3) by (auto simp: entry_flags)
  moreover obtain j where "j < 13" and f: "Flag (tcpInfoSizes ! j) = f" using all_flags [of f] by blast
  moreover from this have "j \<le> i" using iff [of j] assms(4) by (simp add: adapt_flags_exact)
  ultimately show ?thesis unfolding size f [symmetric] by (intro sizes_cover i)
qed

subsection \<open>A concrete kernel for the witnesses\<close>

definition demo_sys :: "nat \<Rightarrow> linux_sys" where
  "demo_sys n = \<lparr>sys_getsockopt = (\<lambda>fd len. (0, take len (replicate n 7))), sys_errno = (\<lambda>n. errors_New ''errno''),
     sys_congestion = (\<lambda>fd. Inr ''cubic''), sys_vegas = (\<lambda>fd. Inl (errors_New ''vegas'')),
     sys_bbr = (\<lambda>fd. Inl (errors_New ''bbr'')), sys_dctcp = (\<lambda>fd. Inl (errors_New ''dctcp''))\<rparr>"

lemma demo_run: "running (Inr (kversion a b c)) initial_globals = (a, b, c)"
  by (simp add: resolve_version_def initial_globals_def kversion_def version_key_def)

lemma demo_getsockopt [simp]: "sys_getsockopt (demo_sys n) fd len = (0, take len (replicate n 7))"
  by (simp add: demo_sys_def)

lemma demo_GetRaw: "\<exists>raw. GetRawTCPInfo (demo_sys n) g fd = Inr raw"
  by (simp add: GetRawTCPInfo_def)

subsection \<open>Properties of the read size\<close>

text \<open>C22: on every kernel from 2.6.2 on, except 4.9 and 6.2 to 6.6, reading only the first
  \<open>sizeOfRawTCPInfo\<close> bytes loses nothing: the unpacked record is the one that the kernel's
  full struct would give.\<close>

theorem read_size_sufficient:
  assumes "g = adaptToKernelVersion gkv g0" and "(2, 6, 2) \<le> running gkv g0"
    and "running gkv g0 < (4, 9, 0) \<or> (4, 10, 0) \<le> running gkv g0"
    and "running gkv g0 < (6, 2, 0) \<or> (6, 7, 0) \<le> running gkv g0"
    and "sys_getsockopt sys fd (sizeOfRawTCPInfo g) = (0, take (sizeOfRawTCPInfo g) full)"
  shows "\<exists>raw. GetRawTCPInfo sys g fd = Inr raw \<and> Unpack g raw = Unpack g (raw_view full)"
proof -
  have cover: "group_end f \<le> sizeOfRawTCPInfo g" if "kernelVersionIs g f" for f
    using adapt_covers [OF assms(2-4)] that assms(1) by simp
  moreover have "kernelVersionIs g AtLeast_2_6_2"
    using assms(1,2) by (simp add: adapt_flags_exact)
  then have "104 \<le> sizeOfRawTCPInfo g" using cover by fastforce
  ultimately have "Unpack g (raw_view (take (sizeOfRawTCPInfo g) full)) = Unpack g (raw_view full)"
    by (intro Unpack_take)
  then show ?thesis using assms(5) by (simp add: GetRawTCPInfo_def raw_view_fill_buffer)
qed

theorem read_size_sufficient_witness:
  "\<exists>raw. let g = adaptToKernelVersion (Inr (kversion 5 15 0)) initial_globals in
     GetRawTCPInfo (demo_sys 248) g 3 = Inr raw \<and> Unpack g raw = Unpack g (raw_view (replicate 248 7))"
  using read_size_sufficient [OF refl, of "Inr (kversion 5 15 0)" initial_globals "demo_sys 248" 3 "replicate 248 7"]
  by (simp add: demo_run Let_def)

text \<open>C39: on a 4.9 kernel the size asked for ends before the fields that the flags declare
  present: minimum RTT, data segment counts and delivery rate are reported as valid and zero
  whatever the kernel has.\<close>

theorem read_size_4_9_truncates:
  assumes "g = adaptToKernelVersion gkv g0"
    and "(4, 9, 0) \<le> running gkv g0" and "running gkv g0 < (4, 10, 0)"
    and "sys_getsockopt sys fd (sizeOfRawTCPInfo g) = (0, take (sizeOfRawTCPInfo g) full)"
    and "GetRawTCPInfo sys g fd = Inr raw"
  shows "MinRTT (Unpack g raw) = valid 0 \<and> DataSegsIn (Unpack g raw) = valid 0
       \<and> DataSegsOut (Unpack g raw) = valid 0 \<and> DeliveryRate (Unpack g raw) = valid 0"
proof -
  have "(2, 6, 2) \<le> running gkv g0" using assms(2) by (rule order_trans [rotated]) simp
  then obtain i where i: "i < 13" and size: "sizeOfRawTCPInfo g = Size (tcpInfoSizes ! i)"
    and iff: "\<And>j. j < 13 \<Longrightarrow> j \<le> i \<longleftrightarrow> flag_threshold (Flag (tcpInfoSizes ! j)) \<le> running gkv g0"
    using adapt_size assms(1) by metis
  have "i = 5" using iff [of 5] iff [of 6] assms(2,3) by (auto simp: entry_flags)
  then have raw: "raw = raw_view (take 148 full)"
    using assms(4,5) size by (simp add: GetRawTCPInfo_def raw_view_fill_buffer entry_flags)
  have "(4, 6, 0) \<le> running gkv g0" using assms(2) by (rule order_trans [rotated]) simp
  then have "kernelVersionIs g AtLeast_4_6" "kernelVersionIs g AtLeast_4_9"
    using assms(1,2) by (simp_all add: adapt_flags_exact)
  then show ?thesis
    by (simp add: Unpack_eq unpack_fields_def raw raw_view_def mem_take_beyond nullable_def)
qed

theorem read_size_4_9_truncates_witness:
  "\<exists>raw. let g = adaptToKernelVersion (Inr (kversion 4 9 337)) initial_globals in
     GetRawTCPInfo (demo_sys 248) g 3 = Inr raw \<and> DeliveryRate (Unpack g raw) = valid 0"
proof -
  let ?g = "adaptToKernelVersion (Inr (kversion 4 9 337)) initial_globals"
  obtain raw where raw: "GetRawTCPInfo (demo_sys 248) ?g 3 = Inr raw" using demo_GetRaw by blast
  have "DeliveryRate (Unpack ?g raw) = valid 0"
    using read_size_4_9_truncates [OF refl _ _ _ raw, of "replicate 248 7"]
    by (simp add: demo_run)
  with raw show ?thesis by (auto simp: Let_def)
qed

text \<open>C40: on kernels 6.2 to 6.6 the three RTO totals, which the kernel has only from 6.7 on, are
  reported as valid and zero.\<close>

theorem read_rto_totals_6_2:
  assumes "g = adaptToKernelVersion gkv g0"
    and "(6, 2, 0) \<le> running gkv g0" and "running gkv g0 < (6, 7, 0)"
    and "sys_getsockopt sys fd (sizeOfRawTCPInfo g) = (0, take (sizeOfRawTCPInfo g) full)"
    and "GetRawTCPInfo sys g fd = Inr raw"
  shows "TotalRTO (Unpack g raw) = valid 0 \<and> TotalRTORecoveries (Unpack g raw) = valid 0
       \<and> TotalRTOTime (Unpack g raw) = valid 0"
proof -
  have "(2, 6, 2) \<le> running gkv g0" using assms(2) by (rule order_trans [rotated]) simp
  then obtain i where i: "i < 13" and size: "sizeOfRawTCPInfo g = Size (tcpInfoSizes ! i)"
    and iff: "\<And>j. j < 13 \<Longrightarrow> j \<le> i \<longleftrightarrow> flag_threshold (Flag (tcpInfoSizes ! j)) \<le> running gkv g0"
    using adapt_size assms(1) by metis
  have "i = 11" using iff [of 11] iff [of 12] assms(2,3) by (auto simp: entry_flags)
  then have raw: "raw = raw_view (take 240 full)"
    using assms(4,5) size by (simp add: GetRawTCPInfo_def raw_view_fill_buffer entry_flags)
  have "kernelVersionIs g AtLeast_6_2"
    using assms(1,2) by (simp add: adapt_flags_exact)
  then show ?thesis
    by (simp add: Unpack_eq unpack_fields_def raw raw_view_def mem_take_beyond nullable_def)
qed

theorem read_rto_totals_6_2_witness:
  "\<exists>raw. let g = adaptToKernelVersion (Inr (kversion 6 5 0)) initial_globals in
     GetRawTCPInfo (demo_sys 248) g 3 = Inr raw \<and> TotalRTO (Unpack g raw) = valid 0"
proof -
  let ?g = "adaptToKernelVersion (Inr (kversion 6 5 0)) initial_globals"
  obtain raw where raw: "GetRawTCPInfo (demo_sys 248) ?g 3 = Inr raw" using demo_GetRaw by blast
  have "TotalRTO (Unpack ?g raw) = valid 0"
    using read_rto_totals_6_2 [OF refl _ _ _ raw, of "replicate 248 7"]
    by (simp add: demo_run)
  with raw show ?thesis by (auto simp: Let_def)
qed

text \<open>The option lists name exactly the option bits the kernel set, in the order of the
  table; the window scale option carries the scale of its direction; the lists are nil exactly
  when no bit is set.\<close>

lemma Unpack_options:
  "elems (TxOptions (Unpack g p)) =
     map (\<lambda>f. \<lparr>Kind = go_index tcpOptionsMap f,
               OptValue = (if f = TCPI_OPT_WSCALE then ucast (TxWindowScale (Unpack g p)) else 0)\<rparr>)
       (filter (\<lambda>f. tcpi_options p AND f \<noteq> 0) tcpOptions)
 \<and> elems (RxOptions (Unpack g p)) =
     map (\<lambda>f. \<lparr>Kind = go_index tcpOptionsMap f,
               OptValue = (if f = TCPI_OPT_WSCALE then ucast (RxWindowScale (Unpack g p)) else 0)\<rparr>)
       (filter (\<lambda>f. tcpi_options p AND f \<noteq> 0) tcpOptions)
 \<and> (TxOptions (Unpack g p) = None \<longleftrightarrow> tcpi_options p = 0)
 \<and> (RxOptions (Unpack g p) = None \<longleftrightarrow> tcpi_options p = 0)"
proof -
  have zero: "set_flags 0 = []" by (simp add: set_flags_def)
  have nil: "set_flags (tcpi_options p) = [] \<longleftrightarrow> tcpi_options p = 0"
    using set_flags_determine [of "tcpi_options p"] by (auto simp: set_flags_def)
  show ?thesis
    by (simp add: Unpack_eq nil zero option_of_def [abs_def] sappend_def flip: set_flags_def)
qed

text \<open>The reported options determine the option byte of the kernel's struct.\<close>

lemma Unpack_options_inj:
  assumes "elems (TxOptions (Unpack g p)) = elems (TxOptions (Unpack h q))"
  shows "tcpi_options p = tcpi_options q"
proof -
  have "set_flags (tcpi_options p) = set_flags (tcpi_options q)"
    using assms by (auto simp: Unpack_eq intro: option_of_inj [OF set_flags_subset set_flags_subset])
  then show ?thesis using set_flags_determine by metis
qed

text \<open>The two window scales are the two halves of one byte.\<close>

lemma Unpack_window_scales:
  "unat (TxWindowScale (Unpack g p)) + 16 * unat (RxWindowScale (Unpack g p)) = unat (tcpi_bitfield0 p)
 \<and> unat (TxWindowScale (Unpack g p)) < 16 \<and> unat (RxWindowScale (Unpack g p)) < 16"
  using bitfield0_split [of "tcpi_bitfield0 p"] by (simp add: Unpack_eq unpack_fields_def)

lemma micro: "sint (ucast (x :: uint32) * timeFieldMultiplier) = 1000 * uint x"
  using sint_ucast32_mult [of timeFieldMultiplier x] by (simp add: timeFieldMultiplier_def)

text \<open>No time field overflows: each duration is the kernel's microsecond count times 1000.\<close>

lemma Unpack_durations:
  "sint (RTT (Unpack g p)) = 1000 * uint (tcpi_rtt p)
 \<and> sint (RTTVar (Unpack g p)) = 1000 * uint (tcpi_rttvar p)
 \<and> sint (RTO (Unpack g p)) = 1000 * uint (tcpi_rto p)
 \<and> sint (ATO (Unpack g p)) = 1000 * uint (tcpi_ato p)
 \<and> sint (RxRTT (Unpack g p)) = 1000 * uint (tcpi_rcv_rtt p)
 \<and> sint (LastTxAt (Unpack g p)) = 1000 * uint (tcpi_last_data_sent p)
 \<and> sint (LastRxAt (Unpack g p)) = 1000 * uint (tcpi_last_data_recv p)
 \<and> sint (LastTxAckAt (Unpack g p)) = 1000 * uint (tcpi_last_ack_sent p)
 \<and> sint (LastRxAckAt (Unpack g p)) = 1000 * uint (tcpi_last_ack_recv p)
 \<and> (MinRTT (Unpack g p) = null 0 \<or> sint (Value (MinRTT (Unpack g p))) = 1000 * uint (tcpi_min_rtt p))"
  by (simp add: Unpack_eq unpack_fields_def micro nullable_def)


subsection \<open>Reading the whole record\<close>

definition cc_erased :: "SysInfo \<Rightarrow> SysInfo" where
  "cc_erased s = s\<lparr>CCAlgorithm := '''', CCVegasEnabled := null 0, CCVegasRTTCnt := null 0,
     CCVegasRTT := null 0, CCVegasRTTMin := null 0, CCBBRBwLo := null 0, CCBBRBwHi := null 0,
     CCBBRMinRTT := null 0, CCBBRPacingGain := null 0, CCBBRCWindowGain := null 0,
     CCDCTCPEnabled := null False, CCDCTCPCEState := null 0, CCDCTCPAlpha := null 0,
     CCDCTCPABECN := null 0, CCDCTCPABTOT := null 0\<rparr>"

lemma cc_erased_updates [simp]:
  "cc_erased (s\<lparr>CCAlgorithm := a\<rparr>) = cc_erased s"
  "cc_erased (s\<lparr>CCVegasEnabled := v1, CCVegasRTTCnt := v2, CCVegasRTTMin := v3, CCVegasRTT := v4\<rparr>) = cc_erased s"
  "cc_erased (s\<lparr>CCBBRBwHi := b1, CCBBRBwLo := b2, CCBBRMinRTT := b3, CCBBRPacingGain := b4, CCBBRCWindowGain := b5\<rparr>) = cc_erased s"
  "cc_erased (s\<lparr>CCDCTCPEnabled := d1, CCDCTCPCEState := d2, CCDCTCPAlpha := d3, CCDCTCPABECN := d4, CCDCTCPABTOT := d5\<rparr>) = cc_erased s"
  by (simp_all add: cc_erased_def)

lemma Unpack_no_cc:
  "cc_erased (Unpack g p) = Unpack g p"
  "\<not> Valid (CCVegasRTT (Unpack g p))" "\<not> Valid (CCBBRMinRTT (Unpack g p))" "\<not> Valid (CCDCTCPAlpha (Unpack g p))"
  by (simp_all add: Unpack_eq unpack_fields_def SysInfo_zero_def cc_erased_def)

lemma PlusCC_Unpack_erased: "cc_erased (PlusCC_Unpack g t) = Unpack g (TCPInfo t)"
  by (simp add: PlusCC_Unpack_def Let_def Unpack_no_cc split: option.splits)

lemma PlusCC_Unpack_alg [simp]: "CCAlgorithm (PlusCC_Unpack g t) = CCAlg t"
  by (simp add: PlusCC_Unpack_def Let_def split: option.splits)

lemma PlusCC_Unpack_valid [simp]:
  "Valid (CCVegasRTT (PlusCC_Unpack g t)) \<longleftrightarrow> CCAlg t = ''vegas'' \<and> CCVegas t \<noteq> None"
  "Valid (CCBBRMinRTT (PlusCC_Unpack g t)) \<longleftrightarrow> CCAlg t = ''bbr'' \<and> CCBBR t \<noteq> None"
  "Valid (CCDCTCPAlpha (PlusCC_Unpack g t)) \<longleftrightarrow> CCAlg t = ''dctcp'' \<and> CCDCTP t \<noteq> None"
  by (auto simp: PlusCC_Unpack_def Let_def Unpack_no_cc split: option.splits)

text \<open>\<open>GetTCPInfo\<close> returns no record exactly when the kernel is too old or the system call
  fails, and then it returns an error.\<close>

lemma GetTCPInfo_nil:
  "(fst (GetTCPInfo sys g fd) = None \<longleftrightarrow>
     \<not> (kernelVersionIs g AtLeast_2_6_2 \<and> fst (sys_getsockopt sys fd (sizeOfRawTCPInfo g)) = 0))
 \<and> GetTCPInfo sys g fd \<noteq> (None, None)"
  by (auto simp: GetTCPInfo_def GetRawTCPInfo_def Let_def split: sum.splits prod.splits if_splits)





end
