(* ===== verification/Tcp_Info_Darwin.thy ===== *)
theory Tcp_Info_Darwin
  imports Tcp_Info_Heap Json_Map
begin

unbundle bit_operations_syntax

text \<open>
  \<open>pkg/tcpinfo/tcpinfo_darwin.go\<close>: the \<open>tcp_connection_info\<close> of macOS, its unpacked form and the
  functions of the platform package. The fields of \<open>RawInfo\<close> carry the kernel's names, which the
  source gives beside each of them; the system call is a parameter that answers an error number and
  the struct it filled.
\<close>

subsection \<open>Data\<close>

record RawInfo =
  tcpi_state :: uint8
  tcpi_snd_wscale :: uint8
  tcpi_rcv_wscale :: uint8
  tcpi_options :: uint32
  tcpi_flags :: uint32
  tcpi_rto :: uint32
  tcpi_maxseg :: uint32
  tcpi_snd_ssthresh :: uint32
  tcpi_snd_cwnd :: uint32
  tcpi_snd_wnd :: uint32
  tcpi_snd_sbbytes :: uint32
  tcpi_rcv_wnd :: uint32
  tcpi_rttcur :: uint32
  tcpi_srtt :: uint32
  tcpi_rttvar :: uint32
  tcpi_tfo_flags :: uint32
  tcpi_txpackets :: uint64
  tcpi_txbytes :: uint64
  tcpi_txretransmitbytes :: uint64
  tcpi_rxpackets :: uint64
  tcpi_rxbytes :: uint64
  tcpi_rxoutoforderbytes :: uint64
  tcpi_txretransmitpackets :: uint64

record SysInfo =
  State :: uint8
  StateName :: string
  TxWindowScale :: uint8
  RxWindowScale :: uint8
  TxOptions :: "Option slice"
  RxOptions :: "Option slice"
  Flags :: string
  RTO :: duration
  MaxSeg :: uint32
  TxSSThreshold :: uint32
  TxCWindow :: uint32
  TxWindow :: uint32
  TxSendBufferBytes :: uint32
  RxWindow :: uint32
  RTTCur :: duration
  SRTT :: duration
  RTTVar :: duration
  TFOFlags :: uint32
  TxPackets :: uint64
  TxBytes :: uint64
  TxRetransmitBytes :: uint64
  RxPackets :: uint64
  RxBytes :: uint64
  RxOutOfOrderBytes :: uint64
  TxRetransmitPackets :: uint64

subsection \<open>Names of states, flags and options\<close>

definition TCPS_CLOSED :: uint8 where "TCPS_CLOSED = 0"
definition TCPS_LISTEN :: uint8 where "TCPS_LISTEN = 1"
definition TCPS_SYN_SENT :: uint8 where "TCPS_SYN_SENT = 2"
definition TCPS_SYN_RECEIVED :: uint8 where "TCPS_SYN_RECEIVED = 3"
definition TCPS_ESTABLISHED :: uint8 where "TCPS_ESTABLISHED = 4"
definition TCPS_CLOSE_WAIT :: uint8 where "TCPS_CLOSE_WAIT = 5"
definition TCPS_FIN_WAIT_1 :: uint8 where "TCPS_FIN_WAIT_1 = 6"
definition TCPS_CLOSING :: uint8 where "TCPS_CLOSING = 7"
definition TCPS_LAST_ACK :: uint8 where "TCPS_LAST_ACK = 8"
definition TCPS_FIN_WAIT_2 :: uint8 where "TCPS_FIN_WAIT_2 = 9"
definition TCPS_TIME_WAIT :: uint8 where "TCPS_TIME_WAIT = 10"

definition tcpStateMap :: "(uint8 \<times> string) list" where
  "tcpStateMap =
     [(TCPS_ESTABLISHED, ''ESTABLISHED''), (TCPS_SYN_SENT, ''SYN_SENT''),
      (TCPS_SYN_RECEIVED, ''SYN_RECV''), (TCPS_FIN_WAIT_1, ''FIN_WAIT1''),
      (TCPS_FIN_WAIT_2, ''FIN_WAIT2''), (TCPS_TIME_WAIT, ''TIME_WAIT''), (TCPS_CLOSED, ''CLOSE''),
      (TCPS_CLOSE_WAIT, ''CLOSE_WAIT''), (TCPS_LAST_ACK, ''LAST_ACK''), (TCPS_LISTEN, ''LISTEN''),
      (TCPS_CLOSING, ''CLOSING'')]"

definition SysFlagLossRecovery :: uint32 where "SysFlagLossRecovery = 1"
definition SysFlagReorderingDetected :: uint32 where "SysFlagReorderingDetected = 2"

definition tcpFlagsMap :: "(uint32 \<times> string) list" where
  "tcpFlagsMap = [(SysFlagLossRecovery, ''LOSS_RECOVERY''),
     (SysFlagReorderingDetected, ''REORDERING_DETECTED'')]"

definition tcpFlags :: "uint32 list" where
  "tcpFlags = [SysFlagLossRecovery, SysFlagReorderingDetected]"

definition tcpInfoTCPFlagsString :: "uint32 \<Rightarrow> string" where
  "tcpInfoTCPFlagsString options =
     (let opts = fold (\<lambda>flag opts. if options AND flag \<noteq> 0
                          then sappend opts [go_index tcpFlagsMap flag] else opts) tcpFlags None
      in Join (elems opts) '','')"

definition TCPCI_OPT_TIMESTAMPS :: uint32 where "TCPCI_OPT_TIMESTAMPS = 1"
definition TCPCI_OPT_SACK :: uint32 where "TCPCI_OPT_SACK = 2"
definition TCPCI_OPT_WSCALE :: uint32 where "TCPCI_OPT_WSCALE = 4"
definition TCPCI_OPT_ECN :: uint32 where "TCPCI_OPT_ECN = 8"

definition tcpOptionsMap :: "(uint32 \<times> string) list" where
  "tcpOptionsMap = [(TCPCI_OPT_TIMESTAMPS, ''Timestamps''), (TCPCI_OPT_SACK, ''SACK''),
     (TCPCI_OPT_WSCALE, ''WindowScale''), (TCPCI_OPT_ECN, ''ECN'')]"

definition tcpOptions :: "uint32 list" where
  "tcpOptions = [TCPCI_OPT_TIMESTAMPS, TCPCI_OPT_SACK, TCPCI_OPT_WSCALE, TCPCI_OPT_ECN]"

subsection \<open>Operations\<close>

definition SysInfo_Clone :: "SysInfo \<Rightarrow> SysInfo" where
  "SysInfo_Clone s = s\<lparr>TxOptions := cloneOptions (TxOptions s), RxOptions := cloneOptions (RxOptions s)\<rparr>"

definition SysInfo_ToMap :: "SysInfo \<Rightarrow> gomap" where
  "SysInfo_ToMap s =
     [(''state'', AString (StateName s)),
      (''txWindowScale'', AUint8 (TxWindowScale s)),
      (''rxWindowScale'', AUint8 (RxWindowScale s)),
      (''txOptions'', AOptions (TxOptions s)),
      (''rxOptions'', AOptions (RxOptions s)),
      (''flags'', AString (Flags s)),
      (''rto'', ADuration (RTO s)),
      (''mss'', AUint32 (MaxSeg s)),
      (''txSSThreshold'', AUint32 (TxSSThreshold s)),
      (''txCWindowBytes'', AUint32 (TxCWindow s)),
      (''txWindow'', AUint32 (TxWindow s)),
      (''txSendBufferBytes'', AUint32 (TxSendBufferBytes s)),
      (''rxWindow'', AUint32 (RxWindow s)),
      (''rttCur'', ADuration (RTTCur s)),
      (''rttSmoothed'', ADuration (SRTT s)),
      (''rttVar'', ADuration (RTTVar s)),
      (''tfoFlags'', AUint32 (TFOFlags s)),
      (''txPackets'', AUint64 (TxPackets s)),
      (''txBytes'', AUint64 (TxBytes s)),
      (''txRetransmitBytes'', AUint64 (TxRetransmitBytes s)),
      (''rxPackets'', AUint64 (RxPackets s)),
      (''rxBytes'', AUint64 (RxBytes s)),
      (''rxOutOfOrderBytes'', AUint64 (RxOutOfOrderBytes s)),
      (''txRetransmitPackets'', AUint64 (TxRetransmitPackets s))]"

definition darwin_MarshalJSON :: "SysInfo \<Rightarrow> string option" where
  "darwin_MarshalJSON s = SysInfo_MarshalJSON SysInfo_ToMap s"

definition timeFieldMultiplier :: duration where
  "timeFieldMultiplier = Millisecond"

text \<open>The loop over \<open>tcpOptions\<close>: a set bit appends one option to both lists.\<close>

definition append_option :: "uint32 \<Rightarrow> uint64 \<Rightarrow> uint64 \<Rightarrow> SysInfo \<Rightarrow> SysInfo" where
  "append_option flag txv rxv u =
     u\<lparr>TxOptions := sappend (TxOptions u) [\<lparr>Kind = go_index tcpOptionsMap flag, OptValue = txv\<rparr>],
       RxOptions := sappend (RxOptions u) [\<lparr>Kind = go_index tcpOptionsMap flag, OptValue = rxv\<rparr>]\<rparr>"

definition unpack_option :: "RawInfo \<Rightarrow> uint32 \<Rightarrow> SysInfo \<Rightarrow> SysInfo" where
  "unpack_option packed flag u =
     (if tcpi_options packed AND flag = 0 then u
      else if flag = TCPCI_OPT_SACK \<or> flag = TCPCI_OPT_ECN \<or> flag = TCPCI_OPT_TIMESTAMPS
        then append_option flag 0 0 u
      else if flag = TCPCI_OPT_WSCALE
        then append_option flag (ucast (tcpi_snd_wscale packed)) (ucast (tcpi_rcv_wscale packed)) u
      else u)"

definition unpack_fields :: "RawInfo \<Rightarrow> SysInfo" where
  "unpack_fields packed =
     \<lparr>State = tcpi_state packed,
      StateName = go_index tcpStateMap (tcpi_state packed),
      TxWindowScale = tcpi_snd_wscale packed,
      RxWindowScale = tcpi_rcv_wscale packed,
      TxOptions = Some [],
      RxOptions = None,
      Flags = tcpInfoTCPFlagsString (tcpi_flags packed),
      RTO = ucast (tcpi_rto packed) * timeFieldMultiplier,
      MaxSeg = tcpi_maxseg packed,
      TxSSThreshold = tcpi_snd_ssthresh packed,
      TxCWindow = tcpi_snd_cwnd packed,
      TxWindow = tcpi_snd_wnd packed,
      TxSendBufferBytes = tcpi_snd_sbbytes packed,
      RxWindow = tcpi_rcv_wnd packed,
      RTTCur = ucast (tcpi_rttcur packed) * timeFieldMultiplier,
      SRTT = ucast (tcpi_srtt packed) * timeFieldMultiplier,
      RTTVar = ucast (tcpi_rttvar packed) * timeFieldMultiplier,
      TFOFlags = tcpi_tfo_flags packed,
      TxPackets = tcpi_txpackets packed,
      TxBytes = tcpi_txbytes packed,
      TxRetransmitBytes = tcpi_txretransmitbytes packed,
      RxPackets = tcpi_rxpackets packed,
      RxBytes = tcpi_rxbytes packed,
      RxOutOfOrderBytes = tcpi_rxoutoforderbytes packed,
      TxRetransmitPackets = tcpi_txretransmitpackets packed\<rparr>"

definition Unpack :: "RawInfo \<Rightarrow> SysInfo" where
  "Unpack packed = fold (unpack_option packed) tcpOptions (unpack_fields packed)"

definition SysInfo_ToInfo :: "SysInfo \<Rightarrow> SysInfo Info" where
  "SysInfo_ToInfo s = Info_zero\<lparr>Info_State := StateName s, Info_TxOptions := TxOptions s,
     Info_RxOptions := RxOptions s, Info_TxMSS := ucast (MaxSeg s), Info_RxMSS := ucast (MaxSeg s),
     Info_RTT := SRTT s, Info_RTTVar := RTTVar s, Info_RTO := RTO s,
     Info_RxWindow := ucast (RxWindow s), Info_TxSSThreshold := ucast (TxSSThreshold s),
     Info_TxWindowBytes := ucast (TxCWindow s), Info_TxWindowSegs := ucast (TxWindow s),
     Info_Retransmits := TxRetransmitPackets s, Info_Sys := Some s\<rparr>"

text \<open>The system call answers an error number and the struct; \<open>syscall.Errno\<close> is an error, and the
  three named errors are the same values.\<close>

record darwin_sys =
  sys_getsockopt :: "nat \<Rightarrow> nat \<times> RawInfo"
  sys_errno :: "nat \<Rightarrow> goerror"

definition GetTCPInfo :: "darwin_sys \<Rightarrow> nat \<Rightarrow> SysInfo option \<times> goerror option" where
  "GetTCPInfo sys fd =
     (case sys_getsockopt sys fd of
        (errno, raw) \<Rightarrow>
          if errno \<noteq> 0 then (None, Some (sys_errno sys errno)) else (Some (Unpack raw), None))"

definition Supported :: bool where
  "Supported = True"

definition SysInfo_Warnings :: "SysInfo \<Rightarrow> string slice" where
  "SysInfo_Warnings s =
     (let warns = None;
          warns = warn_if (TxRetransmitBytes s > 0)
            (''retransmitBytes='' @ FormatUint (TxRetransmitBytes s)) warns;
          warns = warn_if (TxRetransmitPackets s > 0)
            (''retransmitPackets='' @ FormatUint (TxRetransmitPackets s)) warns
      in warn_if (RxOutOfOrderBytes s > 0)
            (''outOfOrderBytes='' @ FormatUint (RxOutOfOrderBytes s)) warns)"

definition darwin_pkg :: "darwin_sys \<Rightarrow> SysInfo tcpinfo_pkg" where
  "darwin_pkg sys = \<lparr>pkg_Supported = Supported, pkg_GetTCPInfo = GetTCPInfo sys,
     pkg_Clone = SysInfo_Clone, pkg_ToInfo = SysInfo_ToInfo, pkg_ToMap = SysInfo_ToMap,
     pkg_Warnings = SysInfo_Warnings\<rparr>"

text \<open>The option a set bit stands for, with the window scale of its direction, and the set bits.\<close>

definition option_of :: "uint8 \<Rightarrow> uint32 \<Rightarrow> Option" where
  "option_of scale flag =
     \<lparr>Kind = go_index tcpOptionsMap flag,
      OptValue = (if flag = TCPCI_OPT_WSCALE then ucast scale else 0)\<rparr>"

definition set_bits :: "uint32 list \<Rightarrow> uint32 \<Rightarrow> uint32 list" where
  "set_bits flags options = filter (\<lambda>flag. options AND flag \<noteq> 0) flags"

text \<open>Where the record holds its option lists.\<close>

definition darwin_layout :: "SysInfo layout" where
  "darwin_layout = \<lparr>lay_Tx = TxOptions, lay_Rx = RxOptions,
     lay_with = (\<lambda>tx rx s. s\<lparr>TxOptions := tx, RxOptions := rx\<rparr>)\<rparr>"

subsection \<open>The contract of the package\<close>

interpretation dw: tcpinfo_answers "darwin_pkg sys"
  by unfold_locales
     (auto simp: darwin_pkg_def SysInfo_Warnings_def SysInfo_Clone_def SysInfo_ToMap_def SysInfo_ToInfo_def
        GetTCPInfo_def cloneOptions_def sappend_def split: option.splits prod.split)

interpretation dl: sys_layout darwin_layout SysInfo_Clone SysInfo_ToInfo
  by unfold_locales (simp_all add: darwin_layout_def SysInfo_Clone_def SysInfo_ToInfo_def)

subsection \<open>Options, flags and durations\<close>

lemmas darwin_opt_defs = TCPCI_OPT_TIMESTAMPS_def TCPCI_OPT_SACK_def TCPCI_OPT_WSCALE_def TCPCI_OPT_ECN_def

lemma darwin_option_known:
  "flag \<in> set tcpOptions \<Longrightarrow>
     unpack_option p flag u =
       (if tcpi_options p AND flag = 0 then u
        else u\<lparr>TxOptions := sappend (TxOptions u) [option_of (tcpi_snd_wscale p) flag],
               RxOptions := sappend (RxOptions u) [option_of (tcpi_rcv_wscale p) flag]\<rparr>)"
  by (auto simp: unpack_option_def append_option_def option_of_def tcpOptions_def darwin_opt_defs)

lemma fold_darwin_option:
  "set flags \<subseteq> set tcpOptions \<Longrightarrow>
     fold (unpack_option p) flags u =
       u\<lparr>TxOptions := sappend (TxOptions u) (map (option_of (tcpi_snd_wscale p)) (set_bits flags (tcpi_options p))),
         RxOptions := sappend (RxOptions u) (map (option_of (tcpi_rcv_wscale p)) (set_bits flags (tcpi_options p)))\<rparr>"
  by (induction flags arbitrary: u) (auto simp: darwin_option_known set_bits_def)

lemma darwin_Unpack_eq:
  "Unpack p = (unpack_fields p)\<lparr>
     TxOptions := Some (map (option_of (tcpi_snd_wscale p)) (set_bits tcpOptions (tcpi_options p))),
     RxOptions := sappend None (map (option_of (tcpi_rcv_wscale p)) (set_bits tcpOptions (tcpi_options p)))\<rparr>"
  unfolding Unpack_def
  by (subst fold_darwin_option) (simp_all add: unpack_fields_def sappend_def)

lemma darwin_plain: "plain_options (AMap (SysInfo_ToMap s)) \<longleftrightarrow> plain_kinds (TxOptions s) \<and> plain_kinds (RxOptions s)"
  by (auto simp: SysInfo_ToMap_def plain_map)

lemma darwin_Unpack_plain: "plain_kinds (TxOptions (Unpack p)) \<and> plain_kinds (RxOptions (Unpack p))"
  by (auto simp: darwin_Unpack_eq set_bits_def tcpOptions_def option_of_def go_index_def tcpOptionsMap_def plain_char_def darwin_opt_defs)

interpretation dj: tcpinfo_json "darwin_pkg sys"
proof unfold_locales
  fix fd s e
  show "plain_options (AMap (pkg_ToMap (darwin_pkg sys) s))" if "pkg_GetTCPInfo (darwin_pkg sys) fd = (Some s, e)"
    using that darwin_Unpack_plain
    by (auto simp: darwin_pkg_def darwin_plain GetTCPInfo_def split: prod.splits if_splits)
  show "plain_options (AMap (pkg_ToMap (darwin_pkg sys) (pkg_Clone (darwin_pkg sys) s)))"
    if "plain_options (AMap (pkg_ToMap (darwin_pkg sys) s))"
    using that by (simp add: darwin_pkg_def darwin_plain SysInfo_Clone_def)
  show "plain_options (AMap (Info_ToMap (pkg_ToMap (darwin_pkg sys)) (pkg_ToInfo (darwin_pkg sys) s)))"
    if "plain_options (AMap (pkg_ToMap (darwin_pkg sys) s))"
    using that by (simp add: darwin_pkg_def darwin_plain plain_Info SysInfo_ToInfo_def Info_zero_def)
qed

text \<open>The option lists of both directions name exactly the option bits the kernel set, in table
  order and with the window scale of their direction. Without any bit the send list is empty and
  the receive list nil, and only then does a copy differ from the original.\<close>

lemma darwin_options:
  "TxOptions (Unpack p) = Some (map (option_of (tcpi_snd_wscale p)) (set_bits tcpOptions (tcpi_options p)))
 \<and> RxOptions (Unpack p) = (if set_bits tcpOptions (tcpi_options p) = [] then None
     else Some (map (option_of (tcpi_rcv_wscale p)) (set_bits tcpOptions (tcpi_options p))))
 \<and> (SysInfo_Clone (Unpack p) = Unpack p \<longleftrightarrow> set_bits tcpOptions (tcpi_options p) \<noteq> [])"
proof -
  have tx: "TxOptions (Unpack p) = Some (map (option_of (tcpi_snd_wscale p)) (set_bits tcpOptions (tcpi_options p)))"
    and rx: "RxOptions (Unpack p) = (if set_bits tcpOptions (tcpi_options p) = [] then None
     else Some (map (option_of (tcpi_rcv_wscale p)) (set_bits tcpOptions (tcpi_options p))))"
    by (simp_all add: darwin_Unpack_eq sappend_def)
  have "SysInfo_Clone s = s \<longleftrightarrow> TxOptions s \<noteq> Some [] \<and> RxOptions s \<noteq> Some []" for s
    by (cases s) (auto simp: SysInfo_Clone_def cloneOptions_def sappend_def split: option.splits)
  then show ?thesis using tx rx by simp
qed

text \<open>The flag string is the comma-separated list of the names of the set flags, from which the
  two flags can be read back.\<close>

lemma darwin_flags:
  "Flags (Unpack p) = Join (map (go_index tcpFlagsMap) (set_bits tcpFlags (tcpi_flags p))) '',''
 \<and> (''LOSS_RECOVERY'' \<in> set (SplitOn CHR '','' (Flags (Unpack p))) \<longleftrightarrow> tcpi_flags p AND SysFlagLossRecovery \<noteq> 0)
 \<and> (''REORDERING_DETECTED'' \<in> set (SplitOn CHR '','' (Flags (Unpack p))) \<longleftrightarrow> tcpi_flags p AND SysFlagReorderingDetected \<noteq> 0)"
  by (simp add: darwin_Unpack_eq unpack_fields_def tcpInfoTCPFlagsString_def tcpFlags_def set_bits_def tcpFlagsMap_def
      go_index_def SysFlagLossRecovery_def SysFlagReorderingDetected_def Let_def)

text \<open>No duration overflows: each is the kernel's count of milliseconds times a million.\<close>

lemma darwin_durations:
  "sint (RTO (Unpack p)) = uint (tcpi_rto p) * 1000000
 \<and> sint (RTTCur (Unpack p)) = uint (tcpi_rttcur p) * 1000000
 \<and> sint (SRTT (Unpack p)) = uint (tcpi_srtt p) * 1000000
 \<and> sint (RTTVar (Unpack p)) = uint (tcpi_rttvar p) * 1000000"
  using sint_ucast32_mult [of "1000000"]
  by (simp add: darwin_Unpack_eq unpack_fields_def timeFieldMultiplier_def)

end
