(* ===== verification/Tcp_Info_Windows.thy ===== *)
theory Tcp_Info_Windows
  imports Json_Map
begin

text \<open>
  \<open>pkg/tcpinfo/tcpinfo_windows.go\<close>: the two versions of \<open>TCP_INFO\<close> of Windows, their unpacked
  form and the functions of the platform package. The second version has all fields of the first and
  more, so its record extends the first one; the fields carry the source's names after \<open>raw_\<close>.
  \<open>WSAIoctl\<close> is a parameter that answers an error or the struct it filled.
\<close>

subsection \<open>Data\<close>

record RawInfoV0 =
  raw_State :: uint32
  raw_Mss :: uint32
  raw_ConnectionTimeMs :: uint64
  raw_TimestampsEnabled :: bool
  raw_RttUs :: uint32
  raw_MinRttUs :: uint32
  raw_BytesInFlight :: uint32
  raw_Cwnd :: uint32
  raw_SndWnd :: uint32
  raw_RcvWnd :: uint32
  raw_RcvBuf :: uint32
  raw_BytesOut :: uint64
  raw_BytesIn :: uint64
  raw_BytesReordered :: uint32
  raw_BytesRetrans :: uint32
  raw_FastRetrans :: uint32
  raw_DupAcksIn :: uint32
  raw_TimeoutEpisodes :: uint32
  raw_SynRetrans :: uint8

record RawInfoV1 = RawInfoV0 +
  raw_SndLimTransRwin :: uint32
  raw_SndLimTimeRwin :: uint32
  raw_SndLimBytesRwin :: uint64
  raw_SndLimTransCwnd :: uint32
  raw_SndLimTimeCwnd :: uint32
  raw_SndLimBytesCwnd :: uint64
  raw_SndLimTransSnd :: uint32
  raw_SndLimTimeSnd :: uint32
  raw_SndLimBytesSnd :: uint64

record SysInfo =
  State :: uint32
  StateName :: string
  MSS :: uint32
  ConnectedTimeNS :: duration
  RTT :: duration
  RTTMin :: duration
  BytesInFlight :: uint32
  CongestionWindow :: uint32
  TxWindow :: uint32
  RxWindow :: uint32
  RxBuffer :: uint32
  TxBytes :: uint64
  RxBytes :: uint64
  RxOutOfOrderBytes :: uint32
  TxRetransmitBytes :: uint64
  FastRetrans :: uint32
  DupAcksIn :: uint32
  TimeoutEpisodes :: uint32
  SynRetrans :: uint8
  SndLimTransRwin :: uint64
  SndLimTransTimeRwin :: duration
  SndLimBytesRwin :: uint64
  SndLimTransCwnd :: uint64
  SndLimTimeCwnd :: duration
  SndLimBytesCwnd :: uint64
  SndLimTransSnd :: uint64
  SndLimTimeSnd :: duration
  SndLimBytesSnd :: uint64

definition TCPS_CLOSED :: uint32 where "TCPS_CLOSED = 0"
definition TCPS_LISTEN :: uint32 where "TCPS_LISTEN = 1"
definition TCPS_SYN_SENT :: uint32 where "TCPS_SYN_SENT = 2"
definition TCPS_SYN_RECEIVED :: uint32 where "TCPS_SYN_RECEIVED = 3"
definition TCPS_ESTABLISHED :: uint32 where "TCPS_ESTABLISHED = 4"
definition TCPS_FIN_WAIT_1 :: uint32 where "TCPS_FIN_WAIT_1 = 5"
definition TCPS_FIN_WAIT_2 :: uint32 where "TCPS_FIN_WAIT_2 = 6"
definition TCPS_CLOSE_WAIT :: uint32 where "TCPS_CLOSE_WAIT = 7"
definition TCPS_CLOSING :: uint32 where "TCPS_CLOSING = 8"
definition TCPS_LAST_ACK :: uint32 where "TCPS_LAST_ACK = 9"
definition TCPS_TIME_WAIT :: uint32 where "TCPS_TIME_WAIT = 10"

definition tcpStateMap :: "(uint32 \<times> string) list" where
  "tcpStateMap =
     [(TCPS_ESTABLISHED, ''ESTABLISHED''), (TCPS_SYN_SENT, ''SYN_SENT''),
      (TCPS_SYN_RECEIVED, ''SYN_RECV''), (TCPS_FIN_WAIT_1, ''FIN_WAIT1''),
      (TCPS_FIN_WAIT_2, ''FIN_WAIT2''), (TCPS_TIME_WAIT, ''TIME_WAIT''), (TCPS_CLOSED, ''CLOSE''),
      (TCPS_CLOSE_WAIT, ''CLOSE_WAIT''), (TCPS_LAST_ACK, ''LAST_ACK''), (TCPS_LISTEN, ''LISTEN''),
      (TCPS_CLOSING, ''CLOSING'')]"

text \<open>Declared in the file and called by nothing.\<close>

definition tcpInfoTCPStateString :: "uint32 \<Rightarrow> string" where
  "tcpInfoTCPStateString state =
     (case map_of tcpStateMap state of
        Some s \<Rightarrow> s
      | None \<Rightarrow> ''UNKNOWN('' @ digits10 (unat state) @ '')'')"

subsection \<open>Operations\<close>

definition SysInfo_Clone :: "SysInfo \<Rightarrow> SysInfo" where
  "SysInfo_Clone s = s"

definition SysInfo_ToMap :: "SysInfo \<Rightarrow> gomap" where
  "SysInfo_ToMap s =
     [(''state'', AString (StateName s)),
      (''mss'', AUint32 (MSS s)),
      (''connectedTimeNS'', ADuration (ConnectedTimeNS s)),
      (''rtt'', ADuration (RTT s)),
      (''rttMin'', ADuration (RTTMin s)),
      (''bytesInFlight'', AUint32 (BytesInFlight s)),
      (''congestionWindow'', AUint32 (CongestionWindow s)),
      (''txWindow'', AUint32 (TxWindow s)),
      (''rxWindow'', AUint32 (RxWindow s)),
      (''rxBuffer'', AUint32 (RxBuffer s)),
      (''txBytes'', AUint64 (TxBytes s)),
      (''rxBytes'', AUint64 (RxBytes s)),
      (''rxOutOfOrderBytes'', AUint32 (RxOutOfOrderBytes s)),
      (''txRetransmitBytes'', AUint64 (TxRetransmitBytes s)),
      (''fastRetransmissions'', AUint32 (FastRetrans s)),
      (''duplicateAcksIn'', AUint32 (DupAcksIn s)),
      (''timeoutEpisodes'', AUint32 (TimeoutEpisodes s)),
      (''synRetransmissions'', AUint8 (SynRetrans s)),
      (''sndLimTransRwin'', AUint64 (SndLimTransRwin s)),
      (''sndLimTimeRwin'', ADuration (SndLimTransTimeRwin s)),
      (''sndLimBytesRwin'', AUint64 (SndLimBytesRwin s)),
      (''sndLimTransCwnd'', AUint64 (SndLimTransCwnd s)),
      (''sndLimTimeCwnd'', ADuration (SndLimTimeCwnd s)),
      (''sndLimBytesCwnd'', AUint64 (SndLimBytesCwnd s)),
      (''sndLimTransSnd'', AUint64 (SndLimTransSnd s)),
      (''sndLimTimeSnd'', ADuration (SndLimTimeSnd s)),
      (''sndLimBytesSnd'', AUint64 (SndLimBytesSnd s))]"

definition windows_MarshalJSON :: "SysInfo \<Rightarrow> string option" where
  "windows_MarshalJSON s = SysInfo_MarshalJSON SysInfo_ToMap s"

definition timeFieldMultiplier :: duration where
  "timeFieldMultiplier = Millisecond"

definition UnpackV0 :: "RawInfoV0 \<Rightarrow> SysInfo" where
  "UnpackV0 packed =
     \<lparr>State = raw_State packed,
      StateName = go_index tcpStateMap (raw_State packed),
      MSS = raw_Mss packed,
      ConnectedTimeNS = raw_ConnectionTimeMs packed * Millisecond,
      RTT = ucast (raw_RttUs packed) * Microsecond,
      RTTMin = ucast (raw_MinRttUs packed) * Microsecond,
      BytesInFlight = raw_BytesInFlight packed,
      CongestionWindow = raw_Cwnd packed,
      TxWindow = raw_SndWnd packed,
      RxWindow = raw_RcvWnd packed,
      RxBuffer = raw_RcvBuf packed,
      TxBytes = raw_BytesOut packed,
      RxBytes = raw_BytesIn packed,
      RxOutOfOrderBytes = raw_BytesReordered packed,
      TxRetransmitBytes = ucast (raw_BytesRetrans packed),
      FastRetrans = raw_FastRetrans packed,
      DupAcksIn = raw_DupAcksIn packed,
      TimeoutEpisodes = raw_TimeoutEpisodes packed,
      SynRetrans = raw_SynRetrans packed,
      SndLimTransRwin = 0, SndLimTransTimeRwin = 0, SndLimBytesRwin = 0,
      SndLimTransCwnd = 0, SndLimTimeCwnd = 0, SndLimBytesCwnd = 0,
      SndLimTransSnd = 0, SndLimTimeSnd = 0, SndLimBytesSnd = 0\<rparr>"

definition UnpackV1 :: "RawInfoV1 \<Rightarrow> SysInfo" where
  "UnpackV1 packed =
     \<lparr>State = raw_State packed,
      StateName = go_index tcpStateMap (raw_State packed),
      MSS = raw_Mss packed,
      ConnectedTimeNS = raw_ConnectionTimeMs packed * timeFieldMultiplier,
      RTT = ucast (raw_RttUs packed) * Microsecond,
      RTTMin = ucast (raw_MinRttUs packed) * Microsecond,
      BytesInFlight = raw_BytesInFlight packed,
      CongestionWindow = raw_Cwnd packed,
      TxWindow = raw_SndWnd packed,
      RxWindow = raw_RcvWnd packed,
      RxBuffer = raw_RcvBuf packed,
      TxBytes = raw_BytesOut packed,
      RxBytes = raw_BytesIn packed,
      RxOutOfOrderBytes = raw_BytesReordered packed,
      TxRetransmitBytes = ucast (raw_BytesRetrans packed),
      FastRetrans = raw_FastRetrans packed,
      DupAcksIn = raw_DupAcksIn packed,
      TimeoutEpisodes = raw_TimeoutEpisodes packed,
      SynRetrans = raw_SynRetrans packed,
      SndLimTransRwin = ucast (raw_SndLimTransRwin packed),
      SndLimTransTimeRwin = ucast (raw_SndLimTimeRwin packed) * Millisecond,
      SndLimBytesRwin = raw_SndLimBytesRwin packed,
      SndLimTransCwnd = ucast (raw_SndLimTransCwnd packed),
      SndLimTimeCwnd = ucast (raw_SndLimTimeCwnd packed) * Millisecond,
      SndLimBytesCwnd = raw_SndLimBytesCwnd packed,
      SndLimTransSnd = ucast (raw_SndLimTransSnd packed),
      SndLimTimeSnd = ucast (raw_SndLimTimeSnd packed) * Millisecond,
      SndLimBytesSnd = raw_SndLimBytesSnd packed\<rparr>"

definition SysInfo_ToInfo :: "SysInfo \<Rightarrow> SysInfo Info" where
  "SysInfo_ToInfo s = Info_zero\<lparr>Info_State := StateName s, Info_TxMSS := ucast (MSS s),
     Info_RTT := RTTMin s, Info_RxWindow := ucast (RxWindow s),
     Info_TxWindowSegs := ucast (TxWindow s), Info_Retransmits := ucast (SynRetrans s),
     Info_Sys := Some s\<rparr>"

text \<open>\<open>WSAIoctl\<close> with \<open>SIO_TCP_INFO\<close> and version 1 or 0 in its input buffer.\<close>

record windows_sys =
  sys_WSAIoctl_v1 :: "nat \<Rightarrow> goerror + RawInfoV1"
  sys_WSAIoctl_v0 :: "nat \<Rightarrow> goerror + RawInfoV0"

definition GetTCPInfo :: "windows_sys \<Rightarrow> nat \<Rightarrow> SysInfo option \<times> goerror option" where
  "GetTCPInfo sys fd =
     (case sys_WSAIoctl_v1 sys fd of
        Inr outbufv1 \<Rightarrow> (Some (UnpackV1 outbufv1), None)
      | Inl _ \<Rightarrow>
          (case sys_WSAIoctl_v0 sys fd of
             Inl err \<Rightarrow> (None, Some (errors_New (''could not perform the WSAIoctl: '' @ error_text err)))
           | Inr outbufv0 \<Rightarrow> (Some (UnpackV0 outbufv0), None)))"

definition Supported :: bool where
  "Supported = True"

definition SysInfo_Warnings :: "SysInfo \<Rightarrow> string slice" where
  "SysInfo_Warnings s =
     (let warns = None;
          warns = warn_if (TxRetransmitBytes s > 0)
            (''retransmitBytes='' @ FormatUint (TxRetransmitBytes s)) warns;
          warns = warn_if (SynRetrans s > 0)
            (''retransmitSyn='' @ FormatUint (ucast (SynRetrans s))) warns;
          warns = warn_if (RxOutOfOrderBytes s > 0)
            (''outOfOrderBytes='' @ FormatUint (ucast (RxOutOfOrderBytes s))) warns;
          warns = warn_if (TimeoutEpisodes s > 0)
            (''timeoutEpisodes='' @ FormatUint (ucast (TimeoutEpisodes s))) warns;
          warns = warn_if (DupAcksIn s > 0)
            (''duplicateAcksIn='' @ FormatUint (ucast (DupAcksIn s))) warns
      in warn_if (FastRetrans s > 0)
            (''fastRetransmissions='' @ FormatUint (ucast (FastRetrans s))) warns)"

definition windows_pkg :: "windows_sys \<Rightarrow> SysInfo tcpinfo_pkg" where
  "windows_pkg sys = \<lparr>pkg_Supported = Supported, pkg_GetTCPInfo = GetTCPInfo sys,
     pkg_Clone = SysInfo_Clone, pkg_ToInfo = SysInfo_ToInfo, pkg_ToMap = SysInfo_ToMap,
     pkg_Warnings = SysInfo_Warnings\<rparr>"

text \<open>An answer of the second version, for the examples.\<close>

definition demo_v1 :: "uint64 \<Rightarrow> RawInfoV1" where
  "demo_v1 ms = \<lparr>raw_State = 4, raw_Mss = 1460, raw_ConnectionTimeMs = ms, raw_TimestampsEnabled = False,
     raw_RttUs = 250, raw_MinRttUs = 200, raw_BytesInFlight = 0, raw_Cwnd = 14600, raw_SndWnd = 65535,
     raw_RcvWnd = 65535, raw_RcvBuf = 65535, raw_BytesOut = 10, raw_BytesIn = 20, raw_BytesReordered = 0,
     raw_BytesRetrans = 0, raw_FastRetrans = 0, raw_DupAcksIn = 0, raw_TimeoutEpisodes = 0,
     raw_SynRetrans = 0, raw_SndLimTransRwin = 1, raw_SndLimTimeRwin = 2, raw_SndLimBytesRwin = 3,
     raw_SndLimTransCwnd = 4, raw_SndLimTimeCwnd = 5, raw_SndLimBytesCwnd = 6, raw_SndLimTransSnd = 7,
     raw_SndLimTimeSnd = 8, raw_SndLimBytesSnd = 9\<rparr>"

subsection \<open>The contract of the package\<close>

interpretation wn: tcpinfo_answers "windows_pkg sys"
  by unfold_locales
     (simp_all add: windows_pkg_def SysInfo_Clone_def SysInfo_ToMap_def SysInfo_ToInfo_def GetTCPInfo_def
        split: sum.split)

lemma windows_plain [simp]: "plain_options (AMap (SysInfo_ToMap s))"
  by (simp add: SysInfo_ToMap_def plain_map)

interpretation wj: tcpinfo_json "windows_pkg sys"
  by unfold_locales (simp_all add: windows_pkg_def plain_Info SysInfo_ToInfo_def Info_zero_def)

subsection \<open>Versions and durations\<close>

text \<open>C28: the first version is used exactly when the second is refused, an error is returned exactly
  when both are, and it tells what the first version's error was. The two ways of unpacking agree:
  without its additional fields the second version unpacks to what the first unpacks to.\<close>

theorem windows_versions:
  "(case (sys_WSAIoctl_v1 sys fd, sys_WSAIoctl_v0 sys fd) of
      (Inr v1, _) \<Rightarrow> GetTCPInfo sys fd = (Some (UnpackV1 v1), None)
    | (Inl _, Inr v0) \<Rightarrow> GetTCPInfo sys fd = (Some (UnpackV0 v0), None)
    | (Inl _, Inl e) \<Rightarrow> fst (GetTCPInfo sys fd) = None
        \<and> map_option error_text (snd (GetTCPInfo sys fd)) = Some (''could not perform the WSAIoctl: '' @ error_text e))
 \<and> (UnpackV1 v)\<lparr>SndLimTransRwin := 0, SndLimTransTimeRwin := 0, SndLimBytesRwin := 0, SndLimTransCwnd := 0,
      SndLimTimeCwnd := 0, SndLimBytesCwnd := 0, SndLimTransSnd := 0, SndLimTimeSnd := 0, SndLimBytesSnd := 0\<rparr>
   = UnpackV0 (RawInfoV0.truncate v)"
  by (simp add: GetTCPInfo_def UnpackV0_def UnpackV1_def RawInfoV0.truncate_def timeFieldMultiplier_def
      split: sum.split)

lemma sint_ms_exact:
  fixes ms :: uint64
  assumes "uint ms \<le> 9223372036854"
  shows "sint (ms * 1000000) = uint ms * 1000000"
proof -
  have ge: "0 \<le> uint ms * 1000000" by simp
  have "uint ms * 1000000 \<le> 9223372036854 * 1000000" using assms by linarith
  then have lt: "uint ms * 1000000 < 2 ^ 63" by simp
  have u: "uint (ms * 1000000) = uint ms * 1000000"
    using assms uint_ge_0 [of ms] by (simp add: uint_word_ariths)
  have "sint (ms * 1000000) = signed_take_bit 63 (uint (ms * 1000000))"
    by (simp add: sint_uint)
  also have "\<dots> = uint ms * 1000000"
    unfolding u by (rule signed_take_bit_int_eq_self) (use lt ge in linarith)+
  finally show ?thesis .
qed

text \<open>The durations are the counts of Windows in nanoseconds: those kept in 32 bits for every
  value, and the connection time up to 292 years.\<close>

lemma windows_durations:
  assumes "uint (raw_ConnectionTimeMs p) \<le> 9223372036854"
  shows "sint (ConnectedTimeNS (UnpackV1 p)) = uint (raw_ConnectionTimeMs p) * 1000000
     \<and> sint (RTT (UnpackV1 p)) = uint (raw_RttUs p) * 1000
     \<and> sint (RTTMin (UnpackV1 p)) = uint (raw_MinRttUs p) * 1000
     \<and> sint (SndLimTransTimeRwin (UnpackV1 p)) = uint (raw_SndLimTimeRwin p) * 1000000
     \<and> sint (SndLimTimeCwnd (UnpackV1 p)) = uint (raw_SndLimTimeCwnd p) * 1000000
     \<and> sint (SndLimTimeSnd (UnpackV1 p)) = uint (raw_SndLimTimeSnd p) * 1000000"
  using assms sint_ms_exact [of "raw_ConnectionTimeMs p"] sint_ucast32_mult [of "1000"] sint_ucast32_mult [of "1000000"]
  by (simp add: UnpackV1_def timeFieldMultiplier_def)

end
