(* ===== verification/Tcp_Info_Other.thy ===== *)
theory Tcp_Info_Other
  imports Json_Map
begin

text \<open>
  \<open>pkg/tcpinfo/tcpinfo_other.go\<close>: the platform package where no TCP information is available. The
  empty struct \<open>SysInfo\<close> is a record without information, and \<open>runtime.GOOS\<close> a parameter.
\<close>

datatype SysInfo = SysInfo

definition SysInfo_Clone :: "SysInfo \<Rightarrow> SysInfo" where
  "SysInfo_Clone s = s"

definition SysInfo_ToInfo :: "SysInfo \<Rightarrow> SysInfo Info" where
  "SysInfo_ToInfo s = Info_zero"

definition SysInfo_Warnings :: "SysInfo \<Rightarrow> string slice" where
  "SysInfo_Warnings s = None"

definition SysInfo_ToMap :: "SysInfo \<Rightarrow> gomap" where
  "SysInfo_ToMap s = []"

definition other_MarshalJSON :: "SysInfo \<Rightarrow> string option" where
  "other_MarshalJSON s = SysInfo_MarshalJSON SysInfo_ToMap s"

definition GetTCPInfo :: "string \<Rightarrow> nat \<Rightarrow> SysInfo option \<times> goerror option" where
  "GetTCPInfo GOOS fd = (None, Some (errors_New (GOOS @ '' is unsupported'')))"

definition Supported :: bool where
  "Supported = False"

definition other_pkg :: "string \<Rightarrow> SysInfo tcpinfo_pkg" where
  "other_pkg GOOS = \<lparr>pkg_Supported = Supported, pkg_GetTCPInfo = GetTCPInfo GOOS,
     pkg_Clone = SysInfo_Clone, pkg_ToInfo = SysInfo_ToInfo, pkg_ToMap = SysInfo_ToMap,
     pkg_Warnings = SysInfo_Warnings\<rparr>"

interpretation ot: tcpinfo_answers "other_pkg GOOS"
  by unfold_locales (simp_all add: other_pkg_def GetTCPInfo_def SysInfo_ToMap_def SysInfo_ToInfo_def SysInfo_Clone_def)

lemma other_plain [simp]: "plain_options (AMap (SysInfo_ToMap s))"
  by (simp add: SysInfo_ToMap_def plain_map)

interpretation oj: tcpinfo_json "other_pkg GOOS"
  by unfold_locales (simp_all add: other_pkg_def plain_Info SysInfo_ToInfo_def Info_zero_def)

end
