(* ===== verification/Os_Version.thy ===== *)
theory Os_Version
  imports Go_Strings
begin

unbundle bit_operations_syntax

text \<open>
  \<open>pkg/osversion\<close>: the Windows version, the table of build numbers and the compatibility of a host
  with a container image. \<open>RtlGetVersion\<close> and the registry are parameters. The package variables
  \<open>osv\<close> and \<open>once\<close> are a record that \<open>Get\<close> takes and returns.
\<close>

subsection \<open>Build numbers\<close>

definition RS1 :: uint16 where "RS1 = 14393"
definition V1607 :: uint16 where "V1607 = RS1"
definition LTSC2016 :: uint16 where "LTSC2016 = RS1"
definition RS2 :: uint16 where "RS2 = 15063"
definition V1703 :: uint16 where "V1703 = RS2"
definition RS3 :: uint16 where "RS3 = 16299"
definition V1709 :: uint16 where "V1709 = RS3"
definition RS4 :: uint16 where "RS4 = 17134"
definition V1803 :: uint16 where "V1803 = RS4"
definition RS5 :: uint16 where "RS5 = 17763"
definition V1809 :: uint16 where "V1809 = RS5"
definition LTSC2019 :: uint16 where "LTSC2019 = RS5"
definition V19H1 :: uint16 where "V19H1 = 18362"
definition V1903 :: uint16 where "V1903 = V19H1"
definition V19H2 :: uint16 where "V19H2 = 18363"
definition V1909 :: uint16 where "V1909 = V19H2"
definition V20H1 :: uint16 where "V20H1 = 19041"
definition V2004 :: uint16 where "V2004 = V20H1"
definition V20H2 :: uint16 where "V20H2 = 19042"
definition V21H1 :: uint16 where "V21H1 = 19043"
definition V21H2Win10 :: uint16 where "V21H2Win10 = 19044"
definition V21H2Server :: uint16 where "V21H2Server = 20348"
definition LTSC2022 :: uint16 where "LTSC2022 = V21H2Server"
definition V21H2Win11 :: uint16 where "V21H2Win11 = 22000"
definition V22H2Win10 :: uint16 where "V22H2Win10 = 19045"
definition V22H2Win11 :: uint16 where "V22H2Win11 = 22621"
definition V23H2 :: uint16 where "V23H2 = 25398"
definition V25H1Server :: uint16 where "V25H1Server = 26100"
definition LTSC2025 :: uint16 where "LTSC2025 = V25H1Server"

subsection \<open>The version of the running system\<close>

record OSVersion =
  Version :: uint32
  MajorVersion :: uint8
  MinorVersion :: uint8
  Build :: uint16

text \<open>The fields of \<open>RTL_OSVERSIONINFOEX\<close> that the package reads.\<close>

record rtl_version =
  rtl_MajorVersion :: uint32
  rtl_MinorVersion :: uint32
  rtl_BuildNumber :: uint32

record osv_state =
  osv :: OSVersion
  once_done :: bool

definition initial_osv :: osv_state where
  "initial_osv = \<lparr>osv = \<lparr>Version = 0, MajorVersion = 0, MinorVersion = 0, Build = 0\<rparr>, once_done = False\<rparr>"

text \<open>The function passed to \<open>once.Do\<close>.\<close>

definition read_version :: "rtl_version \<Rightarrow> OSVersion" where
  "read_version v =
     \<lparr>Version = (push_bit 16 (rtl_BuildNumber v) OR push_bit 8 (rtl_MinorVersion v)) OR rtl_MajorVersion v,
      MajorVersion = ucast (rtl_MajorVersion v),
      MinorVersion = ucast (rtl_MinorVersion v),
      Build = ucast (rtl_BuildNumber v)\<rparr>"

definition Get :: "rtl_version \<Rightarrow> osv_state \<Rightarrow> OSVersion \<times> osv_state" where
  "Get rtl st =
     (let st = (if once_done st then st else \<lparr>osv = read_version rtl, once_done = True\<rparr>)
      in (osv st, st))"

definition Get_Build :: "rtl_version \<Rightarrow> osv_state \<Rightarrow> uint16 \<times> osv_state" where
  "Get_Build rtl st = (case Get rtl st of (v, st) \<Rightarrow> (Build v, st))"

definition OSVersion_String :: "OSVersion \<Rightarrow> string" where
  "OSVersion_String v =
     digits10 (unat (MajorVersion v)) @ ''.'' @ digits10 (unat (MinorVersion v)) @ ''.'' @ digits10 (unat (Build v))"

definition OSVersion_ToString :: "OSVersion \<Rightarrow> string" where
  "OSVersion_ToString v = OSVersion_String v"

text \<open>The registry answers whether the key opens and the value \<open>UBR\<close> of 64 bits.\<close>

definition BuildRevision :: "goerror option \<Rightarrow> goerror + uint64 \<Rightarrow> uint32 \<times> goerror option" where
  "BuildRevision open_err ubr =
     (case open_err of
        Some e \<Rightarrow> (0, Some (errors_New (''open `CurrentVersion` registry key: '' @ error_text e)))
      | None \<Rightarrow>
          (case ubr of
             Inl e \<Rightarrow> (0, Some (errors_New (''read `UBR` from registry: '' @ error_text e)))
           | Inr s \<Rightarrow> (ucast s, None)))"

subsection \<open>Host and container\<close>

definition compatLTSCReleases :: "uint16 list" where
  "compatLTSCReleases = [LTSC2022, LTSC2025]"

text \<open>The loop over the releases from the last to the first, left at the first one before the host.\<close>

fun supported_loop :: "uint16 \<Rightarrow> uint16 list \<Rightarrow> uint16 \<Rightarrow> uint16" where
  "supported_loop build [] supported = supported"
| "supported_loop build (r # rs) supported =
     (if build > r then r else supported_loop build rs supported)"

definition CheckHostAndContainerCompat :: "OSVersion \<Rightarrow> OSVersion \<Rightarrow> bool" where
  "CheckHostAndContainerCompat host ctr =
     (if MajorVersion host \<noteq> MajorVersion ctr \<or> MinorVersion host \<noteq> MinorVersion ctr then False
      else if Build host < LTSC2022 then Build host = Build ctr
      else let supportedLTSCRelease = supported_loop (Build host) (rev compatLTSCReleases) LTSC2022
           in supportedLTSCRelease \<le> Build ctr \<and> Build ctr \<le> Build host)"

subsection \<open>Properties\<close>

lemma supported_loop_rev_sorted:
  assumes "sorted rs" "\<forall>r\<in>set rs. d \<le> r"
  shows "supported_loop b (rev rs) d = Max (insert d {r \<in> set rs. r < b})"
  using assms
proof (induction rs rule: rev_induct)
  case (snoc r rs)
  have le: "\<forall>x\<in>set rs. x \<le> r" using snoc.prems(1) by (auto simp: sorted_append)
  show ?case
  proof (cases "r < b")
    case True
    have "Max (insert d {x \<in> set (rs @ [r]). x < b}) = r"
      using le True snoc.prems(2) by (intro Max_eqI) auto
    then show ?thesis using True by simp
  next
    case False
    then have "{x \<in> set (rs @ [r]). x < b} = {x \<in> set rs. x < b}" by auto
    then show ?thesis using False snoc by (simp add: sorted_append)
  qed
qed simp

text \<open>C37: the oldest container a host from Windows Server 2022 on can run is that of the latest
  long-term release before the host's build, or Windows Server 2022 when there is none: the check
  compares with the greatest entry of the table below the build, however long the table is.\<close>

theorem compat_window:
  "CheckHostAndContainerCompat host ctr \<longleftrightarrow>
     MajorVersion host = MajorVersion ctr \<and> MinorVersion host = MinorVersion ctr
   \<and> (if Build host < LTSC2022 then Build ctr = Build host
      else Max (insert LTSC2022 {r \<in> set compatLTSCReleases. r < Build host}) \<le> Build ctr \<and> Build ctr \<le> Build host)"
proof -
  have "sorted compatLTSCReleases" "\<forall>r\<in>set compatLTSCReleases. LTSC2022 \<le> r"
    by (simp_all add: compatLTSCReleases_def LTSC2022_def LTSC2025_def V21H2Server_def V25H1Server_def)
  then show ?thesis
    by (auto simp: CheckHostAndContainerCompat_def supported_loop_rev_sorted Let_def)
qed

lemma supported_le: "\<not> b < LTSC2022 \<Longrightarrow> supported_loop b (rev compatLTSCReleases) LTSC2022 \<le> b"
  by (auto simp: compatLTSCReleases_def)

text \<open>Every host runs containers of its own build, never ones newer than itself, and compatibility
  is antisymmetric on builds: two systems run each other's containers only when their builds agree.\<close>

lemma compat_order:
  "CheckHostAndContainerCompat v v
 \<and> \<not> (CheckHostAndContainerCompat host ctr \<and> Build host < Build ctr)
 \<and> (CheckHostAndContainerCompat host ctr \<and> CheckHostAndContainerCompat ctr host
      \<longleftrightarrow> MajorVersion host = MajorVersion ctr \<and> MinorVersion host = MinorVersion ctr \<and> Build host = Build ctr)"
proof -
  have refl: "CheckHostAndContainerCompat v v" for v
    using supported_le [of "Build v"] by (auto simp: CheckHostAndContainerCompat_def Let_def)
  have le: "Build ctr \<le> Build host" if "CheckHostAndContainerCompat host ctr" for host ctr
    using that by (auto simp: CheckHostAndContainerCompat_def Let_def split: if_splits)
  have same: "MajorVersion host = MajorVersion ctr \<and> MinorVersion host = MinorVersion ctr"
    if "CheckHostAndContainerCompat host ctr" for host ctr
    using that by (simp add: CheckHostAndContainerCompat_def split: if_splits)
  have cong: "CheckHostAndContainerCompat a b" if "MajorVersion a = MajorVersion b" "MinorVersion a = MinorVersion b"
    "Build a = Build b" for a b
    using that supported_le [of "Build b"] by (simp add: CheckHostAndContainerCompat_def Let_def)
  show ?thesis
    using refl le [of host ctr] le [of ctr host] same [of host ctr] cong [of host ctr] cong [of ctr host]
    by (metis order.antisym not_less)
qed

lemma bit_Version:
  "bit (Version (read_version v)) n \<longleftrightarrow>
     n < 32 \<and> (16 \<le> n \<and> bit (rtl_BuildNumber v) (n - 16) \<or> 8 \<le> n \<and> bit (rtl_MinorVersion v) (n - 8) \<or> bit (rtl_MajorVersion v) n)"
  by (auto simp: read_version_def bit_or_iff bit_push_bit_iff dest: bit_imp_le_length)

lemma bit_below:
  fixes x :: uint32
  assumes "uint x < 2 ^ k" "bit x n"
  shows "n < k"
proof -
  have "take_bit k (uint x) = uint x" using assms(1) by (simp add: take_bit_int_eq_self)
  moreover have "bit (uint x) n" using assms(2) bit_imp_le_length [OF assms(2)] by (simp add: bit_uint_iff)
  ultimately show ?thesis by (metis bit_take_bit_iff)
qed

text \<open>\<open>Get\<close> asks the system once: whatever later queries would answer, every call returns what the
  first one found. The packed version keeps all three numbers apart when they fit their widths.\<close>

lemma Get_once:
  assumes "rtl_MajorVersion v < 256" "rtl_MinorVersion v < 256" "rtl_BuildNumber v < 65536"
  shows "(case Get v initial_osv of (o1, st) \<Rightarrow> o1 = read_version v \<and> Get v' st = (o1, st))
     \<and> ucast (Version (read_version v)) = MajorVersion (read_version v)
     \<and> ucast (drop_bit 8 (Version (read_version v))) = MinorVersion (read_version v)
     \<and> ucast (drop_bit 16 (Version (read_version v))) = Build (read_version v)"
proof (intro conjI)
  have mj: "bit (rtl_MajorVersion v) n \<Longrightarrow> n < 8" for n
    by (rule bit_below) (use assms in \<open>simp_all add: word_less_def\<close>)
  have mn: "bit (rtl_MinorVersion v) n \<Longrightarrow> n < 8" for n
    by (rule bit_below) (use assms in \<open>simp_all add: word_less_def\<close>)
  show "case Get v initial_osv of (o1, st) \<Rightarrow> o1 = read_version v \<and> Get v' st = (o1, st)"
    by (simp add: Get_def initial_osv_def)
  show "ucast (Version (read_version v)) = MajorVersion (read_version v)"
    by (rule bit_word_eqI) (auto simp: bit_ucast_iff bit_Version, simp_all add: read_version_def bit_ucast_iff)
  show "ucast (drop_bit 8 (Version (read_version v))) = MinorVersion (read_version v)"
    by (rule bit_word_eqI)
       (auto simp: bit_ucast_iff bit_drop_bit_eq bit_Version dest: mj, simp_all add: read_version_def bit_ucast_iff)
  show "ucast (drop_bit 16 (Version (read_version v))) = Build (read_version v)"
    by (rule bit_word_eqI)
       (auto simp: bit_ucast_iff bit_drop_bit_eq bit_Version dest: mj mn, simp_all add: read_version_def bit_ucast_iff)
qed

end
