(* ===== verification/Os_Release.thy ===== *)
theory Os_Release
  imports Os_Version
begin

text \<open>
  \<open>pkg/os\<close>: the name and version of the operating system on Linux (\<open>operatingsystem_linux.go\<close>),
  on FreeBSD and macOS (\<open>operatingsystem_unix.go\<close>) and on Windows (\<open>operatingsystem_windows.go\<close>
  and \<open>windows_os_string.go\<close>).

  Files are a function from paths to an error or a content that is read without further error;
  \<open>uname\<close>, \<open>RtlGetVersion\<close> and the registry are parameters. The lines of a file are those of
  \<open>bufio.Scanner\<close>: it stops at a line longer than its buffer, and \<open>scanner.Err\<close> is not asked.
\<close>

subsection \<open>Lines of a file\<close>

definition newline :: char where "newline = CHR 0x0A"

definition raw_lines :: "string \<Rightarrow> string list" where
  "raw_lines s = (let ls = SplitOn newline s in if last ls = [] then butlast ls else ls)"

definition dropCR :: "string \<Rightarrow> string" where
  "dropCR l = (if l \<noteq> [] \<and> last l = CHR 0x0D then butlast l else l)"

definition MaxScanTokenSize :: nat where
  "MaxScanTokenSize = 65536"

definition scanner_lines :: "string \<Rightarrow> string list" where
  "scanner_lines s = map dropCR (takeWhile (\<lambda>l. length l < MaxScanTokenSize) (raw_lines s))"

subsection \<open>Linux\<close>

definition proc1Cgroup :: string where "proc1Cgroup = ''/proc/1/cgroup''"
definition etcOsRelease :: string where "etcOsRelease = ''/etc/os-release''"
definition altOsRelease :: string where "altOsRelease = ''/usr/lib/os-release''"

record filesystem =
  fs_open :: "string \<Rightarrow> goerror + string"
  fs_IsNotExist :: "goerror \<Rightarrow> bool"

definition quotes_and_space :: string where
  "quotes_and_space = [CHR 0x22, CHR 0x27, CHR '' '']"

text \<open>One round of the loop over the lines.\<close>

definition take_value :: "string \<Rightarrow> string \<Rightarrow> string \<Rightarrow> string" where
  "take_value key line value =
     (case CutPrefix line (key @ ''='') of None \<Rightarrow> value | Some after \<Rightarrow> Trim after quotes_and_space)"

definition getValueFromOsRelease :: "filesystem \<Rightarrow> string \<Rightarrow> string \<times> goerror option" where
  "getValueFromOsRelease fs key =
     (case (case fs_open fs etcOsRelease of
              Inr content \<Rightarrow> Inr content
            | Inl err \<Rightarrow> if \<not> fs_IsNotExist fs err then Inl err else fs_open fs altOsRelease) of
        Inl err \<Rightarrow> ('''', Some err)
      | Inr content \<Rightarrow> (fold (take_value key) (scanner_lines content) '''', None))"

definition GetOperatingSystem :: "filesystem \<Rightarrow> string \<times> goerror option" where
  "GetOperatingSystem fs =
     (case getValueFromOsRelease fs ''PRETTY_NAME'' of
        (prettyName, err) \<Rightarrow>
          if err \<noteq> None then ('''', err)
          else if prettyName \<noteq> '''' then (prettyName, None)
          else (''Linux'', None))"

definition GetOperatingSystemVersion :: "filesystem \<Rightarrow> string \<times> goerror option" where
  "GetOperatingSystemVersion fs = getValueFromOsRelease fs ''VERSION_ID''"

definition IsContainerized :: "filesystem \<Rightarrow> bool \<times> goerror option" where
  "IsContainerized fs =
     (case fs_open fs proc1Cgroup of
        Inl err \<Rightarrow> (False, Some err)
      | Inr b \<Rightarrow>
          (list_ex (\<lambda>line. length line > 0 \<and> \<not> HasSuffix line '':/'' \<and> \<not> HasSuffix line '':/init.scope'')
             (SplitOn newline b), None))"

subsection \<open>FreeBSD and macOS\<close>

definition GetOperatingSystem_unix :: "goerror + string \<Rightarrow> string \<times> goerror option" where
  "GetOperatingSystem_unix uname_machine =
     (case uname_machine of Inl err \<Rightarrow> ('''', Some err) | Inr machine \<Rightarrow> (machine, None))"

definition GetOperatingSystemVersion_unix :: "string \<times> goerror option" where
  "GetOperatingSystemVersion_unix = ('''', Some (errors_New ''Unsupported on generic unix''))"

definition IsContainerized_unix :: "bool \<times> goerror option" where
  "IsContainerized_unix = (False, Some (errors_New ''Cannot detect if we are in container''))"

subsection \<open>Windows\<close>

record windowsOSRelease =
  IsServer :: bool
  DisplayVersion :: string
  RelBuild :: uint32
  UBR :: uint64

definition windowsOSRelease_String :: "windowsOSRelease \<Rightarrow> string" where
  "windowsOSRelease_String r =
     ''Microsoft Windows''
     @ (if IsServer r then '' Server'' else '''')
     @ (if DisplayVersion r \<noteq> '''' then '' Version '' @ DisplayVersion r else '''')
     @ '' (OS Build '' @ digits10 (unat (RelBuild r))
     @ (if UBR r > 0 then ''.'' @ digits10 (unat (UBR r)) else '''')
     @ '')''"

definition verNTWorkstation :: uint8 where "verNTWorkstation = 1"

text \<open>The registry key, once open: its string and integer values, and which errors say that a value
  does not exist.\<close>

record registry_key =
  reg_string :: "string \<Rightarrow> goerror + string"
  reg_integer :: "string \<Rightarrow> goerror + uint64"
  reg_is_not_exist :: "goerror \<Rightarrow> bool"

fun getFirstStringValue :: "goerror \<Rightarrow> registry_key \<Rightarrow> string list \<Rightarrow> goerror + string" where
  "getFirstStringValue ErrNotExist key [] = Inl ErrNotExist"
| "getFirstStringValue ErrNotExist key (n # names) =
     (case reg_string key n of
        Inr val \<Rightarrow> Inr val
      | Inl err \<Rightarrow>
          if \<not> reg_is_not_exist key err then Inl err else getFirstStringValue ErrNotExist key names)"

definition GetOperatingSystem_windows ::
  "goerror \<Rightarrow> uint8 \<Rightarrow> uint32 \<Rightarrow> goerror + registry_key \<Rightarrow> string \<times> goerror option" where
  "GetOperatingSystem_windows ErrNotExist productType buildNumber open_key =
     (let rel = \<lparr>IsServer = (productType \<noteq> verNTWorkstation), DisplayVersion = '''', RelBuild = buildNumber, UBR = 0\<rparr>;
          rel = (case open_key of
                   Inl _ \<Rightarrow> rel
                 | Inr key \<Rightarrow>
                     let rel = (case getFirstStringValue ErrNotExist key [''DisplayVersion'', ''ReleaseId''] of
                                  Inr ver \<Rightarrow> rel\<lparr>DisplayVersion := ver\<rparr>
                                | Inl _ \<Rightarrow> rel)
                     in (case reg_integer key ''UBR'' of
                           Inr ubr \<Rightarrow> rel\<lparr>UBR := ubr\<rparr>
                         | Inl _ \<Rightarrow> rel))
      in (windowsOSRelease_String rel, None))"

definition GetOperatingSystemVersion_windows :: "rtl_version \<Rightarrow> osv_state \<Rightarrow> (string \<times> goerror option) \<times> osv_state" where
  "GetOperatingSystemVersion_windows rtl st = (case Get rtl st of (v, st) \<Rightarrow> ((OSVersion_ToString v, None), st))"

definition IsContainerized_windows :: "bool \<times> goerror option" where
  "IsContainerized_windows = (False, None)"

definition IsWindowsClient :: "uint8 \<Rightarrow> bool" where
  "IsWindowsClient productType = (productType = verNTWorkstation)"

subsection \<open>Vocabulary of the properties\<close>

text \<open>A file of assignments, as the specification of \<open>os-release\<close> recommends to write them.\<close>

definition quoted_line :: "string \<times> string \<Rightarrow> string" where
  "quoted_line kv = fst kv @ ''='' @ [CHR 0x22] @ snd kv @ [CHR 0x22]"

definition render :: "(string \<times> string) list \<Rightarrow> string" where
  "render kvs = concat (map (\<lambda>kv. quoted_line kv @ [newline]) kvs)"

definition plain_key :: "string \<Rightarrow> bool" where
  "plain_key k \<longleftrightarrow> newline \<notin> set k \<and> CHR ''='' \<notin> set k"

definition plain_value :: "string \<Rightarrow> bool" where
  "plain_value v \<longleftrightarrow> newline \<notin> set v
     \<and> (v = [] \<or> hd v \<notin> set quotes_and_space \<and> last v \<notin> set quotes_and_space)"

definition last_value :: "string \<Rightarrow> (string \<times> string) list \<Rightarrow> string" where
  "last_value key kvs = (case rev (filter (\<lambda>kv. fst kv = key) kvs) of [] \<Rightarrow> '''' | kv # _ \<Rightarrow> snd kv)"

definition demo_fs :: filesystem where
  "demo_fs = \<lparr>fs_open = (\<lambda>p. if p = altOsRelease
       then Inr (render [(''NAME'', ''Ex''), (''PRETTY_NAME'', ''Ex Linux 2''), (''VERSION_ID'', ''2'')])
       else Inl (errors_New ''no such file'')),
     fs_IsNotExist = (\<lambda>e. True)\<rparr>"

subsection \<open>Reading back a rendered file\<close>

lemma SplitOn_append_sep: "d \<notin> set l \<Longrightarrow> SplitOn d (l @ d # rest) = l # SplitOn d rest"
  by (induction l) auto

lemma raw_lines_rendered:
  "(\<forall>l\<in>set ls. newline \<notin> set l) \<Longrightarrow> raw_lines (concat (map (\<lambda>l. l @ [newline]) ls)) = ls"
proof -
  assume "\<forall>l\<in>set ls. newline \<notin> set l"
  then have "SplitOn newline (concat (map (\<lambda>l. l @ [newline]) ls)) = ls @ [[]]"
    by (induction ls) (auto simp: SplitOn_append_sep)
  then show ?thesis by (simp add: raw_lines_def Let_def)
qed

lemma dropCR_quoted [simp]: "dropCR (quoted_line kv) = quoted_line kv"
  by (simp add: dropCR_def quoted_line_def)

lemma key_prefix:
  assumes "plain_key k" "plain_key key"
  shows "CutPrefix (quoted_line (k, v)) (key @ ''='') =
     (if k = key then Some ([CHR 0x22] @ v @ [CHR 0x22]) else None)"
proof -
  have "k = key" if "k @ CHR ''='' # r = key @ CHR ''='' # t" for r t
  proof -
    have "takeWhile (\<lambda>c. c \<noteq> CHR ''='') (k @ CHR ''='' # r) = k"
      "takeWhile (\<lambda>c. c \<noteq> CHR ''='') (key @ CHR ''='' # t) = key"
      using assms by (auto simp: plain_key_def intro!: takeWhile_app_stop)
    then show ?thesis using that by simp
  qed
  then show ?thesis
    by (auto simp: CutPrefix_def HasPrefix_iff quoted_line_def)
qed

lemma Trim_quoted:
  assumes "plain_value v"
  shows "Trim ([CHR 0x22] @ v @ [CHR 0x22]) quotes_and_space = v"
proof (cases "v = []")
  case True
  then show ?thesis by (simp add: Trim_def TrimLeft_def TrimRight_def quotes_and_space_def)
next
  case False
  then have h: "hd v \<notin> set quotes_and_space" "last v \<notin> set quotes_and_space"
    using assms by (auto simp: plain_value_def)
  have q: "CHR 0x22 \<in> set quotes_and_space" by (simp add: quotes_and_space_def)
  have l: "dropWhile (\<lambda>c. c \<in> set quotes_and_space) (v @ [CHR 0x22]) = v @ [CHR 0x22]"
    using False h(1) by (cases v) auto
  have "hd (rev v) \<notin> set quotes_and_space" using h(2) False by (simp add: hd_rev)
  then have r: "dropWhile (\<lambda>c. c \<in> set quotes_and_space) (rev v) = rev v"
    using False by (cases "rev v") auto
  show ?thesis using q l r by (simp add: Trim_def TrimLeft_def TrimRight_def)
qed

lemma take_value_quoted:
  "plain_key k \<Longrightarrow> plain_key key \<Longrightarrow> plain_value v \<Longrightarrow>
     take_value key (quoted_line (k, v)) value = (if k = key then v else value)"
  using Trim_quoted [of v] by (simp add: take_value_def key_prefix)

lemma fold_take_value:
  assumes "plain_key key" "\<forall>kv\<in>set kvs. plain_key (fst kv) \<and> plain_value (snd kv)"
  shows "fold (take_value key) (map quoted_line kvs) '''' = last_value key kvs"
  using assms(2)
proof (induction kvs rule: rev_induct)
  case (snoc kv kvs)
  then show ?case using assms(1) by (cases kv) (auto simp: take_value_quoted last_value_def)
qed (simp add: last_value_def)

lemma scanner_lines_render:
  assumes "\<forall>kv\<in>set kvs. plain_key (fst kv) \<and> plain_value (snd kv) \<and> length (quoted_line kv) < MaxScanTokenSize"
  shows "scanner_lines (render kvs) = map quoted_line kvs"
proof -
  have "\<forall>l\<in>set (map quoted_line kvs). newline \<notin> set l"
    using assms by (auto simp: quoted_line_def plain_key_def plain_value_def newline_def)
  then have raw: "raw_lines (render kvs) = map quoted_line kvs"
    using raw_lines_rendered [of "map quoted_line kvs"] by (simp add: render_def o_def)
  have short: "takeWhile (\<lambda>l. length l < MaxScanTokenSize) (map quoted_line kvs) = map quoted_line kvs"
    using assms by (simp add: takeWhile_eq_all_conv)
  show ?thesis unfolding scanner_lines_def raw short by (simp add: o_def)
qed



end
