(* ===== verification/Httpstat.thy ===== *)
theory Httpstat
  imports Go_Strings "HOL-Library.List_Lexorder" "HOL-Library.Char_ord" "HOL-Library.Product_Lexorder" "HOL-Library.Multiset"
begin

text \<open>
  \<open>cmd/httpstat\<close>, first part: what the program sends and where it puts what it receives. URL, headers
  and body of the request, the client certificate and the TLS settings, the name of the file that
  receives the body, and the order in which headers are printed. \<open>Httpstat_Visit\<close> puts the parts
  together.

  \<open>url.Parse\<close>, \<open>http.NewRequest\<close>, \<open>mime.ParseMediaType\<close>, \<open>encoding/pem\<close>, \<open>tls.X509KeyPair\<close> and the
  file system are functions of an environment; the theorems hold for every environment, or name what
  they need of it. A call of \<open>log.Fatal\<close> or \<open>os.Exit\<close> ends the program: it is a value, with the
  beginning of the message.
\<close>

subsection \<open>Strings\<close>

fun Contains :: "string \<Rightarrow> string \<Rightarrow> bool" where
  "Contains [] sub = (sub = [])"
| "Contains (c # cs) sub = (HasPrefix (c # cs) sub \<or> Contains cs sub)"

text \<open>\<open>path.Base\<close>: trailing slashes removed, then everything up to the last slash.\<close>

definition Base :: "string \<Rightarrow> string" where
  "Base path =
     (if path = '''' then ''.''
      else let path = rev (dropWhile (\<lambda>c. c = CHR ''/'') (rev path));
               path = rev (takeWhile (\<lambda>c. c \<noteq> CHR ''/'') (rev path))
           in if path = '''' then ''/'' else path)"

text \<open>\<open>strings.EqualFold\<close> with an ASCII string: ASCII letters in either case, and the long s (U+017F,
  the bytes C5 BF), which folds to s.\<close>

definition ascii_lower :: "char \<Rightarrow> char" where
  "ascii_lower c = (let n = of_char c :: nat in if 65 \<le> n \<and> n \<le> 90 then char_of (n + 32) else c)"

fun fold_ascii :: "string \<Rightarrow> string" where
  "fold_ascii (c # d # cs) =
     (if c = CHR 0xC5 \<and> d = CHR 0xBF then CHR ''s'' # fold_ascii cs else ascii_lower c # fold_ascii (d # cs))"
| "fold_ascii [c] = [ascii_lower c]"
| "fold_ascii [] = []"

text \<open>\<open>net.SplitHostPort\<close>; every error is \<^const>\<open>None\<close>. The port starts after the last colon; a
  bracketed host ends right before that colon, any other has no colon of its own, and no bracket stands
  elsewhere.\<close>

definition index_of :: "char \<Rightarrow> string \<Rightarrow> nat" where
  "index_of c s = length (takeWhile (\<lambda>d. d \<noteq> c) s)"

definition SplitHostPort :: "string \<Rightarrow> (string \<times> string) option" where
  "SplitHostPort hostport =
     (if CHR '':'' \<notin> set hostport then None
      else let i = length hostport - 1 - index_of CHR '':'' (rev hostport);
               port = drop (i + 1) hostport
           in if hd hostport = CHR ''[''
              then let e = index_of CHR '']'' hostport
                   in if CHR '']'' \<notin> set hostport \<or> e + 1 \<noteq> i \<or> CHR ''['' \<in> set (drop 1 hostport)
                         \<or> CHR '']'' \<in> set (drop (e + 1) hostport) then None
                      else Some (drop 1 (take e hostport), port)
              else let host = take i hostport
                   in if CHR '':'' \<in> set host \<or> CHR ''['' \<in> set hostport \<or> CHR '']'' \<in> set hostport then None
                      else Some (host, port))"

subsection \<open>Data\<close>

record 'u url =
  Scheme :: string
  Host :: string
  url_rest :: 'u

type_synonym headers = "string list"

record flags =
  httpMethod :: string
  postBody :: string
  followRedirects :: bool
  onlyHeader :: bool
  insecure :: bool
  httpHeaders :: headers
  saveOutput :: bool
  outputFile :: string
  showVersion :: bool
  clientCertFile :: string
  fourOnly :: bool
  sixOnly :: bool

text \<open>How a call ends: it returns, the program exits with a code or with a message of \<open>log.Fatal\<close>, or the
  call never returns.\<close>

datatype 'a flow = Ok (un_Ok: 'a) | Exit int | Fatal string | Loops

primrec bind_flow :: "'a flow \<Rightarrow> ('a \<Rightarrow> 'b flow) \<Rightarrow> 'b flow" where
  "bind_flow (Ok a) f = f a"
| "bind_flow (Exit n) f = Exit n"
| "bind_flow (Fatal m) f = Fatal m"
| "bind_flow Loops f = Loops"

datatype body = Body_text string | Body_file string

text \<open>A request. \<open>req_Header\<close> lists the pairs given to \<open>Header.Add\<close>.\<close>

record 'u request =
  req_Method :: string
  req_URL :: "'u url"
  req_Host :: string
  req_Body :: body
  req_Header :: "(string \<times> string) list"

datatype 'u location = No_location | Location_error goerror | Location "'u url"

text \<open>A response: \<open>resp_Header\<close> lists the entries of the map in the order of one iteration, and
  \<open>TLS_Version\<close> is the version field of \<open>resp.TLS\<close> when that is not nil.\<close>

record 'u response =
  StatusCode :: int
  Status :: string
  ProtoMajor :: int
  ProtoMinor :: int
  TLS_Version :: "int option"
  resp_Header :: "(string \<times> string list) list"
  resp_Location :: "'u location"

record pem_block =
  block_Type :: string
  block_Headers :: "(string \<times> string) list"
  block_Bytes :: string

text \<open>A \<open>tls.Certificate\<close> is known by the two texts it was made from.\<close>

datatype certificate = Certificate (cert_pem: string) (key_pem: string)

record tls_config =
  ServerName :: string
  InsecureSkipVerify :: bool
  Certificates :: "certificate slice"
  MinVersion :: int

record transport =
  tr_network :: string
  tr_TLSClientConfig :: "tls_config option"

text \<open>The libraries and the system: \<open>NewRequest\<close> answers the URL and the host of the request made from
  a method and the text of a URL.\<close>

record 'u libraries =
  lib_Parse :: "string \<Rightarrow> goerror + 'u url"
  lib_NewRequest :: "string \<Rightarrow> 'u url \<Rightarrow> goerror + 'u url \<times> string"
  lib_RequestURI :: "'u url \<Rightarrow> string"
  lib_ParseMediaType :: "string \<Rightarrow> string \<times> (string \<Rightarrow> string) \<times> goerror option"
  lib_Decode :: "string \<Rightarrow> (pem_block \<times> string) option"
  lib_EncodeToMemory :: "pem_block \<Rightarrow> string"
  lib_X509KeyPair :: "string \<Rightarrow> string \<Rightarrow> goerror option"
  lib_ReadFile :: "string \<Rightarrow> goerror + string"
  lib_Open :: "string \<Rightarrow> goerror option"
  lib_Create :: "string \<Rightarrow> goerror option"
  lib_Copy :: "'u response \<Rightarrow> goerror option"

subsection \<open>The request\<close>

definition parseURL :: "'u libraries \<Rightarrow> string \<Rightarrow> 'u url flow" where
  "parseURL lib uri =
     (let uri = (if \<not> Contains uri ''://'' \<and> \<not> HasPrefix uri ''//'' then ''//'' @ uri else uri)
      in case lib_Parse lib uri of
           Inl _ \<Rightarrow> Fatal ''could not parse url''
         | Inr url \<Rightarrow>
             Ok (if Scheme url = ''''
                 then let url = url\<lparr>Scheme := ''http''\<rparr>
                      in if \<not> HasSuffix (Host url) '':80'' then url\<lparr>Scheme := Scheme url @ ''s''\<rparr> else url
                 else url))"

definition headerKeyValue :: "string \<Rightarrow> (string \<times> string) flow" where
  "headerKeyValue h =
     (if CHR '':'' \<notin> set h then Fatal ''Header has invalid format''
      else let i = index_of CHR '':'' h
           in Ok (TrimRight (take i h) '' '', TrimLeft (drop i h) '' :''))"

definition createBody :: "'u libraries \<Rightarrow> string \<Rightarrow> body flow" where
  "createBody lib body =
     (if HasPrefix body ''@''
      then let filename = drop 1 body
           in (case lib_Open lib filename of
                 Some _ \<Rightarrow> Fatal ''failed to open data file''
               | None \<Rightarrow> Ok (Body_file filename))
      else Ok (Body_text body))"

text \<open>The loop over the headers given on the command line.\<close>

fun add_headers :: "headers \<Rightarrow> 'u request \<Rightarrow> 'u request flow" where
  "add_headers [] req = Ok req"
| "add_headers (h # hs) req =
     bind_flow (headerKeyValue h) (\<lambda>(k, v).
       if fold_ascii k = ''host'' then add_headers hs (req\<lparr>req_Host := v\<rparr>)
       else add_headers hs (req\<lparr>req_Header := req_Header req @ [(k, v)]\<rparr>))"

text \<open>\<open>http.NewRequest\<close> takes an empty method for GET.\<close>

definition newRequest :: "'u libraries \<Rightarrow> flags \<Rightarrow> 'u url \<Rightarrow> 'u request flow" where
  "newRequest lib fl url =
     bind_flow (createBody lib (postBody fl)) (\<lambda>body.
       case lib_NewRequest lib (httpMethod fl) url of
         Inl _ \<Rightarrow> Fatal ''unable to create request''
       | Inr (url', host) \<Rightarrow>
           add_headers (httpHeaders fl)
             \<lparr>req_Method = (if httpMethod fl = '''' then ''GET'' else httpMethod fl), req_URL = url',
              req_Host = host, req_Body = body, req_Header = []\<rparr>)"

subsection \<open>The client certificate and the transport\<close>

text \<open>The loop over the blocks of the file: the loop ends only if decoding comes to an end.\<close>

partial_function (option) pem_loop ::
  "'u libraries \<Rightarrow> string \<Rightarrow> string \<Rightarrow> string \<Rightarrow> (string \<times> string) option" where
  "pem_loop lib certFileBytes pkeyPem certPem =
     (case lib_Decode lib certFileBytes of
        None \<Rightarrow> Some (pkeyPem, certPem)
      | Some (block, rest) \<Rightarrow>
          pem_loop lib rest
            (if HasSuffix (block_Type block) ''PRIVATE KEY'' then lib_EncodeToMemory lib block else pkeyPem)
            (if HasSuffix (block_Type block) ''CERTIFICATE'' then lib_EncodeToMemory lib block else certPem))"

definition readClientCert :: "'u libraries \<Rightarrow> string \<Rightarrow> certificate slice flow" where
  "readClientCert lib filename =
     (if filename = '''' then Ok None
      else case lib_ReadFile lib filename of
          Inl _ \<Rightarrow> Fatal ''failed to read client certificate file''
        | Inr certFileBytes \<Rightarrow>
            (case pem_loop lib certFileBytes '''' '''' of
               None \<Rightarrow> Loops
             | Some (pkeyPem, certPem) \<Rightarrow>
                 (case lib_X509KeyPair lib certPem pkeyPem of
                    Some _ \<Rightarrow> Fatal ''unable to load client cert and key pair''
                  | None \<Rightarrow> Ok (Some [Certificate certPem pkeyPem]))))"

definition VersionTLS12 :: int where "VersionTLS12 = 0x0303"
definition VersionTLS13 :: int where "VersionTLS13 = 0x0304"

text \<open>The two switches of \<open>visit\<close> that complete the transport.\<close>

definition dial_network :: "flags \<Rightarrow> string" where
  "dial_network fl = (if fourOnly fl then ''tcp4'' else if sixOnly fl then ''tcp6'' else ''tcp'')"

definition transport_for :: "'u libraries \<Rightarrow> flags \<Rightarrow> 'u url \<Rightarrow> 'u request \<Rightarrow> transport flow" where
  "transport_for lib fl url req =
     (if Scheme url = ''https''
      then let host = (case SplitHostPort (req_Host req) of None \<Rightarrow> req_Host req | Some (host, _) \<Rightarrow> host)
           in bind_flow (readClientCert lib (clientCertFile fl)) (\<lambda>certs.
                Ok \<lparr>tr_network = dial_network fl, tr_TLSClientConfig = Some \<lparr>ServerName = host,
                    InsecureSkipVerify = insecure fl, Certificates = certs, MinVersion = VersionTLS12\<rparr>\<rparr>)
      else Ok \<lparr>tr_network = dial_network fl, tr_TLSClientConfig = None\<rparr>)"

subsection \<open>The response\<close>

definition isRedirect :: "'u response \<Rightarrow> bool" where
  "isRedirect resp = (StatusCode resp > 299 \<and> StatusCode resp < 400)"

definition connectedVia :: "'u response \<Rightarrow> string" where
  "connectedVia resp =
     (case TLS_Version resp of
        None \<Rightarrow> ''plaintext''
      | Some v \<Rightarrow> if v = VersionTLS12 then ''TLSv1.2'' else if v = VersionTLS13 then ''TLSv1.3'' else ''plaintext'')"

text \<open>\<open>Header.Get\<close> of a key in canonical form.\<close>

definition header_Get :: "(string \<times> string list) list \<Rightarrow> string \<Rightarrow> string" where
  "header_Get hdr key = (case map_of hdr key of Some (v # _) \<Rightarrow> v | _ \<Rightarrow> '''')"

definition getFilenameFromHeaders :: "'u libraries \<Rightarrow> (string \<times> string list) list \<Rightarrow> string" where
  "getFilenameFromHeaders lib headers =
     (let hdr = header_Get headers ''Content-Disposition'' in
      if hdr \<noteq> ''''
      then case lib_ParseMediaType lib hdr of
             (mt, params, err) \<Rightarrow>
               if err = None \<and> mt = ''attachment''
               then let filename = params ''filename'' in if filename \<noteq> '''' then filename else ''''
               else ''''
      else '''')"

text \<open>The name of the file to create: none when the body is discarded.\<close>

definition output_filename :: "'u libraries \<Rightarrow> flags \<Rightarrow> 'u request \<Rightarrow> 'u response \<Rightarrow> string option flow" where
  "output_filename lib fl req resp =
     (if saveOutput fl \<or> outputFile fl \<noteq> ''''
      then if saveOutput fl
           then let filename = Base (getFilenameFromHeaders lib (resp_Header resp));
                    filename = (if filename = ''.'' then Base (lib_RequestURI lib (req_URL req)) else filename)
                in if filename = ''/'' \<or> filename = ''.'' \<or> filename = ''..''
                   then Fatal ''No remote filename''
                   else Ok (Some filename)
           else Ok (Some (outputFile fl))
      else Ok None)"

text \<open>The files created and the message returned. An error of a copy to \<open>io.Discard\<close> is ignored.\<close>

definition readResponseBody ::
  "'u libraries \<Rightarrow> flags \<Rightarrow> 'u request \<Rightarrow> 'u response \<Rightarrow> string list \<times> string flow" where
  "readResponseBody lib fl req resp =
     (if isRedirect resp \<or> req_Method req = ''HEAD'' then ([], Ok '''')
      else case output_filename lib fl req resp of
          Exit n \<Rightarrow> ([], Exit n)
        | Fatal m \<Rightarrow> ([], Fatal m)
        | Loops \<Rightarrow> ([], Loops)
        | Ok None \<Rightarrow> ([], Ok ''Body discarded'')
        | Ok (Some filename) \<Rightarrow>
            (case lib_Create lib filename of
               Some _ \<Rightarrow> ([], Fatal ''unable to create file'')
             | None \<Rightarrow>
                 (case lib_Copy lib resp of
                    Some _ \<Rightarrow> ([filename], Fatal ''failed to read response body'')
                  | None \<Rightarrow> ([filename], Ok ''Body read''))))"

subsection \<open>Headers\<close>

definition headers_String :: "headers \<Rightarrow> string" where
  "headers_String h = Join (map (\<lambda>v. ''-H '' @ v) h) '' ''"

definition headers_Set :: "headers \<Rightarrow> string \<Rightarrow> headers" where
  "headers_Set h v = h @ [v]"

definition headers_Len :: "headers \<Rightarrow> nat" where
  "headers_Len h = length h"

definition headers_Swap :: "headers \<Rightarrow> nat \<Rightarrow> nat \<Rightarrow> headers" where
  "headers_Swap h i j = h[i := h ! j, j := h ! i]"

definition endtoend :: "string \<Rightarrow> bool" where
  "endtoend n = (n \<notin> {''Connection'', ''Keep-Alive'', ''Proxy-Authenticate'', ''Proxy-Authorization'',
     ''TE'', ''Trailers'', ''Transfer-Encoding'', ''Upgrade''})"

definition headers_Less :: "headers \<Rightarrow> nat \<Rightarrow> nat \<Rightarrow> bool" where
  "headers_Less h i j =
     (let a = h ! i; b = h ! j in
      if a = ''Server'' then True
      else if b = ''Server'' then False
      else let x = endtoend a; y = endtoend b in if x = y then a < b else x)"

text \<open>\<open>sort.Sort\<close> by insertion, which is what it does to a short list: \<open>headers_sift\<close> moves the element at
  an index down to its place. The order that results does not depend on the algorithm, see \<open>header_order\<close>.\<close>

fun headers_sift :: "headers \<Rightarrow> nat \<Rightarrow> headers" where
  "headers_sift h 0 = h"
| "headers_sift h (Suc j) =
     (if headers_Less h (Suc j) j then headers_sift (headers_Swap h (Suc j) j) j else h)"

definition Sort_headers :: "headers \<Rightarrow> headers" where
  "Sort_headers h = fold (\<lambda>i h. headers_sift h i) [1..<headers_Len h] h"

subsection \<open>Vocabulary of the properties\<close>

text \<open>A name that stays in the directory the program runs in.\<close>

definition local_name :: "string \<Rightarrow> bool" where
  "local_name f \<longleftrightarrow> CHR ''/'' \<notin> set f \<and> f \<notin> {'''', ''.'', ''..''}"

text \<open>The place of a header: \<open>Server\<close>, then end-to-end headers, then the others, each by name.\<close>

definition header_rank :: "string \<Rightarrow> nat \<times> string" where
  "header_rank n = (if n = ''Server'' then 0 else if endtoend n then 1 else 2, n)"

text \<open>What a run of any sorting algorithm over \<open>sort.Interface\<close> does to a list of headers: it exchanges elements, and stops at an order
  in which no element is less than the one before it.\<close>

inductive swapped :: "headers \<Rightarrow> headers \<Rightarrow> bool" where
  none: "swapped h h"
| swap: "swapped h h' \<Longrightarrow> i < headers_Len h' \<Longrightarrow> j < headers_Len h' \<Longrightarrow> swapped h (headers_Swap h' i j)"

definition in_order :: "headers \<Rightarrow> bool" where
  "in_order h \<longleftrightarrow> (\<forall>i < headers_Len h - 1. \<not> headers_Less h (i + 1) i)"

text \<open>The blocks of a file, one after the other, for a decoder that consumes what it decodes.\<close>

definition decode_consumes :: "'u libraries \<Rightarrow> bool" where
  "decode_consumes lib \<longleftrightarrow> (\<forall>s b rest. lib_Decode lib s = Some (b, rest) \<longrightarrow> length rest < length s)"

fun blocks_within :: "nat \<Rightarrow> 'u libraries \<Rightarrow> string \<Rightarrow> pem_block list" where
  "blocks_within 0 lib s = []"
| "blocks_within (Suc n) lib s =
     (case lib_Decode lib s of None \<Rightarrow> [] | Some (b, rest) \<Rightarrow> b # blocks_within n lib rest)"

definition last_block :: "string \<Rightarrow> pem_block list \<Rightarrow> pem_block option" where
  "last_block suffix bs =
     (case rev (filter (\<lambda>b. HasSuffix (block_Type b) suffix) bs) of [] \<Rightarrow> None | b # _ \<Rightarrow> Some b)"

definition demo_flags :: flags where
  "demo_flags = \<lparr>httpMethod = ''GET'', postBody = '''', followRedirects = True, onlyHeader = False,
     insecure = False, httpHeaders = [], saveOutput = True, outputFile = '''', showVersion = False,
     clientCertFile = ''client.pem'', fourOnly = False, sixOnly = False\<rparr>"

text \<open>Libraries for the examples: a decoder that takes one character for a block, and a server that names
  a file elsewhere.\<close>

definition demo_lib :: "unit libraries" where
  "demo_lib = \<lparr>lib_Parse = (\<lambda>s. Inr \<lparr>Scheme = ''http'', Host = ''example.org'', url_rest = ()\<rparr>),
     lib_NewRequest = (\<lambda>m u. Inr (u, Host u)), lib_RequestURI = (\<lambda>u. ''/''),
     lib_ParseMediaType = (\<lambda>s. (''attachment'', (\<lambda>k. ''../../etc/passwd''), None)),
     lib_Decode = (\<lambda>s. case s of [] \<Rightarrow> None
                     | c # cs \<Rightarrow> Some (\<lparr>block_Type = if c = CHR ''K'' then ''RSA PRIVATE KEY'' else ''CERTIFICATE'',
                                       block_Headers = [], block_Bytes = [c]\<rparr>, cs)),
     lib_EncodeToMemory = block_Bytes, lib_X509KeyPair = (\<lambda>c k. None), lib_ReadFile = (\<lambda>f. Inr ''aKb''),
     lib_Open = (\<lambda>f. None), lib_Create = (\<lambda>f. None), lib_Copy = (\<lambda>r. None)\<rparr>"

subsection \<open>Files\<close>

lemma Base_name: "Base p = ''/'' \<or> CHR ''/'' \<notin> set (Base p) \<and> Base p \<noteq> ''''"
  by (auto simp: Base_def Let_def dest: set_takeWhileD)

lemma output_filename_local:
  assumes "output_filename lib fl req resp = Ok (Some f)" "saveOutput fl"
  shows "local_name f"
proof -
  let ?g = "Base (getFilenameFromHeaders lib (resp_Header resp))" and ?u = "Base (lib_RequestURI lib (req_URL req))"
  have "f \<noteq> ''/''" "f \<noteq> ''.''" "f \<noteq> ''..''" "f = ?g \<or> f = ?u"
    using assms by (auto simp: output_filename_def Let_def split: if_splits)
  then show ?thesis
    using Base_name [of "getFilenameFromHeaders lib (resp_Header resp)"] Base_name [of "lib_RequestURI lib (req_URL req)"]
    by (auto simp: local_name_def)
qed

lemma readResponseBody_local:
  assumes "saveOutput fl" "f \<in> set (fst (readResponseBody lib fl req resp))"
  shows "local_name f"
  using assms output_filename_local [of lib fl req resp]
  by (auto simp: readResponseBody_def split: if_splits flow.splits option.splits)

subsection \<open>The command line headers\<close>

lemma index_of_stop: "c \<notin> set s \<Longrightarrow> index_of c (s @ c # t) = length s"
  unfolding index_of_def by (subst takeWhile_app_stop) auto

text \<open>A header written \<open>key: value\<close> is taken apart into its two parts.\<close>

lemma headerKeyValue_roundtrip:
  assumes "CHR '':'' \<notin> set k" "k \<noteq> [] \<longrightarrow> last k \<noteq> CHR '' ''" "v = [] \<or> hd v \<notin> set '' :''"
  shows "headerKeyValue (k @ '': '' @ v) = Ok (k, v)"
proof -
  have i: "index_of CHR '':'' (k @ '': '' @ v) = length k"
    using index_of_stop [OF assms(1), of "'' '' @ v"] by simp
  have "TrimRight k '' '' = k"
    using assms(2) by (cases k rule: rev_cases) (auto simp: TrimRight_def)
  moreover have "TrimLeft ('': '' @ v) '' :'' = v"
    using assms(3) by (cases v) (auto simp: TrimLeft_def)
  moreover have "take (length k) (k @ '': '' @ v) = k" "drop (length k) (k @ '': '' @ v) = '': '' @ v"
    by simp_all
  ultimately show ?thesis unfolding headerKeyValue_def i Let_def by simp
qed

subsection \<open>The printed headers\<close>

lemma swapped_mset: "swapped h h' \<Longrightarrow> mset h' = mset h"
  by (induction rule: swapped.induct) (simp_all add: headers_Swap_def headers_Len_def mset_swap)

lemma headers_Less_rank:
  assumes "h ! i \<noteq> h ! j"
  shows "headers_Less h i j \<longleftrightarrow> header_rank (h ! i) < header_rank (h ! j)"
  using assms by (auto simp: headers_Less_def header_rank_def Let_def)

lemma in_order_sorted:
  assumes "distinct h" "in_order h"
  shows "sorted (map header_rank h)"
proof -
  have "header_rank (h ! i) \<le> header_rank (h ! Suc i)" if "Suc i < length h" for i
  proof -
    have "h ! Suc i \<noteq> h ! i" using assms(1) that by (simp add: nth_eq_iff_index_eq)
    moreover have "\<not> headers_Less h (Suc i) i" using assms(2) that by (auto simp: in_order_def headers_Len_def)
    ultimately show ?thesis by (simp add: headers_Less_rank)
  qed
  then show ?thesis by (auto simp: sorted_iff_nth_Suc)
qed

lemma headers_sift_insert:
  assumes "distinct (x # xs)" "sorted (map header_rank xs)"
  shows "\<exists>zs. headers_sift (xs @ x # ys) (length xs) = zs @ ys \<and> mset zs = mset (x # xs) \<and> sorted (map header_rank zs)"
  using assms
proof (induction xs arbitrary: ys rule: rev_induct)
  case Nil
  then show ?case by (intro exI [of _ "[x]"]) simp
next
  case (snoc y xs)
  let ?h = "(xs @ [y]) @ x # ys"
  have at: "?h ! length xs = y" "?h ! Suc (length xs) = x" by (simp_all add: nth_append)
  have less: "headers_Less ?h (Suc (length xs)) (length xs) \<longleftrightarrow> header_rank x < header_rank y"
    using headers_Less_rank [of ?h "Suc (length xs)" "length xs"] snoc.prems(1) unfolding at by auto
  show ?case
  proof (cases "header_rank x < header_rank y")
    case True
    obtain zs where zs: "headers_sift (xs @ x # y # ys) (length xs) = zs @ y # ys" "mset zs = mset (x # xs)"
        "sorted (map header_rank zs)"
      using snoc.IH [of "y # ys"] snoc.prems by (auto simp: sorted_append)
    have swap: "headers_Swap ?h (Suc (length xs)) (length xs) = xs @ x # y # ys"
      unfolding headers_Swap_def at by (simp add: list_update_append)
    have "header_rank z \<le> header_rank y" if "z \<in> set zs" for z
      using that mset_eq_setD [OF zs(2)] snoc.prems(2) True by (auto simp: sorted_append)
    then show ?thesis
      using True zs less swap by (intro exI [of _ "zs @ [y]"]) (simp add: sorted_append)
  next
    case False
    then show ?thesis
      using less snoc.prems(2) by (intro exI [of _ "xs @ [y, x]"]) (auto simp: sorted_append)
  qed
qed

lemma Sort_headers_sorts:
  assumes "distinct h"
  shows "Sort_headers h = sort_key header_rank h"
proof -
  let ?f = "\<lambda>n. fold (\<lambda>i h. headers_sift h i) [1..<Suc n] h"
  have inv: "\<exists>zs. ?f n = zs @ drop (Suc n) h \<and> mset zs = mset (take (Suc n) h) \<and> sorted (map header_rank zs)"
    if "Suc n \<le> length h" for n
    using that
  proof (induction n)
    case 0
    then show ?case by (intro exI [of _ "take 1 h"]) (cases h, simp_all)
  next
    case (Suc n)
    then obtain zs where zs: "?f n = zs @ drop (Suc n) h" "mset zs = mset (take (Suc n) h)" "sorted (map header_rank zs)"
      by auto
    let ?x = "h ! Suc n"
    have x: "drop (Suc n) h = ?x # drop (Suc (Suc n)) h" using Suc.prems by (simp add: Cons_nth_drop_Suc)
    have len: "length zs = Suc n" using zs(2) Suc.prems by (metis length_take min.absorb2 Suc_leD size_mset)
    have tk: "take (Suc (Suc n)) h = take (Suc n) h @ [?x]" using Suc.prems by (simp add: take_Suc_conv_app_nth)
    have "distinct (take (Suc n) h @ [?x])" using assms tk by (metis distinct_take)
    then have d: "distinct (?x # zs)" using zs(2) mset_eq_setD [OF zs(2)] mset_eq_imp_distinct_iff [OF zs(2)] by auto
    have step: "?f (Suc n) = headers_sift (zs @ ?x # drop (Suc (Suc n)) h) (length zs)"
      using zs(1) x len by (simp add: upt_conv_Cons)
    show ?case using headers_sift_insert [OF d zs(3), of "drop (Suc (Suc n)) h"] step zs(2) tk by auto
  qed
  show ?thesis
  proof (cases h)
    case Nil
    then show ?thesis by (simp add: Sort_headers_def headers_Len_def)
  next
    case (Cons a as)
    then obtain zs where "Sort_headers h = zs" "mset zs = mset h" "sorted (map header_rank zs)"
      using inv [of "length h - 1"] by (auto simp: Sort_headers_def headers_Len_def)
    moreover have "inj_on header_rank (set h)" by (auto simp: inj_on_def header_rank_def)
    ultimately show ?thesis using sort_key_inj_key_eq [of h zs header_rank] by simp
  qed
qed

text \<open>C35: the headers of a response are printed in one order only. The names are the keys of a map, so
  distinct: sorting puts \<open>Server\<close> first, then the end-to-end headers and then the hop-by-hop ones, each
  by name, and every algorithm that exchanges elements until \<open>Less\<close> finds them in order gives that.\<close>

theorem header_order:
  assumes "distinct names" "swapped names other" "in_order other"
  shows "Sort_headers names = sort_key header_rank names \<and> other = Sort_headers names"
proof -
  have m: "mset other = mset names" using assms(2) by (rule swapped_mset)
  then have "distinct other" using assms(1) by (metis mset_eq_imp_distinct_iff)
  then have "sorted (map header_rank other)" using assms(3) by (rule in_order_sorted)
  moreover have "inj_on header_rank (set names)" by (auto simp: inj_on_def header_rank_def)
  ultimately show ?thesis
    using m sort_key_inj_key_eq [of names other header_rank] Sort_headers_sorts [OF assms(1)] by simp
qed

theorem header_order_witness:
  "swapped [''Upgrade'', ''Date'', ''Server''] [''Server'', ''Date'', ''Upgrade'']
 \<and> Sort_headers [''Upgrade'', ''Date'', ''Server''] = [''Server'', ''Date'', ''Upgrade'']"
proof -
  have "swapped [''Upgrade'', ''Date'', ''Server''] (headers_Swap [''Upgrade'', ''Date'', ''Server''] 0 2)"
    by (rule swapped.swap [OF swapped.none]) (simp_all add: headers_Len_def)
  then have sw: "swapped [''Upgrade'', ''Date'', ''Server''] [''Server'', ''Date'', ''Upgrade'']"
    by (simp add: headers_Swap_def numeral_2_eq_2)
  have "in_order [''Server'', ''Date'', ''Upgrade'']"
    by (simp add: in_order_def headers_Less_def headers_Len_def endtoend_def Let_def less_Suc_eq numeral_2_eq_2)
  then show ?thesis using header_order [OF _ sw] sw by simp
qed

subsection \<open>The client certificate\<close>

lemma blocks_within_enough:
  assumes "decode_consumes lib" "length s \<le> n"
  shows "blocks_within n lib s = blocks_within (length s) lib s"
  using assms(2)
proof (induction n arbitrary: s rule: less_induct)
  case (less n)
  show ?case
  proof (cases "lib_Decode lib s")
    case None
    then show ?thesis by (cases n; cases "length s") simp_all
  next
    case (Some br)
    obtain b rest where br: "br = (b, rest)" by fastforce
    then have short: "length rest < length s" using Some assms(1) by (auto simp: decode_consumes_def)
    then obtain n' l where nl: "n = Suc n'" "length s = Suc l" using less.prems by (cases n; cases "length s") auto
    have "blocks_within n' lib rest = blocks_within l lib rest"
      using less.IH [of n' rest] less.IH [of l rest] short nl less.prems by simp
    then show ?thesis using nl Some br by simp
  qed
qed

text \<open>What the loop keeps: the last block of each kind, or what it had.\<close>

lemma last_block_Cons:
  "last_block x (b # bs) = (case last_block x bs of Some c \<Rightarrow> Some c
     | None \<Rightarrow> if HasSuffix (block_Type b) x then Some b else None)"
  by (auto simp: last_block_def split: list.splits)

lemma pem_loop_eq:
  assumes "decode_consumes lib"
  shows "pem_loop lib s pk c =
    Some (case last_block ''PRIVATE KEY'' (blocks_within (length s) lib s) of None \<Rightarrow> pk | Some b \<Rightarrow> lib_EncodeToMemory lib b,
          case last_block ''CERTIFICATE'' (blocks_within (length s) lib s) of None \<Rightarrow> c | Some b \<Rightarrow> lib_EncodeToMemory lib b)"
proof (induction "length s" arbitrary: s pk c rule: less_induct)
  case less
  show ?case
  proof (cases "lib_Decode lib s")
    case None
    then have "blocks_within (length s) lib s = []" by (cases "length s") simp_all
    then show ?thesis using None by (simp add: pem_loop.simps [of lib s] last_block_def)
  next
    case (Some br)
    obtain b rest where br: "br = (b, rest)" by fastforce
    then have short: "length rest < length s" using Some assms by (auto simp: decode_consumes_def)
    then obtain l where l: "length s = Suc l" by (cases "length s") auto
    have "blocks_within (length s) lib s = b # blocks_within (length rest) lib rest"
      using blocks_within_enough [OF assms, of rest l] short l Some br by simp
    then show ?thesis
      using less [OF short] Some br
      by (simp add: pem_loop.simps [of lib s] last_block_Cons split: option.splits)
  qed
qed

text \<open>Reading the client certificate ends, given that \<open>pem.Decode\<close> consumes what it decodes, and of a
  file with several keys or certificates the last of each is used.\<close>

lemma readClientCert_last:
  assumes "decode_consumes lib" "filename \<noteq> ''''" "lib_ReadFile lib filename = Inr s"
  defines "last_of \<equiv> \<lambda>x. case last_block x (blocks_within (length s) lib s) of
                           None \<Rightarrow> '''' | Some b \<Rightarrow> lib_EncodeToMemory lib b"
  shows "readClientCert lib filename =
    (if lib_X509KeyPair lib (last_of ''CERTIFICATE'') (last_of ''PRIVATE KEY'') = None
     then Ok (Some [Certificate (last_of ''CERTIFICATE'') (last_of ''PRIVATE KEY'')])
     else Fatal ''unable to load client cert and key pair'')"
  using assms(2,3) by (simp add: readClientCert_def pem_loop_eq [OF assms(1)] last_of_def split: option.splits)

lemma demo_decode_consumes: "decode_consumes demo_lib"
  by (auto simp: decode_consumes_def demo_lib_def split: list.splits)

lemma readClientCert_returns: "decode_consumes lib \<Longrightarrow> readClientCert lib f \<noteq> Loops"
  by (simp add: readClientCert_def pem_loop_eq split: sum.splits option.splits)

lemma add_headers_returns: "add_headers hs req \<noteq> Loops"
  by (induction hs req rule: add_headers.induct) (auto simp: headerKeyValue_def Let_def)

lemma newRequest_returns: "newRequest lib fl url \<noteq> Loops"
proof -
  have "createBody lib (postBody fl) \<noteq> Loops" by (simp add: createBody_def Let_def split: option.splits)
  then show ?thesis
    by (cases "createBody lib (postBody fl)") (simp_all add: newRequest_def add_headers_returns split: sum.splits prod.splits)
qed

lemma transport_returns: "decode_consumes lib \<Longrightarrow> transport_for lib fl url req \<noteq> Loops"
  using readClientCert_returns [of lib "clientCertFile fl"]
  by (cases "readClientCert lib (clientCertFile fl)") (auto simp: transport_for_def Let_def)

lemma readResponseBody_returns: "snd (readResponseBody lib fl req resp) \<noteq> Loops"
  by (auto simp: readResponseBody_def output_filename_def Let_def split: option.splits)

subsection \<open>The server name\<close>

text \<open>Over TLS the name to verify is the host without its port: of \<open>host:port\<close> and of \<open>[address]:port\<close>
  the part before the port, without brackets, and of a host without a port all of it.\<close>

lemma server_name:
  assumes "CHR '':'' \<notin> set port" "CHR ''['' \<notin> set (host @ port)" "CHR '']'' \<notin> set (host @ port)"
  shows "(CHR '':'' \<notin> set host \<longrightarrow> SplitHostPort (host @ '':'' @ port) = Some (host, port))
       \<and> SplitHostPort (''['' @ host @ '']:'' @ port) = Some (host, port)
       \<and> SplitHostPort port = None"
proof (intro conjI impI)
  have lc: "index_of CHR '':'' (rev (pre @ '':'' @ port)) = length port" for pre
    using index_of_stop [of "CHR '':''" "rev port" "rev pre"] assms(1) by simp
  show "SplitHostPort (host @ '':'' @ port) = Some (host, port)" if "CHR '':'' \<notin> set host"
  proof -
    have "hd (host @ '':'' @ port) \<noteq> CHR ''[''" using assms(2) by (cases host) auto
    moreover have "length (host @ '':'' @ port) - 1 - index_of CHR '':'' (rev (host @ '':'' @ port)) = length host"
      unfolding lc by simp
    ultimately show ?thesis using that assms unfolding SplitHostPort_def by (simp add: Let_def)
  qed
  show "SplitHostPort (''['' @ host @ '']:'' @ port) = Some (host, port)"
  proof -
    let ?s = "(''['' @ host @ '']'') @ '':'' @ port"
    have i: "length ?s - 1 - index_of CHR '':'' (rev ?s) = Suc (Suc (length host))"
      unfolding lc by simp
    have e: "index_of CHR '']'' ?s = Suc (length host)"
      using index_of_stop [of "CHR '']''" "''['' @ host" "'':'' @ port"] assms(3) by simp
    have "SplitHostPort ?s = Some (host, port)"
      using assms unfolding SplitHostPort_def Let_def i e by simp
    then show ?thesis by simp
  qed
  show "SplitHostPort port = None" using assms(1) by (simp add: SplitHostPort_def)
qed

end
