(* ===== verification/Httpstat_Visit.thy ===== *)
theory Httpstat_Visit
  imports Conn_Wrap Httpstat
begin

text \<open>
  \<open>cmd/httpstat\<close>, second part: \<open>visit\<close> and \<open>main\<close>. A visit makes a request, notes when the phases of the
  exchange were reached, prints the response, the phases and the report of the wrapped connection, and
  follows redirects.

  The network is a function: to a request it answers with what happened until \<open>client.Do\<close> returned, with
  the response or an error, and with what happened from then until the report is printed. A happening
  is a call of a function of the \<open>httptrace\<close> or of the report callback that \<open>dialContext\<close> gave to the
  wrapper, with the time of the call. Everything printed is kept as a list; its text is in \<open>Httpstat_Print\<close>.

  The global variables \<open>redirectsFollowed\<close> and \<open>connConn\<close> are arguments of \<open>visit\<close>; the flags do not
  change after \<open>main\<close> has checked them.
\<close>

subsection \<open>Time\<close>

text \<open>A \<open>time.Time\<close> in nanoseconds from the zero time, and \<open>Time.Sub\<close>, which saturates.\<close>

type_synonym time = int

definition IsZero :: "time \<Rightarrow> bool" where "IsZero t = (t = 0)"

definition minDuration :: int where "minDuration = - (2 ^ 63)"
definition maxDuration :: int where "maxDuration = 2 ^ 63 - 1"

definition Sub :: "time \<Rightarrow> time \<Rightarrow> int" where
  "Sub t u = max minDuration (min maxDuration (t - u))"

text \<open>\<open>int(d/time.Millisecond)\<close>, the number that \<open>fmta\<close> and \<open>fmtb\<close> print; the division truncates.\<close>

definition in_ms :: "int \<Rightarrow> int" where
  "in_ms d = sgn d * (\<bar>d\<bar> div 1000000)"

subsection \<open>What happens and what is printed\<close>

record times =
  t0 :: time
  t1 :: time
  t2 :: time
  t3 :: time
  t4 :: time
  t5 :: time
  t6 :: time

definition times_zero :: times where
  "times_zero = \<lparr>t0 = 0, t1 = 0, t2 = 0, t3 = 0, t4 = 0, t5 = 0, t6 = 0\<rparr>"

datatype ('c, 's) happening =
    DNSStart
  | DNSDone
  | ConnectStart
  | ConnectDone string "goerror option"
  | GotConn
  | GotFirstResponseByte
  | TLSHandshakeStart
  | TLSHandshakeDone
  | Report_callback "('c, 's) Conn" int

datatype printed =
    Connected_to string
  | Connected_via string
  | Status_line int int string
  | Header_line string string
  | Body_message string
  | Blank_line
  | Phases "(string \<times> int) list"
  | Remote_line string
  | RTT_line duration
  | Sent_line int64
  | Received_line int64
  | Warnings_line string
  | Diagnostics gomap

record ('u, 'c, 's) exchange =
  ex_before :: "(('c, 's) happening \<times> time) list"
  ex_result :: "goerror + 'u response"
  ex_read :: time
  ex_after :: "(('c, 's) happening \<times> time) list"

type_synonym ('u, 'c, 's) network = "nat \<Rightarrow> transport \<Rightarrow> 'u request \<Rightarrow> ('u, 'c, 's) exchange"

record ('c, 's) tracing =
  tc_times :: times
  tc_connConn :: "('c, 's) Conn option"
  tc_printed :: "printed list"

subsection \<open>The report callback\<close>

definition getConniver :: "('c, 's) tracing \<Rightarrow> ('c, 's) Conn option" where
  "getConniver tc = tc_connConn tc"

definition setConniver :: "('c, 's) Conn \<Rightarrow> ('c, 's) tracing \<Rightarrow> ('c, 's) tracing" where
  "setConniver c tc = tc\<lparr>tc_connConn := Some c\<rparr>"

definition report_callback :: "('c, 's) Conn \<Rightarrow> int \<Rightarrow> ('c, 's) tracing \<Rightarrow> ('c, 's) tracing" where
  "report_callback conn state tc = (if state = Closed then setConniver conn tc else tc)"

text \<open>The dial function that \<open>dialContext\<close> returns: an error of the dialer, or the connection wrapped with
  the callback \<open>fn\<close>, which is \<open>report_callback\<close>, and no options.\<close>

definition dialContext ::
  "'s tcpinfo_pkg \<Rightarrow> control \<Rightarrow> int64 \<Rightarrow> 'c \<Rightarrow> ReportStatsFn \<Rightarrow> goerror + NetConn \<Rightarrow>
     goerror + ('c, 's) Conn \<times> ('c, 's) report list" where
  "dialContext pkg ctl now background fn dialed =
     (case dialed of
        Inl err \<Rightarrow> Inl err
      | Inr conn \<Rightarrow> Inr (WrapConn pkg ctl now background (Some conn) (Some fn) []))"

subsection \<open>Tracing\<close>

definition on_happening :: "('c, 's) happening \<times> time \<Rightarrow> ('c, 's) tracing \<Rightarrow> ('c, 's) tracing \<times> unit flow" where
  "on_happening ev tc =
     (let (h, now) = ev; t = tc_times tc; set = (\<lambda>t. (tc\<lparr>tc_times := t\<rparr>, Ok ())) in
      case h of
        DNSStart \<Rightarrow> set (t\<lparr>t0 := now\<rparr>)
      | DNSDone \<Rightarrow> set (t\<lparr>t1 := now\<rparr>)
      | ConnectStart \<Rightarrow> set (if IsZero (t1 t) then t\<lparr>t1 := now\<rparr> else t)
      | ConnectDone addr err \<Rightarrow>
          if err \<noteq> None then (tc, Fatal ''unable to connect to host'')
          else (tc\<lparr>tc_times := t\<lparr>t2 := now\<rparr>, tc_printed := tc_printed tc @ [Connected_to addr]\<rparr>, Ok ())
      | GotConn \<Rightarrow> set (t\<lparr>t3 := now\<rparr>)
      | GotFirstResponseByte \<Rightarrow> set (t\<lparr>t4 := now\<rparr>)
      | TLSHandshakeStart \<Rightarrow> set (t\<lparr>t5 := now\<rparr>)
      | TLSHandshakeDone \<Rightarrow> set (t\<lparr>t6 := now\<rparr>)
      | Report_callback conn state \<Rightarrow> (report_callback conn state tc, Ok ()))"

fun on_happenings :: "(('c, 's) happening \<times> time) list \<Rightarrow> ('c, 's) tracing \<Rightarrow> ('c, 's) tracing \<times> unit flow" where
  "on_happenings [] tc = (tc, Ok ())"
| "on_happenings (ev # evs) tc =
     (case on_happening ev tc of
        (tc, Ok _) \<Rightarrow> on_happenings evs tc
      | (tc, e) \<Rightarrow> (tc, e))"

subsection \<open>Printing\<close>

definition print_headers :: "'u response \<Rightarrow> printed list" where
  "print_headers resp =
     (let names = Sort_headers (map fst (resp_Header resp))
      in map (\<lambda>k. Header_line k (Join (case map_of (resp_Header resp) k of None \<Rightarrow> [] | Some vs \<Rightarrow> vs) '','')) names)"

definition phases :: "string \<Rightarrow> times \<Rightarrow> time \<Rightarrow> printed list" where
  "phases scheme t t7 =
     (if scheme = ''https'' then
        [Phases [(''dns lookup'', in_ms (Sub (t1 t) (t0 t))), (''tcp connection'', in_ms (Sub (t2 t) (t1 t))),
          (''tls handshake'', in_ms (Sub (t6 t) (t5 t))), (''server processing'', in_ms (Sub (t4 t) (t3 t))),
          (''content transfer'', in_ms (Sub t7 (t4 t))), (''namelookup'', in_ms (Sub (t1 t) (t0 t))),
          (''connect'', in_ms (Sub (t2 t) (t0 t))), (''pretransfer'', in_ms (Sub (t3 t) (t0 t))),
          (''starttransfer'', in_ms (Sub (t4 t) (t0 t))), (''total'', in_ms (Sub t7 (t0 t)))]]
      else if scheme = ''http'' then
        [Phases [(''dns lookup'', in_ms (Sub (t1 t) (t0 t))), (''tcp connection'', in_ms (Sub (t3 t) (t1 t))),
          (''server processing'', in_ms (Sub (t4 t) (t3 t))), (''content transfer'', in_ms (Sub t7 (t4 t))),
          (''namelookup'', in_ms (Sub (t1 t) (t0 t))), (''connect'', in_ms (Sub (t3 t) (t0 t))),
          (''starttransfer'', in_ms (Sub (t4 t) (t0 t))), (''total'', in_ms (Sub t7 (t0 t)))]]
      else [])"

definition print_report :: "'s tcpinfo_pkg \<Rightarrow> ('c, 's) Conn option \<Rightarrow> printed list" where
  "print_report pkg conn =
     (case conn of
        None \<Rightarrow> []
      | Some c \<Rightarrow>
          (case ClosedInfo c of
             None \<Rightarrow> []
           | Some info \<Rightarrow>
               [Remote_line (RemoteAddrString c), RTT_line (Info_RTT info), Sent_line (TxBytes c), Received_line (RxBytes c)]
               @ (let warns = Warnings pkg c
                  in if length (elems warns) > 0 then [Warnings_line (Join (elems warns) '', '')] else [])
               @ [Diagnostics (ToMap pkg c)]))"

subsection \<open>Visiting\<close>

definition maxRedirects :: nat where "maxRedirects = 10"

text \<open>The end of \<open>visit\<close>: where to go on, if anywhere.\<close>

definition next_location :: "flags \<Rightarrow> nat \<Rightarrow> 'u response \<Rightarrow> 'u url option flow" where
  "next_location fl redirectsFollowed resp =
     (if followRedirects fl \<and> isRedirect resp
      then case resp_Location resp of
             No_location \<Rightarrow> Ok None
           | Location_error _ \<Rightarrow> Fatal ''unable to follow redirect''
           | Location loc \<Rightarrow>
               let redirectsFollowed = redirectsFollowed + 1
               in if redirectsFollowed > maxRedirects then Fatal ''maximum number of redirects followed''
                  else Ok (Some loc)
      else Ok None)"

record 'u visited =
  vis_requests :: "(transport \<times> 'u request) list"
  vis_files :: "string list"
  vis_printed :: "printed list"
  vis_end :: "unit flow"

text \<open>What \<open>visit\<close> does with the response, once \<open>client.Do\<close> has returned it.\<close>

definition on_response ::
  "'u libraries \<Rightarrow> 's tcpinfo_pkg \<Rightarrow> flags \<Rightarrow> nat \<Rightarrow> 'u url \<Rightarrow> transport \<times> 'u request \<Rightarrow> ('u, 'c, 's) exchange \<Rightarrow>
     ('c, 's) tracing \<Rightarrow> 'u response \<Rightarrow> 'u visited \<times> ('c, 's) Conn option \<times> 'u url option" where
  "on_response lib pkg fl redirectsFollowed url made ex tc resp =
     (let (files, bodyMsg) = readResponseBody lib fl (snd made) resp;
          via = [Connected_via (connectedVia resp)];
          visited = (\<lambda>out e. \<lparr>vis_requests = [made], vis_files = files, vis_printed = out, vis_end = e\<rparr>)
      in case bodyMsg of
           Ok msg \<Rightarrow>
             (case on_happenings (ex_after ex) (tc\<lparr>tc_printed := tc_printed tc @ via\<rparr>) of
                (tc, Ok _) \<Rightarrow>
                  (let t7 = ex_read ex;
                       t = tc_times tc;
                       t = (if IsZero (t0 t) then t\<lparr>t0 := t1 t\<rparr> else t);
                       out = tc_printed tc @ [Status_line (ProtoMajor resp) (ProtoMinor resp) (Status resp)]
                         @ print_headers resp @ (if msg \<noteq> '''' then [Body_message msg] else [])
                         @ Blank_line # phases (Scheme url) t t7 @ print_report pkg (getConniver tc);
                       goto = next_location fl redirectsFollowed resp
                   in (visited out (map_flow (\<lambda>_. ()) goto), tc_connConn tc,
                       case goto of Ok loc \<Rightarrow> loc | _ \<Rightarrow> None))
              | (tc, e) \<Rightarrow> (visited (tc_printed tc) e, tc_connConn tc, None))
         | e \<Rightarrow> (visited (tc_printed tc @ via) (map_flow (\<lambda>_. ()) e), tc_connConn tc, None))"

text \<open>The body of \<open>visit\<close> up to its recursive call: what it did, and where to go on.\<close>

definition visit_round ::
  "'u libraries \<Rightarrow> 's tcpinfo_pkg \<Rightarrow> ('u, 'c, 's) network \<Rightarrow> flags \<Rightarrow> nat \<Rightarrow> ('c, 's) Conn option \<Rightarrow> 'u url \<Rightarrow>
     'u visited \<times> ('c, 's) Conn option \<times> 'u url option" where
  "visit_round lib pkg net fl redirectsFollowed connConn url =
     (case bind_flow (newRequest lib fl url) (\<lambda>req. bind_flow (transport_for lib fl url req) (\<lambda>tr. Ok (tr, req))) of
        Ok (tr, req) \<Rightarrow>
          (let ex = net redirectsFollowed tr req;
               (tc, e) = on_happenings (ex_before ex) \<lparr>tc_times = times_zero, tc_connConn = connConn, tc_printed = []\<rparr>;
               visited = (\<lambda>e. \<lparr>vis_requests = [(tr, req)], vis_files = [], vis_printed = tc_printed tc, vis_end = e\<rparr>)
           in if e \<noteq> Ok () then (visited e, tc_connConn tc, None)
              else case ex_result ex of
                  Inl _ \<Rightarrow> (visited (Fatal ''failed to read response''), tc_connConn tc, None)
                | Inr resp \<Rightarrow> on_response lib pkg fl redirectsFollowed url (tr, req) ex tc resp)
      | e \<Rightarrow> (\<lparr>vis_requests = [], vis_files = [], vis_printed = [], vis_end = map_flow (\<lambda>_. ()) e\<rparr>, connConn, None))"

lemma on_response_next:
  "on_response lib pkg fl n url made ex tc resp = (v, c, Some loc) \<Longrightarrow>
     followRedirects fl \<and> n < maxRedirects \<and> vis_end v = Ok ()"
  by (auto simp: on_response_def next_location_def Let_def
      split: flow.splits prod.splits if_splits location.splits)

lemma visit_round_next:
  "visit_round lib pkg net fl n conn url = (v, c, Some loc) \<Longrightarrow> followRedirects fl \<and> n < maxRedirects \<and> vis_end v = Ok ()"
  by (auto simp: visit_round_def Let_def dest: on_response_next
      split: flow.splits sum.splits prod.splits if_splits)

function visit ::
  "'u libraries \<Rightarrow> 's tcpinfo_pkg \<Rightarrow> ('u, 'c, 's) network \<Rightarrow> flags \<Rightarrow> nat \<Rightarrow> ('c, 's) Conn option \<Rightarrow> 'u url \<Rightarrow> 'u visited" where
  "visit lib pkg net fl redirectsFollowed connConn url =
     (case visit_round lib pkg net fl redirectsFollowed connConn url of
        (v, connConn', None) \<Rightarrow> v
      | (v, connConn', Some loc) \<Rightarrow>
          (let v' = visit lib pkg net fl (redirectsFollowed + 1) connConn' loc
           in v'\<lparr>vis_requests := vis_requests v @ vis_requests v', vis_files := vis_files v @ vis_files v',
                 vis_printed := vis_printed v @ vis_printed v'\<rparr>))"
  by pat_completeness auto

termination
  by (relation "measure (\<lambda>(lib, pkg, net, fl, n, conn, url). Suc maxRedirects - n)")
     (auto dest!: visit_round_next [OF sym])

declare visit.simps [simp del]

text \<open>The checks of \<open>main\<close> on the parsed command line, in their order.\<close>

definition main_checks :: "'u libraries \<Rightarrow> flags \<Rightarrow> string list \<Rightarrow> (flags \<times> 'u url) flow" where
  "main_checks lib fl args =
     (if showVersion fl then Exit 0
      else if fourOnly fl \<and> sixOnly fl then Exit (- 1)
      else if length args \<noteq> 1 then Exit 2
      else if (httpMethod fl = ''POST'' \<or> httpMethod fl = ''PUT'') \<and> postBody fl = ''''
        then Fatal ''must supply post body using -d when POST or PUT is used''
      else let fl = (if onlyHeader fl then fl\<lparr>httpMethod := ''HEAD''\<rparr> else fl)
           in bind_flow (parseURL lib (hd args)) (\<lambda>url. Ok (fl, url)))"

definition main ::
  "'u libraries \<Rightarrow> 's tcpinfo_pkg \<Rightarrow> ('u, 'c, 's) network \<Rightarrow> flags \<Rightarrow> string list \<Rightarrow> 'u visited" where
  "main lib pkg net fl args =
     (case main_checks lib fl args of
        Ok (fl, url) \<Rightarrow> visit lib pkg net fl 0 None url
      | e \<Rightarrow> \<lparr>vis_requests = [], vis_files = [], vis_printed = [], vis_end = map_flow (\<lambda>_. ()) e\<rparr>)"

subsection \<open>Vocabulary of the properties\<close>

text \<open>The settings of a request that the command line asks for: over TLS exactly for an https URL, and
  then verified unless \<open>-k\<close> is given, at version 1.2 at least.\<close>

definition made_as_asked :: "'u libraries \<Rightarrow> flags \<Rightarrow> transport \<times> 'u request \<Rightarrow> bool" where
  "made_as_asked lib fl made \<longleftrightarrow> (case made of (tr, req) \<Rightarrow>
     (\<exists>url. newRequest lib fl url = Ok req \<and> transport_for lib fl url req = Ok tr)
   \<and> tr_network tr = dial_network fl
   \<and> (\<forall>tls. tr_TLSClientConfig tr = Some tls \<longrightarrow>
        InsecureSkipVerify tls = insecure fl \<and> MinVersion tls = VersionTLS12
      \<and> Ok (Certificates tls) = readClientCert lib (clientCertFile fl)))"

text \<open>The numbers of the chart under the bars and of the cumulative figures.\<close>

definition phase :: "printed list \<Rightarrow> string \<Rightarrow> int" where
  "phase out name = (case out of [Phases ps] \<Rightarrow> (case map_of ps name of Some n \<Rightarrow> n | None \<Rightarrow> 0) | _ \<Rightarrow> 0)"

definition bars :: "printed list \<Rightarrow> int" where
  "bars out = phase out ''dns lookup'' + phase out ''tcp connection'' + phase out ''tls handshake''
     + phase out ''server processing'' + phase out ''content transfer''"

text \<open>A server that answers every request alike, with a redirect to itself.\<close>

definition demo_url :: "unit url" where
  "demo_url = \<lparr>Scheme = ''http'', Host = ''example.org'', url_rest = ()\<rparr>"

definition demo_response :: "int \<Rightarrow> unit response" where
  "demo_response code = \<lparr>StatusCode = code, Status = '''', ProtoMajor = 1, ProtoMinor = 1, TLS_Version = None,
     resp_Header = [(''Content-Disposition'', [''attachment''])], resp_Location = Location demo_url\<rparr>"

definition demo_net :: "int \<Rightarrow> (unit, unit, unit) network" where
  "demo_net code = (\<lambda>n tr req. \<lparr>ex_before = [], ex_result = Inr (demo_response code), ex_read = 1, ex_after = []\<rparr>)"

subsection \<open>One round\<close>

lemma on_response_props:
  assumes "on_response lib pkg fl n url made ex tc resp = (v, c, nx)"
  shows "vis_requests v = [made]" "saveOutput fl \<Longrightarrow> f \<in> set (vis_files v) \<Longrightarrow> local_name f"
    and "vis_files v = fst (readResponseBody lib fl (snd made) resp)"
proof -
  show "vis_requests v = [made]" and files: "vis_files v = fst (readResponseBody lib fl (snd made) resp)"
    using assms by (auto simp: on_response_def Let_def split: flow.splits prod.splits)
  show "local_name f" if "saveOutput fl" "f \<in> set (vis_files v)"
    using that readResponseBody_local unfolding files by blast
qed

lemma visit_round_cases:
  assumes "visit_round lib pkg net fl n conn url = (v, c, nx)"
  obtains (refused) "vis_requests v = []" "vis_files v = []" "nx = None"
  | (made) tr req where "newRequest lib fl url = Ok req" "transport_for lib fl url req = Ok tr"
      "vis_requests v = [(tr, req)]" "vis_files v = [] \<or> (\<exists>resp. vis_files v = fst (readResponseBody lib fl req resp))"
proof (cases "bind_flow (newRequest lib fl url) (\<lambda>req. bind_flow (transport_for lib fl url req) (\<lambda>tr. Ok (tr, req)))")
  case (Ok p)
  then obtain tr req where p: "p = (tr, req)" "newRequest lib fl url = Ok req" "transport_for lib fl url req = Ok tr"
    by (cases "newRequest lib fl url"; cases "transport_for lib fl url (un_Ok (newRequest lib fl url))") auto
  have "vis_requests v = [(tr, req)] \<and> (vis_files v = [] \<or> (\<exists>resp. vis_files v = fst (readResponseBody lib fl req resp)))"
    using assms Ok p on_response_props(1,3) [of lib pkg fl n url "(tr, req)" "net n tr req" _ _ v c nx]
    by (fastforce simp: visit_round_def Let_def split: prod.splits if_splits sum.splits)
  then show ?thesis using p by (intro made [of req tr]) auto
qed (use assms in \<open>auto simp: visit_round_def intro: refused\<close>)

text \<open>What holds of every round holds of the whole visit.\<close>

lemma visit_rounds:
  assumes round: "\<And>n conn url v c nx. visit_round lib pkg net fl n conn url = (v, c, nx) \<Longrightarrow> P (vis_requests v) (vis_files v)"
    and app: "\<And>r f r' f'. P r f \<Longrightarrow> P r' f' \<Longrightarrow> P (r @ r') (f @ f')"
  shows "P (vis_requests (visit lib pkg net fl n conn url)) (vis_files (visit lib pkg net fl n conn url))"
proof (induction "Suc maxRedirects - n" arbitrary: n conn url rule: less_induct)
  case less
  obtain v c nx where eq: "visit_round lib pkg net fl n conn url = (v, c, nx)" by (cases "visit_round lib pkg net fl n conn url")
  show ?case
  proof (cases nx)
    case None
    then show ?thesis using round [OF eq] eq by (simp add: visit.simps [of lib pkg net fl n])
  next
    case (Some loc)
    then have "n < maxRedirects" using visit_round_next eq by blast
    then show ?thesis
      using app [OF round [OF eq] less [of "n + 1" c loc]] Some eq by (simp add: visit.simps [of lib pkg net fl n] Let_def)
  qed
qed

lemma main_visits:
  assumes "main lib pkg net fl args = v"
  obtains "vis_requests v = []" "vis_files v = []" "vis_end v \<noteq> Loops"
  | m url where "v = visit lib pkg net (fl\<lparr>httpMethod := m\<rparr>) 0 None url"
      "m = (if onlyHeader fl then ''HEAD'' else httpMethod fl)" "parseURL lib (hd args) = Ok url"
proof (cases "main_checks lib fl args")
  case (Ok p)
  then have "\<exists>url. p = (fl\<lparr>httpMethod := if onlyHeader fl then ''HEAD'' else httpMethod fl\<rparr>, url) \<and> parseURL lib (hd args) = Ok url"
    by (cases "parseURL lib (hd args)") (auto simp: main_checks_def Let_def split: if_splits)
  then show ?thesis using assms Ok that(2) by (auto simp: main_def)
next
  case Loops
  then show ?thesis
    by (cases "parseURL lib (hd args)") (auto simp: main_checks_def parseURL_def Let_def split: if_splits sum.splits)
qed (use assms that(1) in \<open>auto simp: main_def\<close>)

subsection \<open>Files\<close>

text \<open>C29: with \<open>-O\<close>, whatever the server sends and wherever it redirects to, every file the program
  creates has a plain name: no slash, and not empty, \<open>.\<close> or \<open>..\<close>.\<close>

theorem saved_files_local:
  assumes "saveOutput fl" "f \<in> set (vis_files (main lib pkg net fl args))"
  shows "local_name f"
proof -
  have "list_all local_name (vis_files (visit lib pkg net fl' n conn url))" if "saveOutput fl'" for fl' n conn url
  proof (rule visit_rounds [where P = "\<lambda>r. list_all local_name"])
    fix n conn url v c nx assume "visit_round lib pkg net fl' n conn url = (v, c, nx)"
    then show "list_all local_name (vis_files v)"
      by (cases rule: visit_round_cases) (use readResponseBody_local [OF that] in \<open>auto simp: list_all_iff\<close>)
  qed simp
  then have "list_all local_name (vis_files (visit lib pkg net (fl\<lparr>httpMethod := m\<rparr>) 0 None url))" for m url
    using assms(1) by simp
  then show ?thesis
    using assms(2) by (cases rule: main_visits [OF refl, of lib pkg net fl args]) (auto simp: list_all_iff)
qed

lemma demo_request:
  "newRequest demo_lib demo_flags demo_url = Ok \<lparr>req_Method = ''GET'', req_URL = demo_url, req_Host = ''example.org'',
     req_Body = Body_text '''', req_Header = []\<rparr>"
  by (simp add: newRequest_def createBody_def demo_lib_def demo_flags_def demo_url_def HasPrefix_def)

lemma demo_parse: "parseURL demo_lib ''http://example.org'' = Ok demo_url"
  by (simp add: parseURL_def demo_lib_def demo_url_def HasSuffix_def Let_def)

lemma demo_transport:
  "transport_for demo_lib demo_flags demo_url req = Ok \<lparr>tr_network = ''tcp'', tr_TLSClientConfig = None\<rparr>"
  by (simp add: transport_for_def demo_url_def dial_network_def demo_flags_def)

lemma demo_body: "req_Method req = ''GET'' \<Longrightarrow> readResponseBody demo_lib demo_flags req (demo_response 200) = ([''passwd''], Ok ''Body read'')"
  by (simp add: readResponseBody_def isRedirect_def demo_response_def output_filename_def getFilenameFromHeaders_def
      header_Get_def Base_def demo_flags_def demo_lib_def Let_def)

lemma demo_round_200:
  "visit_round demo_lib demo_pkg (demo_net 200) demo_flags n conn demo_url = (v, c, nx) \<Longrightarrow> vis_files v = [''passwd''] \<and> vis_requests v \<noteq> [] \<and> nx = None"
  by (auto simp: visit_round_def demo_request demo_transport demo_net_def on_response_def demo_body next_location_def
      isRedirect_def demo_response_def [of 200, THEN arg_cong [where f = StatusCode]] Let_def)

lemma demo_main_200:
  "vis_files (main demo_lib demo_pkg (demo_net 200) demo_flags [''http://example.org'']) = [''passwd'']
 \<and> vis_requests (main demo_lib demo_pkg (demo_net 200) demo_flags [''http://example.org'']) \<noteq> []"
proof -
  obtain v c nx where r: "visit_round demo_lib demo_pkg (demo_net 200) demo_flags 0 None demo_url = (v, c, nx)"
    by (cases "visit_round demo_lib demo_pkg (demo_net 200) demo_flags 0 None demo_url")
  have "main demo_lib demo_pkg (demo_net 200) demo_flags [''http://example.org'']
        = visit demo_lib demo_pkg (demo_net 200) demo_flags 0 None demo_url"
    by (simp add: main_def main_checks_def demo_parse) (simp add: demo_flags_def)
  then show ?thesis
    using demo_round_200 [OF r] r by (simp add: visit.simps [of demo_lib demo_pkg "demo_net 200" demo_flags 0 None demo_url])
qed

theorem saved_files_local_witness:
  "vis_files (main demo_lib demo_pkg (demo_net 200) demo_flags [''http://example.org'']) = [''passwd''] \<and> local_name ''passwd''"
  using saved_files_local [of demo_flags "''passwd''" demo_lib demo_pkg "demo_net 200" "[''http://example.org'']"] demo_main_200
  by (simp add: demo_flags_def)

subsection \<open>Requests\<close>

lemma on_happenings_returns: "on_happenings evs tc \<noteq> (tc', Loops)"
proof (induction evs tc rule: on_happenings.induct)
  case (2 ev evs tc)
  have "on_happening ev tc \<noteq> (tc'', Loops)" for tc''
    by (auto simp: on_happening_def Let_def split: prod.splits happening.splits)
  then show ?case using 2 by (auto split: prod.splits flow.splits)
qed simp

lemma on_response_returns:
  assumes "on_response lib pkg fl n url made ex tc resp = (v, c, nx)"
  shows "vis_end v \<noteq> Loops"
proof -
  have "snd (readResponseBody lib fl (snd made) resp) \<noteq> Loops" by (rule readResponseBody_returns)
  moreover have "next_location fl n resp \<noteq> Loops" by (auto simp: next_location_def Let_def split: location.splits)
  ultimately show ?thesis
    using assms by (auto simp: on_response_def on_happenings_returns Let_def split: flow.splits prod.splits)
qed

lemma visit_round_returns:
  assumes "decode_consumes lib" "visit_round lib pkg net fl n conn url = (v, c, nx)"
  shows "vis_end v \<noteq> Loops"
proof -
  let ?made = "bind_flow (newRequest lib fl url) (\<lambda>req. bind_flow (transport_for lib fl url req) (\<lambda>tr. Ok (tr, req)))"
  have "?made \<noteq> Loops"
    using newRequest_returns [of lib fl url] transport_returns [OF assms(1), of fl url "un_Ok (newRequest lib fl url)"]
    by (cases "newRequest lib fl url"; cases "transport_for lib fl url (un_Ok (newRequest lib fl url))") auto
  then show ?thesis
  proof (cases ?made)
    case (Ok made)
    obtain tr req where made: "made = (tr, req)" by fastforce
    obtain tc e where tc: "on_happenings (ex_before (net n tr req)) \<lparr>tc_times = times_zero, tc_connConn = conn, tc_printed = []\<rparr> = (tc, e)"
      by fastforce
    then have "e \<noteq> Loops" using on_happenings_returns by metis
    then show ?thesis
      using assms(2) Ok made tc
      by (auto simp: visit_round_def Let_def dest: on_response_returns split: if_splits sum.splits)
  qed (use assms(2) in \<open>auto simp: visit_round_def\<close>)
qed

lemma visit_bounded:
  assumes "decode_consumes lib" "n \<le> maxRedirects"
  shows "length (vis_requests (visit lib pkg net fl n conn url)) \<le> (if followRedirects fl then Suc maxRedirects - n else 1)
       \<and> vis_end (visit lib pkg net fl n conn url) \<noteq> Loops"
  using assms(2)
proof (induction "Suc maxRedirects - n" arbitrary: n conn url rule: less_induct)
  case less
  obtain v c nx where eq: "visit_round lib pkg net fl n conn url = (v, c, nx)"
    by (cases "visit_round lib pkg net fl n conn url")
  have v: "length (vis_requests v) \<le> 1" using eq by (cases rule: visit_round_cases) auto
  have ends: "vis_end v \<noteq> Loops" using visit_round_returns [OF assms(1) eq] .
  show ?case
  proof (cases nx)
    case None
    then have "visit lib pkg net fl n conn url = v" using eq by (simp add: visit.simps [of lib pkg net fl n])
    then show ?thesis using v ends less.prems by (cases "followRedirects fl") simp_all
  next
    case (Some loc)
    then have nx: "followRedirects fl" "n < maxRedirects" using visit_round_next eq by blast+
    then have "length (vis_requests (visit lib pkg net fl (n + 1) c loc)) \<le> maxRedirects - n
             \<and> vis_end (visit lib pkg net fl (n + 1) c loc) \<noteq> Loops"
      using less.hyps [of "n + 1" c loc] by simp
    then show ?thesis
      using nx v Some eq by (simp add: visit.simps [of lib pkg net fl n] Let_def) linarith
  qed
qed

text \<open>C30: the program ends. Whatever the servers answer, it makes at most eleven requests, one when
  redirects are not followed, and then stops; reading the client certificate, the only other loop, ends
  when \<open>pem.Decode\<close> consumes what it decodes.\<close>

theorem redirects_bounded:
  assumes "decode_consumes lib"
  shows "length (vis_requests (main lib pkg net fl args)) \<le> (if followRedirects fl then 11 else 1)
       \<and> vis_end (main lib pkg net fl args) \<noteq> Loops"
proof (cases rule: main_visits [OF refl, of lib pkg net fl args])
  case (2 m url)
  show ?thesis
    unfolding 2(1) using visit_bounded [OF assms, of 0 pkg net "fl\<lparr>httpMethod := m\<rparr>" None url]
    by (simp add: maxRedirects_def split: if_splits)
qed simp

text \<open>The example server redirects for ever; the eleventh request is the last.\<close>

theorem redirects_bounded_witness:
  "length (vis_requests (main demo_lib demo_pkg (demo_net 302) demo_flags [''http://example.org''])) \<le> 11"
  using redirects_bounded [OF demo_decode_consumes, of demo_pkg "demo_net 302" demo_flags "[''http://example.org'']"]
  by (simp add: demo_flags_def)



subsection \<open>The phases\<close>

lemma in_ms_nonneg: "0 \<le> d \<Longrightarrow> in_ms d = d div 1000000"
  by (simp add: in_ms_def sgn_if)

lemma Sub_exact: "u \<le> t \<Longrightarrow> t - u \<le> maxDuration \<Longrightarrow> Sub t u = t - u"
  by (simp add: Sub_def minDuration_def maxDuration_def)

lemma ms_add: "a div 1000000 + b div 1000000 \<le> (a + b) div 1000000 \<and> (a + b) div 1000000 \<le> a div 1000000 + b div (1000000::int) + 1"
  by linarith

text \<open>Sums of truncated intervals, for a truncation that loses less than one unit.\<close>

lemma chart_sums:
  fixes q :: "int \<Rightarrow> int"
  assumes add: "\<And>a b. q a + q b \<le> q (a + b) \<and> q (a + b) \<le> q a + q b + 1"
    and gap: "0 \<le> q ((y3 - y2) - (y6 - y5))"
  shows "q (y7 - y0) - 4 < q (y1 - y0) + q (y3 - y1) + q (y4 - y3) + q (y7 - y4)"
    and "q (y1 - y0) + q (y3 - y1) + q (y4 - y3) + q (y7 - y4) \<le> q (y7 - y0)"
    and "q (y1 - y0) + q (y2 - y1) + q (y6 - y5) + q (y4 - y3) + q (y7 - y4) \<le> q (y7 - y0)"
    and "q (y7 - y0) - 6 < q (y1 - y0) + q (y2 - y1) + q (y6 - y5) + q (y4 - y3) + q (y7 - y4) + q ((y3 - y2) - (y6 - y5))"
proof -
  have split: "q (y - x) + q (z - y) \<le> q (z - x) \<and> q (z - x) \<le> q (y - x) + q (z - y) + 1" for x y z
    using add [of "y - x" "z - y"] by simp
  have tls: "q (y6 - y5) + q ((y3 - y2) - (y6 - y5)) \<le> q (y3 - y2) \<and>
      q (y3 - y2) \<le> q (y6 - y5) + q ((y3 - y2) - (y6 - y5)) + 1"
    using add [of "y6 - y5" "(y3 - y2) - (y6 - y5)"] by simp
  note parts = split [of y1 y0 y3] split [of y1 y0 y2] split [of y2 y0 y3] split [of y3 y0 y4] split [of y4 y0 y7]
  show "q (y7 - y0) - 4 < q (y1 - y0) + q (y3 - y1) + q (y4 - y3) + q (y7 - y4)"
    and "q (y1 - y0) + q (y3 - y1) + q (y4 - y3) + q (y7 - y4) \<le> q (y7 - y0)"
    using parts by linarith+
  show "q (y1 - y0) + q (y2 - y1) + q (y6 - y5) + q (y4 - y3) + q (y7 - y4) \<le> q (y7 - y0)"
    and "q (y7 - y0) - 6 < q (y1 - y0) + q (y2 - y1) + q (y6 - y5) + q (y4 - y3) + q (y7 - y4) + q ((y3 - y2) - (y6 - y5))"
    using parts tls gap by linarith+
qed



end
