(* ===== verification/Httpstat_Flags.thy ===== *)
theory Httpstat_Flags
  imports Httpstat_Visit
begin

text \<open>
  \<open>cmd/httpstat\<close>, third part: the flags that \<open>init\<close> registers, \<open>flag.Parse\<close> on them, and with that the whole
  program from its arguments. The usage text is left out: printing it is the exit that follows.
\<close>

subsection \<open>The flags\<close>

text \<open>The variables after \<open>init\<close>: every flag has its default.\<close>

definition init_flags :: flags where
  "init_flags = \<lparr>httpMethod = ''GET'', postBody = '''', followRedirects = False, onlyHeader = False,
     insecure = False, httpHeaders = [], saveOutput = False, outputFile = '''', showVersion = False,
     clientCertFile = '''', fourOnly = False, sixOnly = False\<rparr>"

text \<open>The registered flags: those without an argument, with the assignment of their variable, and those
  with one.\<close>

definition bool_flags :: "(string \<times> (bool \<Rightarrow> flags \<Rightarrow> flags)) list" where
  "bool_flags =
     [(''L'', \<lambda>b fl. fl\<lparr>followRedirects := b\<rparr>), (''I'', \<lambda>b fl. fl\<lparr>onlyHeader := b\<rparr>), (''k'', \<lambda>b fl. fl\<lparr>insecure := b\<rparr>),
      (''O'', \<lambda>b fl. fl\<lparr>saveOutput := b\<rparr>), (''v'', \<lambda>b fl. fl\<lparr>showVersion := b\<rparr>), (''4'', \<lambda>b fl. fl\<lparr>fourOnly := b\<rparr>),
      (''6'', \<lambda>b fl. fl\<lparr>sixOnly := b\<rparr>)]"

definition value_flags :: "(string \<times> (string \<Rightarrow> flags \<Rightarrow> flags)) list" where
  "value_flags =
     [(''X'', \<lambda>v fl. fl\<lparr>httpMethod := v\<rparr>), (''d'', \<lambda>v fl. fl\<lparr>postBody := v\<rparr>),
      (''H'', \<lambda>v fl. fl\<lparr>httpHeaders := headers_Set (httpHeaders fl) v\<rparr>), (''o'', \<lambda>v fl. fl\<lparr>outputFile := v\<rparr>),
      (''E'', \<lambda>v fl. fl\<lparr>clientCertFile := v\<rparr>)]"

subsection \<open>Parsing\<close>

text \<open>\<open>strconv.ParseBool\<close>.\<close>

definition ParseBool :: "string \<Rightarrow> bool option" where
  "ParseBool s =
     (if s \<in> {''1'', ''t'', ''T'', ''TRUE'', ''true'', ''True''} then Some True
      else if s \<in> {''0'', ''f'', ''F'', ''FALSE'', ''false'', ''False''} then Some False
      else None)"

text \<open>An argument that is a flag, as its name and the value after an equals sign; the sign cannot come first.\<close>

definition split_flag :: "string \<Rightarrow> string \<times> string option" where
  "split_flag name =
     (let i = 1 + index_of CHR ''='' (drop 1 name)
      in if CHR ''='' \<in> set (drop 1 name) then (take i name, Some (drop (i + 1) name)) else (name, None))"

text \<open>\<open>FlagSet.Parse\<close> with \<open>ExitOnError\<close>: the flags set and the arguments left. An error exits with 2, a request
  for help with 0.\<close>

fun flag_Parse :: "string list \<Rightarrow> flags \<Rightarrow> (flags \<times> string list) flow" where
  "flag_Parse [] fl = Ok (fl, [])"
| "flag_Parse (s # args) fl =
     (if length s < 2 \<or> hd s \<noteq> CHR ''-'' then Ok (fl, s # args)
      else if s = ''--'' then Ok (fl, args)
      else let name = drop (if s ! 1 = CHR ''-'' then 2 else 1) s
           in if name = '''' \<or> hd name = CHR ''-'' \<or> hd name = CHR ''='' then Exit 2
              else case split_flag name of (name, value) \<Rightarrow>
                (case map_of bool_flags name of
                   Some assign \<Rightarrow>
                     (case ParseBool (case value of None \<Rightarrow> ''true'' | Some v \<Rightarrow> v) of
                        None \<Rightarrow> Exit 2
                      | Some b \<Rightarrow> flag_Parse args (assign b fl))
                 | None \<Rightarrow>
                     (case map_of value_flags name of
                        None \<Rightarrow> if name = ''help'' \<or> name = ''h'' then Exit 0 else Exit 2
                      | Some assign \<Rightarrow>
                          (case value of
                             Some v \<Rightarrow> flag_Parse args (assign v fl)
                           | None \<Rightarrow>
                               (case args of
                                  [] \<Rightarrow> Exit 2
                                | v # args' \<Rightarrow> flag_Parse args' (assign v fl))))))"

text \<open>The program on its arguments.\<close>

definition httpstat ::
  "'u libraries \<Rightarrow> 's tcpinfo_pkg \<Rightarrow> ('u, 'c, 's) network \<Rightarrow> string list \<Rightarrow> 'u visited" where
  "httpstat lib pkg net argv =
     (case flag_Parse argv init_flags of
        Ok (fl, args) \<Rightarrow> main lib pkg net fl args
      | e \<Rightarrow> \<lparr>vis_requests = [], vis_files = [], vis_printed = [], vis_end = map_flow (\<lambda>_. ()) e\<rparr>)"

subsection \<open>Flags as arguments\<close>

definition arguments :: "flags \<Rightarrow> string list" where
  "arguments fl =
     [''-X'', httpMethod fl, ''-d'', postBody fl, ''-o'', outputFile fl, ''-E'', clientCertFile fl]
     @ concat (map (\<lambda>h. [''-H'', h]) (httpHeaders fl))
     @ concat (map (\<lambda>(name, b). if b then [CHR ''-'' # name] else [])
         [(''L'', followRedirects fl), (''I'', onlyHeader fl), (''k'', insecure fl), (''O'', saveOutput fl),
          (''v'', showVersion fl), (''4'', fourOnly fl), (''6'', sixOnly fl)])"

lemma flag_Parse_value:
  "flag_Parse (''-X'' # v # args) fl = flag_Parse args (fl\<lparr>httpMethod := v\<rparr>)"
  "flag_Parse (''-d'' # v # args) fl = flag_Parse args (fl\<lparr>postBody := v\<rparr>)"
  "flag_Parse (''-o'' # v # args) fl = flag_Parse args (fl\<lparr>outputFile := v\<rparr>)"
  "flag_Parse (''-E'' # v # args) fl = flag_Parse args (fl\<lparr>clientCertFile := v\<rparr>)"
  "flag_Parse (''-H'' # v # args) fl = flag_Parse args (fl\<lparr>httpHeaders := httpHeaders fl @ [v]\<rparr>)"
  by (simp_all add: split_flag_def bool_flags_def value_flags_def headers_Set_def)

lemma flag_Parse_bool:
  "flag_Parse (''-L'' # args) fl = flag_Parse args (fl\<lparr>followRedirects := True\<rparr>)"
  "flag_Parse (''-I'' # args) fl = flag_Parse args (fl\<lparr>onlyHeader := True\<rparr>)"
  "flag_Parse (''-k'' # args) fl = flag_Parse args (fl\<lparr>insecure := True\<rparr>)"
  "flag_Parse (''-O'' # args) fl = flag_Parse args (fl\<lparr>saveOutput := True\<rparr>)"
  "flag_Parse (''-v'' # args) fl = flag_Parse args (fl\<lparr>showVersion := True\<rparr>)"
  "flag_Parse (''-4'' # args) fl = flag_Parse args (fl\<lparr>fourOnly := True\<rparr>)"
  "flag_Parse (''-6'' # args) fl = flag_Parse args (fl\<lparr>sixOnly := True\<rparr>)"
  by (simp_all add: split_flag_def bool_flags_def ParseBool_def)

lemma flag_Parse_headers:
  "flag_Parse (concat (map (\<lambda>h. [''-H'', h]) hs) @ args) fl = flag_Parse args (fl\<lparr>httpHeaders := httpHeaders fl @ hs\<rparr>)"
  by (induction hs arbitrary: fl) (simp_all add: flag_Parse_value del: flag_Parse.simps)

lemma flag_Parse_arguments: "flag_Parse (arguments fl @ ''--'' # args) init_flags = Ok (fl, args)"
proof -
  let ?bools = "concat (map (\<lambda>(name, b). if b then [CHR ''-'' # name] else [])
         [(''L'', followRedirects fl), (''I'', onlyHeader fl), (''k'', insecure fl), (''O'', saveOutput fl),
          (''v'', showVersion fl), (''4'', fourOnly fl), (''6'', sixOnly fl)])"
  let ?fl = "init_flags\<lparr>httpMethod := httpMethod fl, postBody := postBody fl, outputFile := outputFile fl,
         clientCertFile := clientCertFile fl, httpHeaders := httpHeaders fl\<rparr>"
  have "flag_Parse (arguments fl @ ''--'' # args) init_flags = flag_Parse (?bools @ ''--'' # args) ?fl"
    unfolding arguments_def append_assoc append_Cons append_Nil flag_Parse_value flag_Parse_headers by (simp add: init_flags_def)
  moreover have "flag_Parse (''--'' # args) fl = Ok (fl, args)" for fl by simp
  then have "flag_Parse (?bools @ ''--'' # args) ?fl = Ok (fl, args)"
    by (cases fl) (simp add: flag_Parse_bool init_flags_def del: flag_Parse.simps)
  ultimately show ?thesis by simp
qed

text \<open>C36: every setting can be given on the command line. Written out as arguments, whatever its strings,
  it is parsed back, headers in order, what follows the terminator is left as it is, and the program runs
  with exactly these settings.\<close>

theorem flags_roundtrip:
  "flag_Parse (arguments fl @ ''--'' # args) init_flags = Ok (fl, args) \<and>
   httpstat lib pkg net (arguments fl @ ''--'' # args) = main lib pkg net fl args"
  by (simp add: httpstat_def flag_Parse_arguments del: flag_Parse.simps)

end
