(* ===== verification/Go_Fmt.thy ===== *)
theory Go_Fmt
  imports Go_Strings
begin

text \<open>
  Printing: \<open>fmt.Sprintf\<close> on strings and numbers, and \<open>time.Duration.String\<close>.

  A directive of a format is its flags, width, precision and verb. The formats of the program give no precision
  and no flag but a minus to values, and never an explicit argument index; what is said of these holds for text
  in ASCII, where characters are bytes. A format that is not one, because some text was passed in its
  place, is printed with the complaints of the package.
\<close>

subsection \<open>Sprintf\<close>

datatype fmt_arg = FStr string | FInt int

definition is_flag :: "char \<Rightarrow> bool" where
  "is_flag c \<longleftrightarrow> c \<in> {CHR ''#'', CHR ''0'', CHR ''+'', CHR ''-'', CHR '' ''}"

text \<open>\<open>parsenum\<close>: a number, and the rest. After a number that is too large there is no rest.\<close>

definition parsenum :: "string \<Rightarrow> nat option \<times> string" where
  "parsenum s =
     (let ds = takeWhile is_digit s
      in if digits_value (butlast ds) > 1000000 then (None, [])
         else (if ds = [] then None else Some (digits_value ds), dropWhile is_digit s))"

text \<open>A width or precision given by an argument.\<close>

definition intFromArg :: "fmt_arg list \<Rightarrow> int option \<times> fmt_arg list" where
  "intFromArg args =
     (case args of
        [] \<Rightarrow> (None, [])
      | FInt n # args \<Rightarrow> (if \<bar>n\<bar> > 1000000 then None else Some n, args)
      | FStr _ # args \<Rightarrow> (None, args))"

text \<open>A width, in either form: the number, a complaint, the rest of the format and of the arguments.\<close>

definition width :: "string \<Rightarrow> fmt_arg list \<Rightarrow> int option \<times> string \<times> string \<times> fmt_arg list" where
  "width s args =
     (if HasPrefix s ''*''
      then let (n, args) = intFromArg args
           in (n, if n = None then ''%!(BADWIDTH)'' else '''', drop 1 s, args)
      else let (n, s) = parsenum s in (map_option int n, '''', s, args))"

definition precision :: "string \<Rightarrow> fmt_arg list \<Rightarrow> string \<times> string \<times> fmt_arg list" where
  "precision s args =
     (if HasPrefix s ''.*''
      then let (n, args) = intFromArg args
           in (if n = None \<or> the n < 0 then ''%!(BADPREC)'' else '''', drop 2 s, args)
      else if HasPrefix s ''.'' then ('''', snd (parsenum (drop 1 s)), args)
      else ('''', s, args))"

definition pad :: "bool \<Rightarrow> nat \<Rightarrow> string \<Rightarrow> string" where
  "pad left n s =
     (let spaces = replicate (n - length s) CHR '' '' in if left then s @ spaces else spaces @ s)"

fun arg_text :: "fmt_arg \<Rightarrow> string" where
  "arg_text (FStr s) = s"
| "arg_text (FInt n) = Itoa n"

fun arg_type :: "fmt_arg \<Rightarrow> string" where
  "arg_type (FStr s) = ''string''"
| "arg_type (FInt n) = ''int''"

fun takes :: "char \<Rightarrow> fmt_arg \<Rightarrow> bool" where
  "takes verb (FStr s) = (verb = CHR ''s'' \<or> verb = CHR ''v'')"
| "takes verb (FInt n) = (verb = CHR ''d'' \<or> verb = CHR ''v'')"

text \<open>What follows a percent sign: the text printed, the rest of the format and of the arguments.\<close>

definition directive_text :: "string \<Rightarrow> fmt_arg list \<Rightarrow> string \<times> string \<times> fmt_arg list" where
  "directive_text s args =
     (let flags = takeWhile is_flag s;
          (wid, complaint, s, args) = width (dropWhile is_flag s) args;
          (complaint', s, args) = precision s args;
          left = (CHR ''-'' \<in> set flags \<or> wid \<noteq> None \<and> the wid < 0);
          padded = pad left (case wid of None \<Rightarrow> 0 | Some n \<Rightarrow> nat \<bar>n\<bar>)
      in apfst (\<lambda>t. complaint @ complaint' @ t)
        (case s of
           [] \<Rightarrow> (''%!(NOVERB)'', [], args)
         | verb # s \<Rightarrow>
             if verb = CHR ''%'' then (''%'', s, args)
             else case args of
                 [] \<Rightarrow> (''%!'' @ [verb] @ ''(MISSING)'', s, [])
               | arg # args \<Rightarrow>
                   if takes verb arg then (padded (arg_text arg), s, args)
                   else (''%!'' @ [verb] @ ''('' @ arg_type arg @ ''='' @ padded (arg_text arg) @ '')'', s, args)))"

definition extra :: "fmt_arg list \<Rightarrow> string" where
  "extra args =
     (if args = [] then ''''
      else ''%!(EXTRA '' @ Join (map (\<lambda>a. arg_type a @ ''='' @ arg_text a) args) '', '' @ '')'')"

lemma parsenum_shorter: "length (snd (parsenum s)) \<le> length s"
  by (simp add: parsenum_def Let_def length_dropWhile_le)

lemma width_shorter: "width s args = (n, c, s', args') \<Longrightarrow> length s' \<le> length s"
  using parsenum_shorter [of s] by (auto simp: width_def Let_def split: if_splits prod.splits)

lemma precision_shorter: "precision s args = (c, s', args') \<Longrightarrow> length s' \<le> length s"
  using parsenum_shorter [of "drop 1 s"] by (auto simp: precision_def Let_def split: if_splits prod.splits)

lemma directive_shorter:
  assumes "directive_text s args = (t, s', args')"
  shows "length s' \<le> length s"
proof -
  obtain n c s1 args1 where w: "width (dropWhile is_flag s) args = (n, c, s1, args1)" by (metis prod.exhaust)
  obtain c' s2 args2 where p: "precision s1 args1 = (c', s2, args2)" by (metis prod.exhaust)
  have "length s2 \<le> length s"
    using width_shorter [OF w] precision_shorter [OF p] length_dropWhile_le [of is_flag s] by linarith
  then show ?thesis
    using assms by (auto simp: directive_text_def w p Let_def split: list.splits if_splits)
qed

function Sprintf :: "string \<Rightarrow> fmt_arg list \<Rightarrow> string" where
  "Sprintf [] args = extra args"
| "Sprintf (c # s) args =
     (if c \<noteq> CHR ''%'' then c # Sprintf s args
      else case directive_text s args of (t, s', args') \<Rightarrow> t @ Sprintf s' args')"
  by pat_completeness auto

termination
  by (relation "measure (\<lambda>(s, args). length s)") (auto dest!: directive_shorter [OF sym])

subsection \<open>Durations as text\<close>

text \<open>\<open>fmtFrac\<close> of package \<open>time\<close>: the fraction of \<open>v\<close> below the power \<open>prec\<close> of ten without trailing zeros, and
  the rest.\<close>

fun fmtFrac :: "nat \<Rightarrow> nat \<Rightarrow> string \<Rightarrow> string \<times> nat" where
  "fmtFrac v 0 acc = (if acc = '''' then '''' else CHR ''.'' # acc, v)"
| "fmtFrac v (Suc prec) acc =
     fmtFrac (v div 10) prec (if acc = '''' \<and> v mod 10 = 0 then '''' else digit_char (v mod 10) # acc)"

definition Duration_String :: "duration \<Rightarrow> string" where
  "Duration_String d =
     (let neg = sint d < 0; u = nat \<bar>sint d\<bar>;
          text = (if u = 0 then ''0s''
                  else if u < 1000000000
                  then let (prec, unit) = (if u < 1000 then (0, ''ns'')
                                           else if u < 1000000 then (3, [CHR 0xC2, CHR 0xB5, CHR ''s'']) else (6, ''ms''));
                           (frac, u) = fmtFrac u prec ''''
                       in digits10 u @ frac @ unit
                  else let (frac, u) = fmtFrac u 9 '''';
                           s = digits10 (u mod 60) @ frac @ ''s'';
                           m = u div 60;
                           h = m div 60
                       in (if h > 0 then digits10 h @ ''h'' else '''') @ (if m > 0 then digits10 (m mod 60) @ ''m'' else '''') @ s)
      in if neg then CHR ''-'' # text else text)"

subsection \<open>Formats\<close>

lemma Sprintf_literal: "CHR ''%'' \<notin> set s \<Longrightarrow> Sprintf (s @ fmt) args = s @ Sprintf fmt args"
  by (induction s) auto

text \<open>Text without a percent sign is printed as it is.\<close>

lemma Sprintf_verbatim: "CHR ''%'' \<notin> set s \<Longrightarrow> Sprintf s [] = s"
  using Sprintf_literal [of s "[]" "[]"] by (simp add: extra_def)

lemma is_flag_simps [simp]: "\<not> is_flag CHR ''s''" "\<not> is_flag CHR ''d''" "is_flag CHR ''-''" "\<not> is_flag CHR ''7''" "\<not> is_flag CHR ''9''"
  by (simp_all add: is_flag_def)

lemma is_digit_simps [simp]: "\<not> is_digit CHR ''s''" "\<not> is_digit CHR ''d''" "is_digit CHR ''7''" "is_digit CHR ''9''"
  by (simp_all add: is_digit_def)

lemma Sprintf_char [simp]: "c \<noteq> CHR ''%'' \<Longrightarrow> Sprintf (c # s) args = c # Sprintf s args"
  by simp

lemma Sprintf_end [simp]: "Sprintf [] [] = []"
  by (simp add: extra_def)

lemma Sprintf_s [simp]: "Sprintf (CHR ''%'' # CHR ''s'' # fmt) (FStr s # args) = s @ Sprintf fmt args"
  by (simp add: directive_text_def width_def precision_def parsenum_def HasPrefix_def pad_def digits_value_def)

lemma Sprintf_d [simp]: "Sprintf (CHR ''%'' # CHR ''d'' # fmt) (FInt n # args) = Itoa n @ Sprintf fmt args"
  by (simp add: directive_text_def width_def precision_def parsenum_def HasPrefix_def pad_def digits_value_def)

lemma Sprintf_7d [simp]: "Sprintf (CHR ''%'' # CHR ''7'' # CHR ''d'' # fmt) (FInt n # args) = pad False 7 (Itoa n) @ Sprintf fmt args"
  by (simp add: directive_text_def width_def precision_def parsenum_def HasPrefix_def digits_value_def)

lemma Sprintf_9s [simp]: "Sprintf (CHR ''%'' # CHR ''-'' # CHR ''9'' # CHR ''s'' # fmt) (FStr s # args) = pad True 9 s @ Sprintf fmt args"
  by (simp add: directive_text_def width_def precision_def parsenum_def HasPrefix_def digits_value_def)

declare Sprintf.simps [simp del]

lemma pad_length: "length s \<le> n \<Longrightarrow> length (pad left n s) = n"
  by (simp add: pad_def Let_def)

lemma digits10_length: "n < 10 ^ k \<Longrightarrow> 0 < k \<Longrightarrow> length (digits10 n) \<le> k"
proof (induction n arbitrary: k rule: digits10.induct)
  case (1 n)
  show ?case
  proof (cases "n < 10")
    case True
    then show ?thesis using 1(3) by (simp add: digits10.simps)
  next
    case False
    then obtain j where k: "k = Suc j" "0 < j" using 1(2,3) by (cases k; cases "k - 1") auto
    then have "n div 10 < 10 ^ j" using 1(2) by (simp add: less_mult_imp_div_less)
    then show ?thesis using 1(1) [OF False _ k(2)] False k(1) by (subst digits10.simps) simp
  qed
qed

end
