(* ===== verification/Json_Text.thy ===== *)
theory Json_Text
  imports Json_Map
begin

text \<open>
  White space in JSON text: \<open>json.Indent\<close>, which makes \<open>json.MarshalIndent\<close> of \<open>json.Marshal\<close>, and \<open>json.Compact\<close>, which
  \<open>json.Marshal\<close> applies to the text of a \<open>MarshalJSON\<close> method. Both are modelled on valid text, by what they do
  inside and outside of strings. Indenting changes nothing but white space outside of strings, and marshalled
  text is already compact.
\<close>

subsection \<open>Definitions\<close>

abbreviation html_special :: "char set" where
  "html_special \<equiv> {CHR ''<'', CHR ''>'', CHR ''&''}"

definition json_space :: "char \<Rightarrow> bool" where
  "json_space c \<longleftrightarrow> c \<in> {CHR '' '', CHR 0x09, CHR 0x0A, CHR 0x0D}"

text \<open>Without the white space outside of strings. The first argument tells whether the text starts inside one.\<close>

fun strip :: "bool \<Rightarrow> string \<Rightarrow> string" where
  "strip ins [] = []"
| "strip ins (c # cs) =
     (if ins
      then if c = CHR 0x5C then (case cs of [] \<Rightarrow> [c] | d # ds \<Rightarrow> c # d # strip True ds)
           else c # strip (c \<noteq> CHR 0x22) cs
      else if json_space c then strip False cs
      else c # strip (c = CHR 0x22) cs)"

definition json_Compact :: "string \<Rightarrow> string" where
  "json_Compact t = concat (map (\<lambda>c. if c \<in> html_special then json_escape c else [c]) (strip False t))"

text \<open>\<open>json.Indent\<close> with an empty prefix and an indent of two spaces: inside a string or not, whether a new line is due,
  and the depth.\<close>

definition newline :: "nat \<Rightarrow> string" where
  "newline depth = CHR 0x0A # concat (replicate depth ''  '')"

fun json_Indent :: "bool \<Rightarrow> bool \<Rightarrow> nat \<Rightarrow> string \<Rightarrow> string" where
  "json_Indent ins needIndent depth [] = []"
| "json_Indent ins needIndent depth (c # cs) =
     (if ins
      then if c = CHR 0x5C then (case cs of [] \<Rightarrow> [c] | d # ds \<Rightarrow> c # d # json_Indent True False depth ds)
           else c # json_Indent (c \<noteq> CHR 0x22) False depth cs
      else if json_space c then json_Indent False needIndent depth cs
      else let closing = (c = CHR ''}'' \<or> c = CHR '']'');
               depth' = (if needIndent \<and> \<not> closing then depth + 1 else depth);
               due = (if needIndent \<and> \<not> closing then newline depth' else [])
           in if c = CHR ''{'' \<or> c = CHR ''['' then due @ c # json_Indent False True depth' cs
              else if c = CHR '','' then due @ c # newline depth' @ json_Indent False False depth' cs
              else if c = CHR '':'' then due @ c # CHR '' '' # json_Indent False False depth' cs
              else if closing
              then if needIndent then c # json_Indent False False depth cs
                   else newline (depth - 1) @ c # json_Indent False False (depth - 1) cs
              else due @ c # json_Indent (c = CHR 0x22) False depth' cs)"

definition json_MarshalIndent :: "any \<Rightarrow> string option" where
  "json_MarshalIndent a = map_option (json_Indent False False 0) (json_Marshal a)"

subsection \<open>Indenting\<close>

lemma spaces [simp]: "json_space CHR '' ''" "json_space CHR 0x0A" "\<not> json_space CHR 0x22" "\<not> json_space CHR 0x5C"
    "\<not> json_space CHR ''{''" "\<not> json_space CHR ''}''" "\<not> json_space CHR ''[''" "\<not> json_space CHR '']''"
    "\<not> json_space CHR '',''" "\<not> json_space CHR '':''"
  by (simp_all add: json_space_def)

lemma strip_newline [simp]: "strip False (newline d @ t) = strip False t"
proof -
  have "strip False (concat (replicate d ''  '') @ t) = strip False t" by (induction d) simp_all
  then show ?thesis by (simp add: newline_def)
qed

lemma strip_Indent: "strip ins (json_Indent ins need d t) = strip ins t"
proof (induction t arbitrary: ins need d rule: length_induct)
  case (1 t)
  then have IH: "strip ins (json_Indent ins need d cs) = strip ins cs" if "length cs < length t" for ins need d cs
    using that by blast
  show ?case
  proof (cases t)
    case (Cons c cs)
    have cs: "strip ins (json_Indent ins need d cs) = strip ins cs" for ins need d using IH Cons by simp
    have ds: "strip ins (json_Indent ins need d ds) = strip ins ds" if "cs = x # ds" for ins need d x ds
      using IH Cons that by simp
    have sp: "strip False (due @ x # u) = x # strip (x = CHR 0x22) u" if "due = [] \<or> (\<exists>k. due = newline k)" "\<not> json_space x" for due x u
      using that by auto
    show ?thesis
    proof (cases ins)
      case True
      then show ?thesis
      proof (cases "c = CHR 0x5C")
        case esc: True
        have "json_Indent ins need d t = (case cs of [] \<Rightarrow> [c] | x # ds \<Rightarrow> c # x # json_Indent True False d ds)"
          using True unfolding Cons esc by simp
        then show ?thesis using True esc unfolding Cons by (cases cs) (simp_all add: ds)
      next
        case False
        then have "json_Indent ins need d t = c # json_Indent (c \<noteq> CHR 0x22) False d cs" "strip ins (c # u) = c # strip (c \<noteq> CHR 0x22) u" for u
          using True by (simp_all add: Cons)
        then show ?thesis unfolding Cons using cs by simp
      qed
    next
      case False
      then show ?thesis unfolding Cons
        by (cases "json_space c") (simp_all add: cs sp Let_def)
    qed
  qed simp
qed

subsection \<open>Marshalled text is compact\<close>

text \<open>Text that is left as it is, whatever follows.\<close>

definition solid :: "string \<Rightarrow> bool" where
  "solid t \<longleftrightarrow> (\<forall>rest. strip False (t @ rest) = t @ strip False rest) \<and> set t \<inter> html_special = {}"

lemma solid_plain:
  assumes "\<And>c. c \<in> set t \<Longrightarrow> \<not> json_space c \<and> c \<noteq> CHR 0x22 \<and> c \<notin> html_special"
  shows "solid t"
  unfolding solid_def using assms by (induction t) auto

lemma solid_append: "solid t \<Longrightarrow> solid u \<Longrightarrow> solid (t @ u)"
  by (auto simp: solid_def)

lemma solid_Join: "list_all solid ts \<Longrightarrow> solid (Join ts '','')"
proof (induction ts)
  case (Cons t ts)
  have comma: "solid '',''" by (rule solid_plain) auto
  show ?case using Cons solid_append [OF comma, of "Join ts '',''"] by (cases ts) (auto intro!: solid_append)
qed (simp add: solid_def)

lemma solid_escape: "strip True (json_escape c @ t) = json_escape c @ strip True t" "set (json_escape c) \<inter> html_special = {}"
proof -
  have hex: "hex_char d \<notin> html_special \<union> {CHR 0x22, CHR 0x5C}" if "d < 16" for d
    using hex_char_plain [OF that] by (auto simp: plain_char_def)
  have hx: "set (hex_byte c) \<inter> (html_special \<union> {CHR 0x22, CHR 0x5C}) = {}"
  proof -
    have "(of_char c :: nat) < 256" by (metis of_char_mod_256 mod_less_divisor zero_less_numeral)
    then have "(of_char c :: nat) div 16 < 16" by linarith
    then show ?thesis using hex [of "of_char c div 16"] hex [of "of_char c mod 16"] by (simp add: hex_byte_def Let_def)
  qed
  have run: "strip True (u @ t) = u @ strip True t" if "set u \<inter> {CHR 0x22, CHR 0x5C} = {}" for u
    using that by (induction u) auto
  have "strip True (CHR 0x5C # CHR ''u'' # CHR ''0'' # CHR ''0'' # hex_byte c @ t) = CHR 0x5C # CHR ''u'' # CHR ''0'' # CHR ''0'' # hex_byte c @ strip True t"
    using run [of "CHR ''0'' # CHR ''0'' # hex_byte c"] hx by auto
  then show "strip True (json_escape c @ t) = json_escape c @ strip True t"
    by (auto simp: json_escape_def Let_def)
  show "set (json_escape c) \<inter> html_special = {}" using hx by (auto simp: json_escape_def Let_def)
qed

lemma solid_string: "solid (json_string s)"
proof -
  have "strip True (concat (map json_escape s) @ CHR 0x22 # rest) = concat (map json_escape s) @ CHR 0x22 # strip False rest" for rest
    by (induction s) (simp_all add: solid_escape)
  then show ?thesis using solid_escape(2) by (auto simp: solid_def json_string_def)
qed

lemma solid_number: "solid (Itoa i)"
proof (rule solid_plain)
  have "is_digit c \<Longrightarrow> \<not> json_space c \<and> c \<noteq> CHR 0x22 \<and> c \<notin> html_special" for c
    by (auto simp: is_digit_def json_space_def)
  then show "\<not> json_space c \<and> c \<noteq> CHR 0x22 \<and> c \<notin> html_special" if "c \<in> set (Itoa i)" for c
    using that digits10_digits by (auto simp: Itoa_def json_space_def split: if_splits)
qed

lemma solid_between:
  assumes "list_all solid ts" "a \<in> {CHR ''['', CHR ''{''}" "z \<in> {CHR '']'', CHR ''}''}"
  shows "solid (a # Join ts '','' @ [z])"
proof -
  have "solid [a]" "solid [z]" using assms(2,3) by (auto intro!: solid_plain)
  then show ?thesis using solid_append [OF _ solid_append [OF solid_Join [OF assms(1)]], of "[a]" "[z]"] by simp
qed

lemma those_set: "those (map f xs) = Some ys \<Longrightarrow> y \<in> set ys \<Longrightarrow> \<exists>x\<in>set xs. f x = Some y"
  by (induction xs arbitrary: ys) (auto split: option.splits)

lemma solid_list:
  "json_list enc xs = Some t \<Longrightarrow> (\<And>x u. x \<in> set (elems xs) \<Longrightarrow> enc x = Some u \<Longrightarrow> solid u) \<Longrightarrow> solid t"
proof (cases xs)
  case None
  then show "json_list enc xs = Some t \<Longrightarrow> solid t" by (auto simp: json_list_def json_space_def intro!: solid_plain)
next
  case (Some ys)
  assume j: "json_list enc xs = Some t" and s: "\<And>x u. x \<in> set (elems xs) \<Longrightarrow> enc x = Some u \<Longrightarrow> solid u"
  then obtain ts where ts: "those (map enc ys) = Some ts" "t = ''['' @ Join ts '','' @ '']''"
    using Some by (auto simp: json_list_def)
  moreover have "list_all solid ts" using those_set [OF ts(1)] s Some by (fastforce simp: list_all_iff)
  ultimately show "solid t" by (simp add: solid_between)
qed

lemma solid_words: "solid ''true''" "solid ''false''" "solid '':''"
  by (rule solid_plain, auto simp: json_space_def)+

lemma solid_Marshal: "plain_options a \<Longrightarrow> json_Marshal a = Some t \<Longrightarrow> solid t"
proof (induction a arbitrary: t)
  case (AOptions os)
  have "solid u" if "opt \<in> set (elems os)" "compact (Option_MarshalJSON opt) = Some u" for opt u
    using AOptions.prems(1) that compact_Option [of opt] solid_string by (auto simp: list_all_iff)
  then show ?case using AOptions.prems(2) solid_list [of "\<lambda>opt. compact (Option_MarshalJSON opt)" os t] by simp
next
  case (AStrings ss)
  show ?case by (rule solid_list [of "\<lambda>s. Some (json_string s)" ss]) (use AStrings.prems(2) solid_string in auto)
next
  case (AMap m)
  let ?f = "\<lambda>(k, t). map_option (\<lambda>t. json_string k @ '':'' @ t) t" and ?xs = "sort_key fst (map (map_prod (\<lambda>k. k) json_Marshal) m)"
  obtain ts where ts: "those (map ?f ?xs) = Some ts" "t = ''{'' @ Join ts '','' @ ''}''" using AMap.prems(2) by auto
  have "solid u" if u: "u \<in> set ts" for u
  proof -
    obtain k v where kv: "(k, v) \<in> set m" "?f (k, json_Marshal v) = Some u" using those_set [OF ts(1) u] by auto
    then obtain t' where t': "json_Marshal v = Some t'" "u = json_string k @ '':'' @ t'" by auto
    moreover have "plain_options v" using AMap.prems(1) kv(1) unfolding plain_map by force
    ultimately have "solid t'" using AMap.IH [of "(k, v)" v t'] kv(1) by simp
    then show ?thesis using solid_append [OF solid_string solid_append [OF solid_words(3)]] t'(2) by simp
  qed
  then show ?case using ts(2) by (simp add: solid_between list_all_iff)
qed (auto simp: solid_number solid_string solid_words)

lemma solid_strip: "solid t \<Longrightarrow> strip False t = t"
  unfolding solid_def by (metis append_Nil2 strip.simps(1))

lemma Compact_Marshal:
  assumes "plain_options a" "json_Marshal a = Some t"
  shows "json_Compact t = t"
proof -
  have s: "solid t" by (rule solid_Marshal [OF assms])
  have "concat (map (\<lambda>c. if c \<in> html_special then json_escape c else [c]) u) = u" if "set u \<inter> html_special = {}" for u
    using that by (induction u) auto
  then have "concat (map (\<lambda>c. if c \<in> html_special then json_escape c else [c]) t) = t" using s unfolding solid_def by blast
  then show ?thesis unfolding json_Compact_def solid_strip [OF s] .
qed

text \<open>Indented text is the marshalled text again once the white space outside of strings is gone.\<close>

lemma MarshalIndent_strip:
  assumes "plain_options a"
  shows "\<exists>t. json_MarshalIndent a = Some t \<and> json_Marshal a = Some (strip False t) \<and> read_json (strip False t) = Some (json_of a)"
proof -
  obtain u where u: "json_Marshal a = Some u" "read_json u = Some (json_of a)" using json_Marshal_reads [OF assms] by blast
  have "strip False u = u" by (rule solid_strip [OF solid_Marshal [OF assms u(1)]])
  then show ?thesis using u strip_Indent [of False False 0 u] by (simp add: json_MarshalIndent_def)
qed

end
