(* ===== verification/Httpstat_Print.thy ===== *)
theory Httpstat_Print
  imports Httpstat_Flags Go_Fmt Json_Text
begin

text \<open>
  \<open>cmd/httpstat\<close>, last part: the text that the program prints. The functions of package \<open>color\<close> are parameters: each is
  given a format and arguments, and \<open>SprintfFunc\<close> of a colour also the number of its attribute.

  The chart is aligned, and header names are printed as they are unless they have a percent sign, because the
  name is passed where a format is expected. The text of \<open>usage\<close> goes by the flags that are registered.
\<close>

subsection \<open>Colours\<close>

record colours =
  CyanString :: "string \<Rightarrow> fmt_arg list \<Rightarrow> string"
  GreenString :: "string \<Rightarrow> fmt_arg list \<Rightarrow> string"
  RedString :: "string \<Rightarrow> fmt_arg list \<Rightarrow> string"
  WhiteString :: "string \<Rightarrow> fmt_arg list \<Rightarrow> string"
  SprintfFunc :: "int \<Rightarrow> string \<Rightarrow> fmt_arg list \<Rightarrow> string"

text \<open>Output without colours, as to a file: formatting is that of package \<open>fmt\<close>.\<close>

definition uncoloured :: "colours \<Rightarrow> bool" where
  "uncoloured col \<longleftrightarrow>
     (\<forall>fmt args. args \<noteq> [] \<longrightarrow> CyanString col fmt args = Sprintf fmt args \<and> WhiteString col fmt args = Sprintf fmt args)
   \<and> (\<forall>code fmt args. SprintfFunc col code fmt args = Sprintf fmt args)"

definition plain_colours :: colours where
  "plain_colours = (let f = \<lambda>fmt args. if args = [] then fmt else Sprintf fmt args
     in \<lparr>CyanString = f, GreenString = f, RedString = f, WhiteString = f, SprintfFunc = \<lambda>_. Sprintf\<rparr>)"

lemma uncoloured_plain: "uncoloured plain_colours"
  by (simp add: uncoloured_def plain_colours_def Let_def)

definition grayscale :: "colours \<Rightarrow> int \<Rightarrow> string \<Rightarrow> string" where
  "grayscale col code fmt = SprintfFunc col (code + 232) fmt []"

subsection \<open>The chart\<close>

definition httpsTemplate :: string where
  "httpsTemplate =
     '''' @ ''  DNS Lookup   TCP Connection   TLS Handshake   Server Processing   Content Transfer'' @ [CHR 0x0A]
     @ ''[%s  |     %s  |    %s  |        %s  |       %s  ]'' @ [CHR 0x0A]
     @ ''            |                |               |                   |                  |'' @ [CHR 0x0A]
     @ ''   namelookup:%s      |               |                   |                  |'' @ [CHR 0x0A]
     @ ''                       connect:%s     |                   |                  |'' @ [CHR 0x0A]
     @ ''                                   pretransfer:%s         |                  |'' @ [CHR 0x0A]
     @ ''                                                     starttransfer:%s        |'' @ [CHR 0x0A]
     @ ''                                                                                total:%s'' @ [CHR 0x0A]"

definition httpTemplate :: string where
  "httpTemplate =
     '''' @ ''   DNS Lookup   TCP Connection   Server Processing   Content Transfer'' @ [CHR 0x0A]
     @ ''[ %s  |     %s  |        %s  |       %s  ]'' @ [CHR 0x0A]
     @ ''             |                |                   |                  |'' @ [CHR 0x0A]
     @ ''    namelookup:%s      |                   |                  |'' @ [CHR 0x0A]
     @ ''                        connect:%s         |                  |'' @ [CHR 0x0A]
     @ ''                                      starttransfer:%s        |'' @ [CHR 0x0A]
     @ ''                                                                 total:%s'' @ [CHR 0x0A]"

definition fmta :: "colours \<Rightarrow> int \<Rightarrow> string" where
  "fmta col ms = CyanString col ''%7dms'' [FInt ms]"

definition fmtb :: "colours \<Rightarrow> int \<Rightarrow> string" where
  "fmtb col ms = CyanString col ''%-9s'' [FStr (Itoa ms @ ''ms'')]"

definition colorize :: "colours \<Rightarrow> string \<Rightarrow> string" where
  "colorize col s =
     (let v = SplitOn CHR 0x0A s
      in Join (v[0 := grayscale col 16 (v ! 0)]) [CHR 0x0A])"

text \<open>The figures are those of \<open>phases\<close>: one row of phases, then as many totals. The chart for https has a phase
  more.\<close>

definition chart :: "colours \<Rightarrow> (string \<times> int) list \<Rightarrow> string" where
  "chart col ps =
     (let n = length ps div 2
      in Sprintf (colorize col (if n = 5 then httpsTemplate else httpTemplate))
           (map (\<lambda>p. FStr (fmta col (snd p))) (take n ps) @ map (\<lambda>p. FStr (fmtb col (snd p))) (drop n ps)))"

subsection \<open>Everything printed\<close>

abbreviation NL :: string where "NL \<equiv> [CHR 0x0A]"
abbreviation TAB :: string where "TAB \<equiv> [CHR 0x09]"

fun printed_text :: "colours \<Rightarrow> printed \<Rightarrow> string" where
  "printed_text col (Connected_to addr) =
     Sprintf (NL @ ''%s%s'' @ NL) [FStr (GreenString col ''Connected to '' []), FStr (CyanString col addr [])]"
| "printed_text col (Connected_via via) =
     Sprintf (NL @ ''%s %s'' @ NL) [FStr (GreenString col ''Connected via'' []), FStr (CyanString col ''%s'' [FStr via])]"
| "printed_text col (Status_line ma mi status) =
     Sprintf (NL @ ''%s%s%s'' @ NL) [FStr (GreenString col ''HTTP'' []), FStr (grayscale col 14 ''/''),
       FStr (CyanString col ''%d.%d %s'' [FInt ma, FInt mi, FStr status])]"
| "printed_text col (Header_line k vs) =
     Sprintf (''%s %s'' @ NL) [FStr (grayscale col 14 (k @ '':'')), FStr (CyanString col vs [])]"
| "printed_text col (Body_message msg) = Sprintf (NL @ ''%s'' @ NL) [FStr (CyanString col msg [])]"
| "printed_text col Blank_line = NL"
| "printed_text col (Phases ps) = chart col ps"
| "printed_text col (Remote_line a) =
     Sprintf (''%s:'' @ TAB @ ''%s'' @ NL) [FStr (grayscale col 14 ''Remote''), FStr (CyanString col ''%s'' [FStr a])]"
| "printed_text col (RTT_line d) =
     Sprintf (''%s:'' @ TAB @ TAB @ ''%s'' @ NL) [FStr (grayscale col 14 ''RTT''), FStr (CyanString col ''%s'' [FStr (Duration_String d)])]"
| "printed_text col (Sent_line n) =
     Sprintf (''%s:'' @ TAB @ TAB @ ''%s'' @ NL) [FStr (grayscale col 14 ''Sent''), FStr (CyanString col ''%d bytes'' [FInt (sint n)])]"
| "printed_text col (Received_line n) =
     Sprintf (''%s:'' @ TAB @ ''%s'' @ NL) [FStr (grayscale col 14 ''Received''), FStr (CyanString col ''%d bytes'' [FInt (sint n)])]"
| "printed_text col (Warnings_line ws) =
     Sprintf (''%s:'' @ TAB @ ''%s'' @ NL) [FStr (grayscale col 14 ''Warnings''), FStr (RedString col ''%s'' [FStr ws])]"
| "printed_text col (Diagnostics m) =
     (let jb = (case json_MarshalIndent (AMap m) of None \<Rightarrow> '''' | Some jb \<Rightarrow> jb)
      in Sprintf (''%s'' @ NL @ ''%s'')
           [FStr (grayscale col 14 (''Diagnostics:'' @ NL @ ''============'' @ NL)), FStr (WhiteString col (''%s'' @ NL) [FStr jb])])"

text \<open>The whole output of a run.\<close>

definition output_text :: "colours \<Rightarrow> 'u visited \<Rightarrow> string" where
  "output_text col v = concat (map (printed_text col) (vis_printed v))"

subsection \<open>Usage\<close>

text \<open>The help texts of the flags, as \<open>init\<close> registers them.\<close>

definition flag_help :: "(string \<times> string) list" where
  "flag_help =
     [(''X'', ''HTTP method to use''),
      (''d'', ''the body of a POST or PUT request; from file use @filename''),
      (''L'', ''follow 30x redirects''),
      (''I'', ''don'' @ [CHR 0x27] @ ''t read body of request''),
      (''k'', ''allow insecure SSL connections''),
      (''H'', ''set HTTP header; repeatable: -H '' @ [CHR 0x27] @ ''Accept: ...'' @ [CHR 0x27] @ '' -H '' @ [CHR 0x27] @ ''Range: ...'' @ [CHR 0x27]),
      (''O'', ''save body as remote filename''),
      (''o'', ''output file for body''),
      (''v'', ''print version number''),
      (''E'', ''client cert file for tls config''),
      (''4'', ''resolve IPv4 addresses only''),
      (''6'', ''resolve IPv6 addresses only'')]"

text \<open>\<open>flag.PrintDefaults\<close>: the flags by name, each with the type of its value unless it is a bool, and with its default
  unless it is the zero value.\<close>

definition flag_line :: "string \<times> string \<Rightarrow> string" where
  "flag_line fh =
     (let (name, help) = fh;
          head = ''  -'' @ name
            @ (if name \<in> set (map fst bool_flags) then '''' else if name = ''H'' then '' value'' else '' string'')
      in head @ (if length head \<le> 4 then TAB else NL @ ''    '' @ TAB) @ help
         @ (if name = ''X'' then '' (default '' @ Quote (httpMethod init_flags) @ '')'' else '''') @ NL)"

definition PrintDefaults :: string where
  "PrintDefaults = concat (map flag_line (sort_key fst flag_help))"

definition usage :: "string \<Rightarrow> string" where
  "usage arg0 =
     Sprintf (''Usage: %s [OPTIONS] URL'' @ NL @ NL) [FStr arg0]
     @ ''OPTIONS:'' @ NL @ PrintDefaults @ NL @ ''ENVIRONMENT:'' @ NL
     @ ''  HTTP_PROXY    proxy for HTTP requests; complete URL or HOST[:PORT]'' @ NL
     @ ''                used for HTTPS requests if HTTPS_PROXY undefined'' @ NL
     @ ''  HTTPS_PROXY   proxy for HTTPS requests; complete URL or HOST[:PORT]'' @ NL
     @ ''  NO_PROXY      comma-separated list of hosts to exclude from proxy'' @ NL"

subsection \<open>Vocabulary of the properties\<close>

text \<open>The columns in which the bars and the closing bracket stand, line by line.\<close>

fun bar_columns :: "nat \<Rightarrow> string \<Rightarrow> nat list list" where
  "bar_columns n [] = [[]]"
| "bar_columns n (c # cs) =
     (if c = CHR 0x0A then [] # bar_columns 0 cs
      else if c = CHR ''|'' \<or> c = CHR '']''
      then (case bar_columns (n + 1) cs of [] \<Rightarrow> [[n]] | l # ls \<Rightarrow> (n # l) # ls)
      else bar_columns (n + 1) cs)"

text \<open>Figures of at most seven characters.\<close>

definition fits :: "int \<Rightarrow> bool" where
  "fits ms \<longleftrightarrow> - 1000000 < ms \<and> ms < 10000000"

subsection \<open>Alignment\<close>

lemma Itoa_length: "fits ms \<Longrightarrow> length (Itoa ms) \<le> 7"
  using digits10_length [of "nat ms" 7] digits10_length [of "nat (- ms)" 6] by (auto simp: Itoa_def fits_def)

lemma Itoa_chars: "c \<in> set (Itoa ms) \<Longrightarrow> c \<notin> {CHR 0x0A, CHR ''|'', CHR '']''}"
proof -
  have "is_digit c \<Longrightarrow> c \<notin> {CHR 0x0A, CHR ''|'', CHR '']''}" for c by (auto simp: is_digit_def)
  then show "c \<in> set (Itoa ms) \<Longrightarrow> c \<notin> {CHR 0x0A, CHR ''|'', CHR '']''}"
    using digits10_digits by (fastforce simp: Itoa_def split: if_splits)
qed

text \<open>A text that takes up its columns and has no bars.\<close>

definition cell :: "nat \<Rightarrow> string \<Rightarrow> bool" where
  "cell n s \<longleftrightarrow> length s = n \<and> set s \<inter> {CHR 0x0A, CHR ''|'', CHR '']''} = {}"

lemma bar_columns_cell: "cell k s \<Longrightarrow> bar_columns n (s @ t) = bar_columns (n + k) t"
proof -
  have "set s \<inter> {CHR 0x0A, CHR ''|'', CHR '']''} = {} \<Longrightarrow> bar_columns n (s @ t) = bar_columns (n + length s) t"
    by (induction s arbitrary: n) auto
  then show "cell k s \<Longrightarrow> bar_columns n (s @ t) = bar_columns (n + k) t" by (auto simp: cell_def)
qed

lemma pad_cell: "length s \<le> k \<Longrightarrow> set s \<inter> {CHR 0x0A, CHR ''|'', CHR '']''} = {} \<Longrightarrow> cell k (pad left k s)"
  by (auto simp: cell_def pad_length) (auto simp: pad_def Let_def split: if_splits)

lemma fmta_cell:
  assumes "uncoloured col" "fits ms"
  shows "cell 9 (fmta col ms)"
proof -
  have "fmta col ms = pad False 7 (Itoa ms) @ ''ms''"
    using assms(1) by (simp add: fmta_def uncoloured_def)
  moreover have "cell 7 (pad False 7 (Itoa ms))" using Itoa_length [OF assms(2)] Itoa_chars by (intro pad_cell) auto
  ultimately show ?thesis by (simp add: cell_def)
qed

lemma fmtb_cell:
  assumes "uncoloured col" "fits ms"
  shows "cell 9 (fmtb col ms)"
proof -
  have "fmtb col ms = pad True 9 (Itoa ms @ ''ms'')"
    using assms(1) by (simp add: fmtb_def uncoloured_def)
  then show ?thesis using Itoa_length [OF assms(2)] Itoa_chars [of _ ms] pad_cell [of "Itoa ms @ ''ms''" 9 True] by auto
qed

lemma SplitOn_first: "d \<notin> set l \<Longrightarrow> SplitOn d (l @ d # s) = l # SplitOn d s"
  by (induction l) auto

lemma colorize_plain:
  assumes "uncoloured col" "CHR 0x0A \<notin> set l" "CHR ''%'' \<notin> set l"
  shows "colorize col (l @ CHR 0x0A # s) = l @ CHR 0x0A # s"
proof -
  have "grayscale col 16 l = l" using assms(1,3) by (simp add: grayscale_def uncoloured_def Sprintf_verbatim)
  then show ?thesis
    using Join_SplitOn [of "CHR 0x0A" "l @ CHR 0x0A # s"] by (simp add: colorize_def SplitOn_first [OF assms(2)])
qed

lemma https_columns:
  assumes "uncoloured col" "list_all (cell 9) [a, b, c, d, e, f, g, h, i, j]"
  shows "bar_columns 0 (Sprintf (colorize col httpsTemplate) (map FStr [a, b, c, d, e, f, g, h, i, j])) =
     [[], [12, 29, 45, 65, 84], [12, 29, 45, 65, 84], [29, 45, 65, 84], [45, 65, 84], [65, 84], [84], [], []]"
proof -
  let ?title = "''  DNS Lookup   TCP Connection   TLS Handshake   Server Processing   Content Transfer''"
  have plain: "colorize col httpsTemplate = httpsTemplate"
    using colorize_plain [OF assms(1), of ?title "drop (Suc (length ?title)) httpsTemplate"]
    by (simp add: httpsTemplate_def)
  show ?thesis
    unfolding plain unfolding httpsTemplate_def using assms(2) by (simp add: bar_columns_cell [of 9])
qed

lemma http_columns:
  assumes "uncoloured col" "list_all (cell 9) [a, b, c, d, e, f, g, h]"
  shows "bar_columns 0 (Sprintf (colorize col httpTemplate) (map FStr [a, b, c, d, e, f, g, h])) =
     [[], [13, 30, 50, 69], [13, 30, 50, 69], [30, 50, 69], [50, 69], [69], [], []]"
proof -
  let ?title = "''   DNS Lookup   TCP Connection   Server Processing   Content Transfer''"
  have plain: "colorize col httpTemplate = httpTemplate"
    using colorize_plain [OF assms(1), of ?title "drop (Suc (length ?title)) httpTemplate"]
    by (simp add: httpTemplate_def)
  show ?thesis
    unfolding plain unfolding httpTemplate_def using assms(2) by (simp add: bar_columns_cell [of 9])
qed

text \<open>C33: the chart is aligned. Without colours, and when every figure has at most seven characters, which is
  below ten million milliseconds, the bars of every line stand in the columns of the bars between the phases.\<close>

theorem chart_aligned:
  assumes "uncoloured col" "phases scheme t t7 = [Phases ps]" "list_all (\<lambda>p. fits (snd p)) ps"
  shows "bar_columns 0 (printed_text col (Phases ps)) =
     (if scheme = ''https''
      then [[], [12, 29, 45, 65, 84], [12, 29, 45, 65, 84], [29, 45, 65, 84], [45, 65, 84], [65, 84], [84], [], []]
      else [[], [13, 30, 50, 69], [13, 30, 50, 69], [30, 50, 69], [50, 69], [69], [], []])"
proof -
  have row: "list_all (cell 9) (map (\<lambda>p. fmta col (snd p)) qs)" "list_all (cell 9) (map (\<lambda>p. fmtb col (snd p)) qs)"
    if "list_all (\<lambda>p. fits (snd p)) qs" for qs :: "(string \<times> int) list"
    using that fmta_cell [OF assms(1)] fmtb_cell [OF assms(1)] by (auto simp: list_all_iff)
  have chart: "printed_text col (Phases (qs @ rs)) =
      Sprintf (colorize col (if length qs = 5 then httpsTemplate else httpTemplate))
        (map FStr (map (\<lambda>p. fmta col (snd p)) qs @ map (\<lambda>p. fmtb col (snd p)) rs))"
    if "length qs = length rs" for qs rs
    using that by (simp add: chart_def o_def)
  show ?thesis
  proof (cases "scheme = ''https''")
    case True
    then obtain a b c d e f g h i j where ps: "ps = [a, b, c, d, e] @ [f, g, h, i, j]"
      using assms(2) by (auto simp: phases_def)
    have "list_all (cell 9) (map (\<lambda>p. fmta col (snd p)) [a, b, c, d, e] @ map (\<lambda>p. fmtb col (snd p)) [f, g, h, i, j])"
      using row [of "[a, b, c, d, e]"] row [of "[f, g, h, i, j]"] assms(3) ps by simp
    then show ?thesis
      using True chart [of "[a, b, c, d, e]" "[f, g, h, i, j]"] https_columns [OF assms(1)] unfolding ps by simp
  next
    case False
    then obtain a b c d f g h i where ps: "ps = [a, b, c, d] @ [f, g, h, i]"
      using assms(2) by (auto simp: phases_def split: if_splits)
    have "list_all (cell 9) (map (\<lambda>p. fmta col (snd p)) [a, b, c, d] @ map (\<lambda>p. fmtb col (snd p)) [f, g, h, i])"
      using row [of "[a, b, c, d]"] row [of "[f, g, h, i]"] assms(3) ps by simp
    then show ?thesis
      using False chart [of "[a, b, c, d]" "[f, g, h, i]"] http_columns [OF assms(1)] unfolding ps by simp
  qed
qed

theorem chart_aligned_witness:
  "bar_columns 0 (chart plain_colours
     [(''dns lookup'', 0), (''tcp connection'', 0), (''server processing'', 0), (''content transfer'', 12), (''namelookup'', 0),
      (''connect'', 0), (''starttransfer'', 0), (''total'', 12)])
   = [[], [13, 30, 50, 69], [13, 30, 50, 69], [30, 50, 69], [50, 69], [69], [], []]"
proof -
  have p: "phases ''http'' times_zero 12000000 =
     [Phases [(''dns lookup'', 0), (''tcp connection'', 0), (''server processing'', 0), (''content transfer'', 12), (''namelookup'', 0),
      (''connect'', 0), (''starttransfer'', 0), (''total'', 12)]]"
    by (simp add: phases_def times_zero_def in_ms_def Sub_def minDuration_def maxDuration_def)
  show ?thesis using chart_aligned [OF uncoloured_plain p] by (simp add: fits_def)
qed

subsection \<open>Headers\<close>

text \<open>C34: a header is printed by its name, a colon and its values, as long as there is no percent sign in the name.
  The name is passed as a format, so that a percent sign before a letter, which the name of a header may have, is
  printed as a directive without its argument.\<close>

theorem header_printed:
  assumes "uncoloured col" "CHR ''%'' \<notin> set k" "CHR ''%'' \<notin> set k'" "97 \<le> (of_char verb :: nat)" "(of_char verb :: nat) \<le> 122"
  shows "printed_text col (Header_line k vs) = k @ '': '' @ CyanString col vs [] @ NL
     \<and> printed_text col (Header_line (k @ ''%'' @ [verb] @ k') vs) =
         k @ ''%!'' @ [verb] @ ''(MISSING)'' @ k' @ '': '' @ CyanString col vs [] @ NL"
proof -
  have verb: "\<not> is_flag verb" "\<not> is_digit verb" "verb \<notin> {CHR ''*'', CHR ''.'', CHR ''%''}"
    using assms(4,5) by (auto simp: is_flag_def is_digit_def)
  have "Sprintf (CHR ''%'' # verb # s) [] = ''%!'' @ [verb] @ ''(MISSING)'' @ Sprintf s []" for s
    using verb by (simp add: Sprintf.simps(2) directive_text_def width_def precision_def parsenum_def HasPrefix_def digits_value_def)
  then show ?thesis
    using assms(1-3) Sprintf_verbatim [of "k @ '':''"] Sprintf_verbatim [of "k' @ '':''"]
    by (simp add: grayscale_def uncoloured_def Sprintf_literal)
qed

theorem header_printed_witness:
  "printed_text plain_colours (Header_line ''Server'' ''nginx'') = ''Server: nginx'' @ NL
 \<and> printed_text plain_colours (Header_line ''X-100%done'' ''1'') = ''X-100%!d(MISSING)one: 1'' @ NL"
  using header_printed [OF uncoloured_plain, of "''Server''" "''''" "CHR ''d''" "''nginx''"]
    header_printed [OF uncoloured_plain, of "''X-100''" "''one''" "CHR ''d''" "''1''"]
  by (simp add: plain_colours_def Let_def)

subsection \<open>Diagnostics\<close>

lemma Diagnostics_text:
  assumes "uncoloured col" "json_MarshalIndent (AMap m) = Some t"
  shows "printed_text col (Diagnostics m) = ''Diagnostics:'' @ NL @ ''============'' @ NL @ NL @ t @ NL"
proof -
  have "Sprintf (''Diagnostics:'' @ NL @ ''============'' @ NL) [] = ''Diagnostics:'' @ NL @ ''============'' @ NL"
    by (rule Sprintf_verbatim) simp
  then show ?thesis using assms by (simp add: grayscale_def uncoloured_def)
qed

subsection \<open>The flags and their help\<close>

text \<open>The usage text explains the flags that are parsed, and no others.\<close>

lemma flag_help_complete: "set (map fst flag_help) = set (map fst bool_flags) \<union> set (map fst value_flags)"
  by (auto simp: flag_help_def bool_flags_def value_flags_def)

end
