(* ===== verification/Json_Struct.thy ===== *)
theory Json_Struct
  imports Json_Text Conn_Wrap
begin

text \<open>
  \<open>json.Marshal\<close> of the structs \<open>tcpinfo.Info\<close> and \<open>conniver.Conn\<close>, which goes by their field tags: fields in the
  order of the struct, unexported fields and those tagged with a dash left out, those tagged \<open>omitempty\<close> left
  out when they are empty. The platform record has a \<open>MarshalJSON\<close> method, whose text is compacted.

  What \<open>encoding/json\<close> makes of an error depends on its type: the encoding of errors is a parameter. The lemmas
  show that the tags say the same as the \<open>ToMap\<close> methods do.
\<close>

subsection \<open>Encoding structs\<close>

text \<open>\<open>isEmptyValue\<close> of \<open>encoding/json\<close> on the types of the fields.\<close>

fun isEmptyValue :: "any \<Rightarrow> bool" where
  "isEmptyValue (AString s) = (s = '''')"
| "isEmptyValue (ABool b) = (\<not> b)"
| "isEmptyValue (AUint8 w) = (w = 0)"
| "isEmptyValue (AUint16 w) = (w = 0)"
| "isEmptyValue (AUint32 w) = (w = 0)"
| "isEmptyValue (AUint64 w) = (w = 0)"
| "isEmptyValue (AInt i) = (i = 0)"
| "isEmptyValue (AInt64 w) = (w = 0)"
| "isEmptyValue (ADuration w) = (w = 0)"
| "isEmptyValue (AOptions os) = (elems os = [])"
| "isEmptyValue (AStrings ss) = (elems ss = [])"
| "isEmptyValue (AMap m) = (m = [])"

text \<open>The members of an object in their order; one that does not marshal makes the whole fail.\<close>

definition json_object :: "(string \<times> string option) list \<Rightarrow> string option" where
  "json_object fs =
     map_option (\<lambda>ts. ''{'' @ Join ts '','' @ ''}'')
       (those (map (\<lambda>(k, t). map_option (\<lambda>t. json_string k @ '':'' @ t) t) fs))"

definition kept :: "(string \<times> any) list \<Rightarrow> (string \<times> any) list" where
  "kept fs = filter (\<lambda>kv. \<not> isEmptyValue (snd kv)) fs"

definition omitempty :: "(string \<times> any) list \<Rightarrow> (string \<times> string option) list" where
  "omitempty fs = map (\<lambda>(k, v). (k, json_Marshal v)) (kept fs)"

text \<open>A pointer or interface tagged \<open>omitempty\<close>.\<close>

definition unless_nil :: "string \<Rightarrow> ('a \<Rightarrow> string option) \<Rightarrow> 'a option \<Rightarrow> (string \<times> string option) list" where
  "unless_nil k enc p = (case p of None \<Rightarrow> [] | Some x \<Rightarrow> [(k, enc x)])"

subsection \<open>The structs\<close>

definition Info_tags :: "'s Info \<Rightarrow> (string \<times> any) list" where
  "Info_tags i =
     [(''state'', AString (Info_State i)),
      (''txOptions'', AOptions (Info_TxOptions i)),
      (''rxOptions'', AOptions (Info_RxOptions i)),
      (''txMSS'', AUint64 (Info_TxMSS i)),
      (''rxMSS'', AUint64 (Info_RxMSS i)),
      (''rtt'', ADuration (Info_RTT i)),
      (''rttVar'', ADuration (Info_RTTVar i)),
      (''rto'', ADuration (Info_RTO i)),
      (''ato'', ADuration (Info_ATO i)),
      (''lastTxAt'', ADuration (Info_LastTxAt i)),
      (''lastRxAt'', ADuration (Info_LastRxAt i)),
      (''lastTxAckAt'', ADuration (Info_LastTxAckAt i)),
      (''lastRxAckAt'', ADuration (Info_LastRxAckAt i)),
      (''rxWindow'', AUint64 (Info_RxWindow i)),
      (''txSSThreshold'', AUint64 (Info_TxSSThreshold i)),
      (''rxSSThreshold'', AUint64 (Info_RxSSThreshold i)),
      (''txCWindowBytes'', AUint64 (Info_TxWindowBytes i)),
      (''txCWindowSegs'', AUint64 (Info_TxWindowSegs i)),
      (''retransmits'', AUint64 (Info_Retransmits i))]"

definition Info_Marshal :: "('s \<Rightarrow> gomap) \<Rightarrow> 's Info \<Rightarrow> string option" where
  "Info_Marshal sysToMap i =
     json_object (omitempty (Info_tags i)
       @ unless_nil ''sysInfo'' (\<lambda>s. map_option json_Compact (SysInfo_MarshalJSON sysToMap s)) (Info_Sys i))"

definition Conn_times :: "('c, 's) Conn \<Rightarrow> (string \<times> any) list" where
  "Conn_times w =
     [(''openedAt'', AInt64 (OpenedAt w)), (''closedAt'', AInt64 (ClosedAt w)), (''firstRxAt'', AInt64 (FirstRxAt w)),
      (''firstTxAt'', AInt64 (FirstTxAt w)), (''lastRxAt'', AInt64 (LastRxAt w)), (''lastTxAt'', AInt64 (LastTxAt w))]"

definition Conn_Marshal :: "'s tcpinfo_pkg \<Rightarrow> (goerror \<Rightarrow> string option) \<Rightarrow> ('c, 's) Conn \<Rightarrow> string option" where
  "Conn_Marshal pkg enc w =
     json_object (omitempty (Conn_times w)
       @ [(''txBytes'', json_Marshal (AInt64 (TxBytes w))), (''rxBytes'', json_Marshal (AInt64 (RxBytes w)))]
       @ unless_nil ''rxErr'' enc (RxErr w) @ unless_nil ''txErr'' enc (TxErr w) @ unless_nil ''infoErr'' enc (InfoErr w)
       @ omitempty [(''reconnects'', AInt (Reconnects w))]
       @ unless_nil ''openedInfo'' (Info_Marshal (pkg_ToMap pkg)) (OpenedInfo w)
       @ unless_nil ''closedInfo'' (Info_Marshal (pkg_ToMap pkg)) (ClosedInfo w))"

subsection \<open>Vocabulary of the properties\<close>

text \<open>Wrappers whose option kinds are plain.\<close>

definition infos_plain :: "'s tcpinfo_pkg \<Rightarrow> ('c, 's) Conn \<Rightarrow> bool" where
  "infos_plain pkg w \<longleftrightarrow>
     (\<forall>i. OpenedInfo w = Some i \<or> ClosedInfo w = Some i \<longrightarrow> plain_options (AMap (Info_ToMap (pkg_ToMap pkg) i)))"

text \<open>The entries of a map that the tags of \<open>Info\<close> keep, as JSON.\<close>

definition info_json :: "gomap \<Rightarrow> json" where
  "info_json m = JObj (map (\<lambda>(k, v). (k, json_of v)) (filter (\<lambda>kv. fst kv = ''sysInfo'' \<or> \<not> isEmptyValue (snd kv)) m))"

text \<open>An entry of the map of a wrapper under the tags of \<open>Conn\<close>. The map has entries that the struct lacks, and
  the texts of errors.\<close>

definition tagged :: "(goerror \<Rightarrow> json) \<Rightarrow> ('c, 's) Conn \<Rightarrow> string \<Rightarrow> any \<Rightarrow> json option" where
  "tagged val w k v =
     (if k \<in> {''localAddr'', ''remoteAddr'', ''warnings''} then None
      else if k \<in> {''txBytes'', ''rxBytes''} then Some (json_of v)
      else if k = ''rxErr'' then map_option val (RxErr w)
      else if k = ''txErr'' then map_option val (TxErr w)
      else if k = ''infoErr'' then map_option val (InfoErr w)
      else case v of
          AMap m \<Rightarrow> Some (info_json m)
        | _ \<Rightarrow> if isEmptyValue v then None else Some (json_of v))"

subsection \<open>Objects read back\<close>

definition reads_as :: "(string \<times> string option) list \<Rightarrow> (string \<times> json) list \<Rightarrow> bool" where
  "reads_as = list_all2 (\<lambda>f kv. fst f = fst kv \<and> (\<exists>t. snd f = Some t \<and> readable t (snd kv)))"

lemma reads_as_append: "reads_as fs kvs \<Longrightarrow> reads_as gs lvs \<Longrightarrow> reads_as (fs @ gs) (kvs @ lvs)"
  by (simp add: reads_as_def list_all2_appendI)

lemma reads_as_omitempty:
  assumes "\<And>k v. (k, v) \<in> set fs \<Longrightarrow> plain_options v"
  shows "reads_as (omitempty fs) (map (\<lambda>(k, v). (k, json_of v)) (kept fs))"
  using assms json_Marshal_readable
  by (fastforce simp: reads_as_def omitempty_def kept_def list_all2_map1 list_all2_map2 list_all2_same)

lemma reads_as_unless_nil:
  assumes "\<And>x. p = Some x \<Longrightarrow> \<exists>t. enc x = Some t \<and> readable t (val x)"
  shows "reads_as (unless_nil k enc p) (case p of None \<Rightarrow> [] | Some x \<Rightarrow> [(k, val x)])"
  using assms by (auto simp: reads_as_def unless_nil_def split: option.split)

lemma json_object_readable:
  assumes "reads_as fs kvs"
  shows "\<exists>t. json_object fs = Some t \<and> readable t (JObj kvs)"
proof -
  let ?ts = "map (\<lambda>f. (fst f, the (snd f))) fs"
  have some: "\<exists>t. snd f = Some t" if "f \<in> set fs" for f
    using assms that unfolding reads_as_def by (auto simp: list_all2_conv_all_nth in_set_conv_nth)
  have "those (map (\<lambda>(k, t). map_option (\<lambda>t. json_string k @ '':'' @ t) t) fs) = Some (map (\<lambda>f. member_text (fst f, the (snd f))) fs)"
    by (rule those_map) (use some in \<open>fastforce simp: member_text_def\<close>)
  moreover have "list_all2 (\<lambda>t kv. fst t = fst kv \<and> readable (snd t) (snd kv)) ?ts kvs"
    using assms unfolding reads_as_def list_all2_map1 by (rule list_all2_mono) auto
  ultimately show ?thesis using readable_object [of ?ts kvs] by (simp add: json_object_def o_def)
qed

subsection \<open>The tags say what the maps say\<close>

lemma Info_ToMap_tags:
  "Info_ToMap f i = Info_tags i @ (case Info_Sys i of None \<Rightarrow> [] | Some s \<Rightarrow> [(''sysInfo'', AMap (f s))])"
  by (simp add: Info_ToMap_def Info_tags_def Let_def split: option.split)

lemma info_json_tags:
  "info_json (Info_ToMap f i) =
     JObj (map (\<lambda>(k, v). (k, json_of v)) (kept (Info_tags i))
       @ (case Info_Sys i of None \<Rightarrow> [] | Some s \<Rightarrow> [(''sysInfo'', json_of (AMap (f s)))]))"
proof -
  have "\<forall>kv\<in>set (Info_tags i). fst kv \<noteq> ''sysInfo''" by (simp add: Info_tags_def)
  then have "filter (\<lambda>kv. fst kv = ''sysInfo'' \<or> \<not> isEmptyValue (snd kv)) (Info_tags i) = kept (Info_tags i)"
    unfolding kept_def by (intro filter_cong) auto
  then show ?thesis by (simp add: info_json_def Info_ToMap_tags split: option.split)
qed

lemma Info_Marshal_readable:
  assumes "plain_options (AMap (Info_ToMap f i))"
  shows "\<exists>t. Info_Marshal f i = Some t \<and> readable t (info_json (Info_ToMap f i))"
  unfolding Info_Marshal_def info_json_tags
proof (intro json_object_readable reads_as_append reads_as_omitempty reads_as_unless_nil)
  have all: "\<forall>kv\<in>set (Info_ToMap f i). plain_options (snd kv)" using assms unfolding plain_map .
  then show "plain_options v" if "(k, v) \<in> set (Info_tags i)" for k v using that by (force simp: Info_ToMap_tags)
  show "\<exists>t. map_option json_Compact (SysInfo_MarshalJSON f s) = Some t \<and> readable t (json_of (AMap (f s)))" if "Info_Sys i = Some s" for s
  proof -
    have plain: "plain_options (AMap (f s))" using all that by (simp add: Info_ToMap_tags)
    then show ?thesis
      using json_Marshal_readable [OF plain] Compact_Marshal [OF plain] unfolding SysInfo_MarshalJSON_def by auto
  qed
qed

text \<open>The members of a wrapper.\<close>

definition conn_members :: "'s tcpinfo_pkg \<Rightarrow> (goerror \<Rightarrow> json) \<Rightarrow> ('c, 's) Conn \<Rightarrow> (string \<times> json) list" where
  "conn_members pkg val w =
     map (\<lambda>(k, v). (k, json_of v)) (kept (Conn_times w))
     @ [(''txBytes'', json_of (AInt64 (TxBytes w))), (''rxBytes'', json_of (AInt64 (RxBytes w)))]
     @ (case RxErr w of None \<Rightarrow> [] | Some e \<Rightarrow> [(''rxErr'', val e)])
     @ (case TxErr w of None \<Rightarrow> [] | Some e \<Rightarrow> [(''txErr'', val e)])
     @ (case InfoErr w of None \<Rightarrow> [] | Some e \<Rightarrow> [(''infoErr'', val e)])
     @ map (\<lambda>(k, v). (k, json_of v)) (kept [(''reconnects'', AInt (Reconnects w))])
     @ (case OpenedInfo w of None \<Rightarrow> [] | Some i \<Rightarrow> [(''openedInfo'', info_json (Info_ToMap (pkg_ToMap pkg) i))])
     @ (case ClosedInfo w of None \<Rightarrow> [] | Some i \<Rightarrow> [(''closedInfo'', info_json (Info_ToMap (pkg_ToMap pkg) i))])"

lemma Conn_Marshal_readable:
  assumes "infos_plain pkg w" "\<And>e. Some e \<in> {RxErr w, TxErr w, InfoErr w} \<Longrightarrow> \<exists>t. enc e = Some t \<and> readable t (val e)"
  shows "\<exists>t. Conn_Marshal pkg enc w = Some t \<and> readable t (JObj (conn_members pkg val w))"
  unfolding Conn_Marshal_def conn_members_def
proof (intro json_object_readable reads_as_append reads_as_unless_nil Info_Marshal_readable)
  show "reads_as (omitempty (Conn_times w)) (map (\<lambda>(k, v). (k, json_of v)) (kept (Conn_times w)))"
    "reads_as (omitempty [(''reconnects'', AInt (Reconnects w))])
       (map (\<lambda>(k, v). (k, json_of v)) (kept [(''reconnects'', AInt (Reconnects w))]))"
    by (rule reads_as_omitempty, auto simp: Conn_times_def)+
  show "reads_as [(''txBytes'', json_Marshal (AInt64 (TxBytes w))), (''rxBytes'', json_Marshal (AInt64 (RxBytes w)))]
     [(''txBytes'', json_of (AInt64 (TxBytes w))), (''rxBytes'', json_of (AInt64 (RxBytes w)))]"
    by (simp add: reads_as_def readable_number)
qed (use assms in \<open>auto simp: infos_plain_def\<close>)

lemma map_of_kept:
  "distinct (map fst fs) \<Longrightarrow> map_of (map (\<lambda>(k, v). (k, json_of v)) (kept fs)) k =
     (case map_of fs k of None \<Rightarrow> None | Some v \<Rightarrow> if isEmptyValue v then None else Some (json_of v))"
proof (induction fs)
  case (Cons f fs)
  have "map_of fs (fst f) = None" using Cons.prems by (simp add: map_of_eq_None_iff)
  then show ?case using Cons by (cases f) (auto simp: kept_def)
qed (simp add: kept_def)

text \<open>Every member is the entry of the map of the same name under the tags.\<close>

lemma conn_members_lookup:
  "map_of (conn_members pkg val w) k =
     (case map_of (ToMap pkg w) k of None \<Rightarrow> None | Some v \<Rightarrow> tagged val w k v)"
proof -
  have d: "distinct (map fst (Conn_times w))" by (simp add: Conn_times_def)
  have times: "map_of (map (\<lambda>(k, v). (k, json_of v)) (kept (Conn_times w))) k =
     (case map_of (Conn_times w) k of None \<Rightarrow> None | Some v \<Rightarrow> if isEmptyValue v then None else Some (json_of v))"
    by (rule map_of_kept [OF d])
  have rec: "map_of (map (\<lambda>(k, v). (k, json_of v)) (kept [(''reconnects'', AInt (Reconnects w))])) k =
     (if k = ''reconnects'' \<and> Reconnects w \<noteq> 0 then Some (JNum (Reconnects w)) else None)"
    by (simp add: kept_def)
  have one: "map_of (case p of None \<Rightarrow> [] | Some x \<Rightarrow> [(l, f x)]) k = (if k = l then map_option f p else None)"
    for p :: "'z option" and l and f :: "'z \<Rightarrow> json" by (cases p) simp_all
  note lk = put_all_lookup [OF map_set_keys_distinct, of pkg w "map_base pkg w" k]
  let ?base = "{''openedAt'', ''closedAt'', ''firstRxAt'', ''firstTxAt'', ''lastRxAt'', ''lastTxAt'', ''txBytes'', ''rxBytes'',
      ''reconnects'', ''localAddr'', ''remoteAddr'', ''warnings''}"
  let ?set = "{''rxErr'', ''txErr'', ''infoErr'', ''openedInfo'', ''closedInfo''}"
  show ?thesis
  proof (cases "k \<in> ?base")
    case True
    then show ?thesis
      unfolding ToMap_def lk conn_members_def map_of_append map_add_def times rec one
      by (elim insertE) (simp_all add: map_set_def map_base_def Conn_times_def tagged_def)
  next
    case base: False
    show ?thesis
    proof (cases "k \<in> ?set")
      case True
      then show ?thesis
        unfolding ToMap_def lk conn_members_def map_of_append map_add_def times rec one
        by (elim insertE) (simp_all add: map_set_def map_base_def Conn_times_def tagged_def split: option.split, auto)
    next
      case False
      have "map_of (map_base pkg w) k = None" "map_of (map_set pkg w) k = None" "map_of (Conn_times w) k = None"
        unfolding map_of_eq_None_iff using base False by (simp_all add: map_base_def map_set_def Conn_times_def)
      then show ?thesis using base False
        unfolding ToMap_def lk conn_members_def map_of_append map_add_def times rec one by simp
    qed
  qed
qed

end
