(* ===== verification/Commands.thy ===== *)
theory Commands
  imports Conn_Properties Httpstat_Visit Json_Struct Go_Fmt
begin

text \<open>
  The small programs \<open>cmd/get\<close> and \<open>pkg/tcpinfo/examples/tcpdial\<close>, and what the programs of the repository
  show of a connection: the reports of \<open>httpstat\<close> and \<open>get\<close> under any interleaving of the calls that the
  HTTP client makes, and the JSON form of a wrapper.
\<close>

subsection \<open>cmd/get\<close>

text \<open>The report callback: the text it prints. An error of marshalling is ignored and leaves no text; \<open>enc\<close> is what
  \<open>encoding/json\<close> makes of an error value.\<close>

definition get_raw :: "'s tcpinfo_pkg \<Rightarrow> (goerror \<Rightarrow> string option) \<Rightarrow> ('c, 's) Conn \<Rightarrow> string" where
  "get_raw pkg enc c = (case Conn_Marshal pkg enc c of None \<Rightarrow> '''' | Some raw \<Rightarrow> raw)"

definition get_callback :: "'s tcpinfo_pkg \<Rightarrow> (goerror \<Rightarrow> string option) \<Rightarrow> ('c, 's) Conn \<Rightarrow> int \<Rightarrow> string" where
  "get_callback pkg enc c state =
     (if state \<noteq> Closed then ''''
      else let (oRTT, oRTTVar) = (case OpenedInfo c of
                 None \<Rightarrow> (''n/a'', ''n/a'')
               | Some i \<Rightarrow> (Duration_String (Info_RTT i), Duration_String (Info_RTTVar i)));
               (cRTT, cRTTVar) = (case ClosedInfo c of
                 None \<Rightarrow> (''n/a'', ''n/a'')
               | Some i \<Rightarrow> (Duration_String (Info_RTT i), Duration_String (Info_RTTVar i)))
           in ''Connection '' @ LocalAddrString c @ '' -> '' @ RemoteAddrString c
              @ '' took '' @ Duration_String (ClosedAt c - OpenedAt c)
              @ '', sent:'' @ FormatInt (TxBytes c) @ ''/recv:'' @ FormatInt (RxBytes c)
              @ '' bytes, starting RTT '' @ oRTT @ ''('' @ oRTTVar @ '') and ending RTT '' @ cRTT @ ''('' @ cRTTVar
              @ '')'' @ [CHR 0x0A] @ ''Warnings:'' @ Join (elems (Warnings pkg c)) '', '' @ [CHR 0x0A]
              @ get_raw pkg enc c @ [CHR 0x0A, CHR 0x0A])"

text \<open>The dial function of its transport, with the callback \<open>fn\<close>.\<close>

definition get_dial ::
  "'s tcpinfo_pkg \<Rightarrow> control \<Rightarrow> int64 \<Rightarrow> 'c \<Rightarrow> ReportStatsFn \<Rightarrow> goerror + NetConn \<Rightarrow>
     goerror + ('c, 's) Conn \<times> ('c, 's) report list" where
  "get_dial pkg ctl now background fn dialed =
     (case dialed of
        Inl err \<Rightarrow> Inl err
      | Inr conn \<Rightarrow> Inr (WrapConn pkg ctl now background (Some conn) (Some fn) []))"

text \<open>\<open>main\<close>: what \<open>Get\<close> answers, and the reports made until \<open>CloseIdleConnections\<close> has returned.\<close>

definition get_main ::
  "'s tcpinfo_pkg \<Rightarrow> (goerror \<Rightarrow> string option) \<Rightarrow> goerror option \<Rightarrow> (('c, 's) Conn \<times> int) list \<Rightarrow> string \<times> unit flow" where
  "get_main pkg enc answer made =
     (case answer of
        Some err \<Rightarrow> ('''', Fatal ''get'')
      | None \<Rightarrow> (concat (map (\<lambda>(c, state). get_callback pkg enc c state) made), Ok ()))"

subsection \<open>tcpdial\<close>

datatype dial_end = Panics string | Returns | Prints string

text \<open>An error of marshalling is ignored and leaves no text. \<open>json.MarshalIndent\<close> compacts the text of the
  \<open>MarshalJSON\<close> method before it indents it.\<close>

definition tcpdial_main ::
  "'s tcpinfo_pkg \<Rightarrow> goerror + NetConn \<Rightarrow> control \<Rightarrow> dial_end" where
  "tcpdial_main pkg dialed ctl =
     (case dialed of
        Inl err \<Rightarrow> Panics (error_text err)
      | Inr conn \<Rightarrow>
          if \<not> is_TCPConn conn then Panics ''not a TCP connection''
          else case ctl of
              SyscallConn_error err \<Rightarrow> Returns
            | Control_error err \<Rightarrow> Panics (error_text err)
            | Control_fd fd \<Rightarrow>
                (case pkg_GetTCPInfo pkg fd of
                   (_, Some err) \<Rightarrow> Panics (error_text err)
                 | (None, None) \<Rightarrow> Panics ''tcpinfo unavailable for live TCP connection''
                 | (Some sysInfo, None) \<Rightarrow>
                     Prints ((case SysInfo_MarshalJSON (pkg_ToMap pkg) sysInfo of None \<Rightarrow> '''' | Some jb \<Rightarrow> json_Indent False False 0 (json_Compact jb))
                             @ [CHR 0x0A])))"

subsection \<open>Vocabulary of the properties\<close>

text \<open>The sequential use of a wrapper.\<close>

inductive used :: "'s tcpinfo_pkg \<Rightarrow> ('c, 's) Conn \<Rightarrow> ('c, 's) Conn \<Rightarrow> bool" for pkg where
  read: "used pkg w (snd (Read conn_Read ts w))"
| wrote: "used pkg w (snd (Write conn_Write ts w))"
| reconnected: "used pkg w (SetReconnects n w)"
| closed: "Close pkg ctl conn_Close now w = Some (err, w', made) \<Longrightarrow> used pkg w w'"

subsection \<open>The reports of the commands\<close>

lemma dialed_wrapper:
  assumes "dialContext pkg ctl now background fn (Inr conn) = Inr (w, early)"
  shows "early = []" "w = fst (WrapConnWithContext (pkg\<lparr>pkg_GetTCPInfo := pkg_GetTCPInfo pkg\<rparr>) ctl now background (Some conn) (Some fn) [])"
    "get_dial pkg ctl now background fn (Inr conn) = Inr (w, [])"
  using assms by (auto simp: dialContext_def get_dial_def WrapConn_def WrapConnWithContext_def apply_options_def Let_def
      split: prod.splits)

lemma wrapped_fields:
  "reportStats (fst (WrapConnWithContext pkg ctl now ctx (Some conn) fn opts)) = fn"
  "OpenedAt (fst (WrapConnWithContext pkg ctl now ctx (Some conn) fn opts)) = now"
  "localAddr (fst (WrapConnWithContext pkg ctl now ctx (Some conn) fn opts)) = conn_LocalAddr conn"
  "remoteAddr (fst (WrapConnWithContext pkg ctl now ctx (Some conn) fn opts)) = conn_RemoteAddr conn"
  by (auto simp: WrapConnWithContext_def reportState_def Let_def Conn_zero_def split: prod.splits option.splits)

lemma get_callback_prefix:
  "HasPrefix (get_callback pkg enc c Closed)
     (''Connection '' @ LocalAddrString c @ '' -> '' @ RemoteAddrString c @ '' took '' @ Duration_String (ClosedAt c - OpenedAt c)
      @ '', sent:'' @ FormatInt (TxBytes c) @ ''/recv:'' @ FormatInt (RxBytes c))"
  by (simp add: get_callback_def HasPrefix_iff Let_def split: option.split)

text \<open>C18: what the commands report of a connection is exact. The wrapper that \<open>httpstat\<close> and \<open>get\<close> dial is
  the same and reports nothing at the opening. However the client's calls interleave, the closing report
  reaches the callback given, \<open>httpstat\<close> keeps its snapshot, and the numbers of bytes that \<open>httpstat\<close> and
  \<open>get\<close> print are those of all reads and writes there ever were, with the addresses of the connection and
  the time since it was opened.\<close>

theorem command_reports:
  assumes "dialContext pkg ctl now background fn (Inr conn) = Inr (w, early)"
    and "(step pkg)\<^sup>*\<^sup>* \<lparr>shared = w, threads = [], log = []\<rparr> s" "E_report (fn', snap, st) \<in> set (log s)"
  shows "early = [] \<and> get_dial pkg ctl now background fn (Inr conn) = Inr (w, []) \<and> fn' = fn
   \<and> getConniver (report_callback snap st tc) = Some snap
   \<and> (ClosedInfo snap = None \<or> {Sent_line (word_of_int (bytes Tx (log s))), Received_line (word_of_int (bytes Rx (log s))),
        Remote_line (addrString (conn_RemoteAddr conn) ''unknown'')} \<subseteq> set (print_report pkg (Some snap)))
   \<and> HasPrefix (get_callback pkg enc snap st)
       (''Connection '' @ addrString (conn_LocalAddr conn) ''unknown'' @ '' -> '' @ addrString (conn_RemoteAddr conn) ''unknown''
        @ '' took '' @ Duration_String (ClosedAt snap - now)
        @ '', sent:'' @ FormatInt (word_of_int (bytes Tx (log s))) @ ''/recv:'' @ FormatInt (word_of_int (bytes Rx (log s))))"
proof -
  note w = dialed_wrapper [OF assms(1)]
  note r = report_opened [OF w(2) assms(2,3)]
  have "fn' = fn" "OpenedAt snap = now" "localAddr snap = conn_LocalAddr conn" "remoteAddr snap = conn_RemoteAddr conn"
    using r(2) unfolding opened_report_def w(2) by (simp_all add: wrapped_fields)
  moreover have "LocalAddrString snap = addrString (localAddr snap) ''unknown''" "RemoteAddrString snap = addrString (remoteAddr snap) ''unknown''"
    using r(3) by (auto simp: LocalAddrString_def RemoteAddrString_def localAddrLocked_def remoteAddrLocked_def)
  ultimately have fields: "LocalAddrString snap = addrString (conn_LocalAddr conn) ''unknown''"
    "RemoteAddrString snap = addrString (conn_RemoteAddr conn) ''unknown''" "fn' = fn" "OpenedAt snap = now" by simp_all
  note bytes = report_totals [OF r(1) assms(3)]
  have "ClosedInfo snap = None \<or> {Sent_line (TxBytes snap), Received_line (RxBytes snap), Remote_line (RemoteAddrString snap)}
      \<subseteq> set (print_report pkg (Some snap))"
    by (cases "ClosedInfo snap") (auto simp: print_report_def)
  then show ?thesis
    using get_callback_prefix [of pkg enc snap] w(1,3) r(4) fields(3)
    unfolding bytes fields(1,2,4) by (simp add: getConniver_def report_callback_def setConniver_def)
qed

lemma demo_dial: "dialContext demo_pkg (Control_fd 3) 10 () 7 (Inr demo_netconn) = Inr (shared demo_start, [])"
  by (simp add: dialContext_def WrapConn_def demo_start_def WrapConnWithContext_def apply_options_def collectTCPInfo_def
      demo_pkg_def Let_def)

theorem command_reports_witness:
  "getConniver (report_callback demo_snap Closed \<lparr>tc_times = times_zero, tc_connConn = None, tc_printed = []\<rparr>) = Some demo_snap
 \<and> HasPrefix (get_callback demo_pkg (\<lambda>_. None) demo_snap Closed) ''Connection 127.0.0.1:9 -> unknown took 2ns, sent:0/recv:5''"
proof -
  have run: "(step demo_pkg)\<^sup>*\<^sup>* \<lparr>shared = shared demo_start, threads = [], log = []\<rparr> demo_state"
    using demo_state perform_steps [of demo_pkg demo_schedule demo_start] by (simp add: demo_start_def)
  have rep: "E_report (7, demo_snap, Closed) \<in> set (log demo_state)" using demo_state by simp
  have b: "bytes Tx (log demo_state) = 0" "bytes Rx (log demo_state) = 5"
    using demo_state by (simp_all add: bytes_def ios_def)
  have c: "char_of (50::nat) = CHR ''2''" "char_of (48::nat) = CHR ''0''" "char_of (53::nat) = CHR ''5''" by code_simp+
  have d: "Duration_String 2 = ''2ns''" "FormatInt 0 = ''0''" "FormatInt 5 = ''5''" "ClosedAt demo_snap = 12"
    "addrString (conn_LocalAddr demo_netconn) ''unknown'' = ''127.0.0.1:9''" "addrString (conn_RemoteAddr demo_netconn) ''unknown'' = ''unknown''"
    by (simp_all add: Duration_String_def FormatInt_def Itoa_def digits10.simps digit_char_def c demo_snap_def demo_netconn_def addrString_def)
  show ?thesis
    using command_reports [OF demo_dial run rep, of "\<lparr>tc_times = times_zero, tc_connConn = None, tc_printed = []\<rparr>" "\<lambda>_. None"]
    by (simp add: b d)
qed

subsection \<open>The JSON form of a wrapper\<close>

lemma infos_plain_cong:
  "OpenedInfo w' = OpenedInfo w \<Longrightarrow> ClosedInfo w' = ClosedInfo w \<Longrightarrow> infos_plain pkg w' = infos_plain pkg w"
  by (simp add: infos_plain_def)

lemma Read_Write_infos:
  "OpenedInfo (snd (Read r ts w)) = OpenedInfo w" "ClosedInfo (snd (Read r ts w)) = ClosedInfo w"
  "OpenedInfo (snd (Write r ts w)) = OpenedInfo w" "ClosedInfo (snd (Write r ts w)) = ClosedInfo w"
  by (auto simp: Read_def Write_def beginIO_def finishIO_def Read_account_def Write_account_def Let_def
      split: prod.splits sum.splits option.splits)

lemma infos_plain_apply:
  assumes "infos_plain pkg w" "\<And>i. info = Some i \<Longrightarrow> plain_options (AMap (Info_ToMap (pkg_ToMap pkg) i))"
  shows "infos_plain pkg (applyTCPInfoLocked state info infoErr w)"
  using assms by (auto simp: infos_plain_def applyTCPInfoLocked_def Let_def)

lemma get_callback_raw: "\<exists>line. get_callback pkg enc c Closed = line @ get_raw pkg enc c @ [CHR 0x0A, CHR 0x0A]"
  unfolding get_callback_def Let_def case_prod_beta append_assoc [symmetric] by (simp only: simp_thms if_False) (rule exI, rule refl)

context tcpinfo_json
begin

lemma collect_plain:
  "collectTCPInfo pkg ctl w = (Some i, e) \<Longrightarrow> plain_options (AMap (Info_ToMap (pkg_ToMap pkg) i))"
  by (auto simp: collectTCPInfo_def Let_def intro!: ToInfo_plain Get_plain
      split: if_splits option.splits control.splits prod.splits)

lemma snapshot_plain:
  assumes "infos_plain pkg w"
  shows "infos_plain pkg (snapshotLocked pkg w)"
proof -
  have "plain_options (AMap (Info_ToMap (pkg_ToMap pkg) j))"
    if "Info_Clone (pkg_Clone pkg) (OpenedInfo w) = Some j \<or> Info_Clone (pkg_Clone pkg) (ClosedInfo w) = Some j" for j
    using that assms Info_Clone_plain
    by (cases "OpenedInfo w"; cases "ClosedInfo w") (auto simp: infos_plain_def Info_Clone_def [of _ None])
  then show ?thesis by (auto simp: infos_plain_def)
qed

lemma wrap_plain: "infos_plain pkg (fst (WrapConnWithContext pkg ctl now ctx ncon fn opts))"
  unfolding WrapConn_eq
  by (auto simp: infos_plain_def Let_def Conn_zero_def intro: collect_plain split: prod.splits)

lemma Close_plain:
  assumes "Close pkg ctl conn_Close now w = Some (err, w', made)" "infos_plain pkg w"
  shows "infos_plain pkg w'" "(fn, snap, st) \<in> set made \<Longrightarrow> infos_plain pkg snap"
proof -
  have "infos_plain pkg w' \<and> (\<forall>(fn, snap, st)\<in>set made. infos_plain pkg snap)"
  proof (cases "Close_start now w")
    case (Pair c w1)
    have w1: "infos_plain pkg w1"
      using Pair assms(2) by (auto simp: Close_start_def infos_plain_def split: if_splits option.splits)
    show ?thesis
    proof (cases c)
      case (Closing conn)
      obtain info infoErr where col: "collectTCPInfo pkg ctl w1 = (info, infoErr)" by fastforce
      let ?w2 = "applyTCPInfoLocked Closed info infoErr (Close_detach (conn_Close conn) w1)"
      have w2: "infos_plain pkg ?w2"
        using w1 collect_plain col by (intro infos_plain_apply) (auto simp: infos_plain_def Close_detach_def)
      have "w' = Close_done ?w2" "made = (case reportStats ?w2 of None \<Rightarrow> [] | Some fn \<Rightarrow> [(fn, snapshotLocked pkg ?w2, Closed)])"
        using assms(1) Pair Closing col by (auto simp: Close_def Close_finish_def Let_def split: if_splits)
      then show ?thesis using w2 snapshot_plain [OF w2] by (auto simp: infos_plain_def Close_done_def split: option.splits)
    qed (use assms(1) Pair w1 in \<open>auto simp: Close_def split: if_splits\<close>)
  qed
  then show "infos_plain pkg w'" "(fn, snap, st) \<in> set made \<Longrightarrow> infos_plain pkg snap" by auto
qed

lemma used_plain: "(used pkg)\<^sup>*\<^sup>* w w' \<Longrightarrow> infos_plain pkg w \<Longrightarrow> infos_plain pkg w'"
proof (induction rule: rtranclp_induct)
  case (step w' w'')
  then have w': "infos_plain pkg w'" by simp
  from step(2) show ?case
  proof cases
    case (closed ctl conn_Close now err made)
    then show ?thesis using Close_plain(1) w' by blast
  qed (use w' in \<open>auto simp: infos_plain_def Read_Write_infos SetReconnects_def\<close>)
qed

text \<open>The map of such a wrapper marshals, and reads back.\<close>

lemma ToMap_plain:
  assumes "infos_plain pkg w"
  shows "plain_options (AMap (ToMap pkg w))"
  unfolding ToMap_def
proof (rule plain_put_all)
  show "plain_options (AMap (map_base pkg w))" by (simp add: map_base_def plain_map)
  show "plain_options v" if "(k, Some v) \<in> set (map_set pkg w)" for k v
    using that assms by (auto simp: map_set_def infos_plain_def eq_commute [of "Some v"])
qed

lemma ToMap_reads:
  assumes "infos_plain pkg w"
  shows "\<exists>t kvs. json_Marshal (AMap (ToMap pkg w)) = Some t \<and> read_json t = Some (JObj kvs) \<and> sorted (map fst kvs)
     \<and> (\<forall>k. map_of kvs k = map_option json_of (map_of (ToMap pkg w) k))"
  by (rule json_Marshal_map [OF ToMap_plain [OF assms] Conn_Wrap.ToMap_distinct])

text \<open>The example prints the record with its entries, white space aside.\<close>

lemma tcpdial_prints:
  assumes "is_TCPConn conn" "pkg_GetTCPInfo pkg fd = (Some s, None)"
  shows "\<exists>t kvs. tcpdial_main pkg (Inr conn) (Control_fd fd) = Prints (t @ [CHR 0x0A])
     \<and> read_json (strip False t) = Some (JObj kvs) \<and> (\<forall>k. map_of kvs k = map_option json_of (map_of (pkg_ToMap pkg s) k))"
proof -
  have plain: "plain_options (AMap (pkg_ToMap pkg s))" by (rule Get_plain [OF assms(2)])
  obtain t kvs where t: "json_Marshal (AMap (pkg_ToMap pkg s)) = Some t" "read_json t = Some (JObj kvs)"
    "\<forall>k. map_of kvs k = map_option json_of (map_of (pkg_ToMap pkg s) k)"
    using MarshalJSON_entries [OF assms(2)] unfolding SysInfo_MarshalJSON_def by blast
  have "strip False (json_Indent False False 0 t) = t"
    unfolding strip_Indent by (rule solid_strip [OF solid_Marshal [OF plain t(1)]])
  then show ?thesis
    using t assms Compact_Marshal [OF plain t(1)] by (auto simp: tcpdial_main_def SysInfo_MarshalJSON_def)
qed

text \<open>The text that \<open>get\<close> prints of a wrapper has the entries of its map under the tags of the struct.\<close>

lemma get_raw_reads:
  assumes "infos_plain pkg w" "\<And>e. Some e \<in> {RxErr w, TxErr w, InfoErr w} \<Longrightarrow> \<exists>t. enc e = Some t \<and> readable t (val e)"
  shows "\<exists>kvs. read_json (get_raw pkg enc w) = Some (JObj kvs)
     \<and> (\<forall>k. map_of kvs k = (case map_of (ToMap pkg w) k of None \<Rightarrow> None | Some v \<Rightarrow> tagged val w k v))"
proof -
  obtain t where t: "Conn_Marshal pkg enc w = Some t" "readable t (JObj (conn_members pkg val w))"
    using Conn_Marshal_readable [of pkg w enc val] assms by blast
  have "read_json t = Some (JObj (conn_members pkg val w))" by (rule readable_reads [OF t(2)])
  then show ?thesis using t(1) conn_members_lookup by (auto simp: get_raw_def)
qed

end

end
