(* ===== verification/Spec2Isabelle.thy ===== *)
theory Spec2Isabelle
  imports Conn_Panic Linux_Read Tcp_Info_Darwin Tcp_Info_Windows Tcp_Info_Other
    Os_Release Httpstat_Print Commands
begin

text \<open>
  This is a verification development for conniver, a Go library that wraps a \<open>net.Conn\<close>, counts what
  goes through it, collects the kernel's TCP information when the connection is opened and closed, and
  reports to a callback. It is written in Isabelle/HOL as a shallow embedding: the functions of the
  program are HOL functions, most of them executable, and what they are given by the operating system,
  by third-party packages and by the clock are their arguments.

  \<^bold>\<open>The program and how its parts interact.\<close> \<open>wrap.go\<close> is the wrapper. It asks \<open>pkg/tcpinfo\<close> for
  information on a file descriptor; that package has one file per operating system behind the same
  functions (\<open>GetTCPInfo\<close>, \<open>Supported\<close>, \<open>SysInfo.Clone\<close>, \<open>ToInfo\<close>, \<open>ToMap\<close>, \<open>Warnings\<close>, \<open>MarshalJSON\<close>) and
  a portable \<open>Info\<close> in \<open>tcpinfo.go\<close>. On Linux the fields a kernel fills depend on its version, so
  \<open>init_linux.go\<close> sets flags from the version that \<open>pkg/kernel\<close> parses. \<open>pkg/os\<close> and \<open>pkg/osversion\<close> tell
  the names of operating systems and the builds of Windows. \<open>cmd/httpstat\<close>, \<open>cmd/get\<close> and \<open>tcpdial\<close> are
  programs that use the library.

  \<^bold>\<open>Theories.\<close> Each models the files named, in their order, and proves what they are for.

  \<^item> \<open>Go_Prelude\<close>, \<open>Go_Strings\<close>, \<open>Go_Fmt\<close>: what the source uses of the language and its standard library. Fixed-width
    integers and durations are words, \<open>int\<close> is \<^typ>\<open>int\<close>, a slice is nil or a list, an error is a text with
    an answer to \<open>Timeout\<close>; \<open>strconv\<close>, \<open>strings\<close>, \<open>fmt.Sscanf\<close> on the formats used, \<open>fmt.Sprintf\<close> on strings and
    integers with its answers to formats that do not fit, and the text of durations. The prelude also has the
    two locales with which the proofs on interleavings work: invariants of a step relation, and runs that
    shrink a measure and end in final states only.

  \<^item> \<open>Conn_Wrap\<close> (\<open>wrap.go\<close>): the struct \<open>Conn\<close> as a record and every function, cut into the sections
    between \<open>Lock\<close> and \<open>Unlock\<close>. \<open>Read\<close> and \<open>Write\<close> are transparent and account exactly, \<open>Close\<close> closes and
    reports once, snapshots are inert, wrapping reports when asked to.

  \<^item> \<open>Conn_Concurrent\<close>, \<open>Conn_Invariant\<close>, \<open>Conn_Properties\<close> (\<open>wrap.go\<close> under concurrent calls): a system is the
    shared \<open>Conn\<close>, a program counter for each call and a log. \<open>exec\<close> performs the next atomic section or
    unlocked call with the definitions of \<open>Conn_Wrap\<close>; \<open>step\<close> interleaves. The invariant counts calls in
    flight, places the call that closes, and relates the statistics to the log. From it: the closing
    report is complete and last, the connection is closed once, concurrent \<open>Close\<close> calls agree, no wake-up
    is lost and every execution ends, and the sequential definitions are the interleaved ones run alone.

  \<^item> \<open>Conn_Panic\<close> (\<open>wrap.go\<close> when foreign code panics): the interleaved system with calls that panic in the
    wrapped connection or in the callback and run what they have deferred. Panics never break the
    invariant, and a callback that panics holds nobody up; but a panic of the wrapped \<open>Read\<close> or \<open>Write\<close> blocks
    every \<open>Close\<close>, a panic of the wrapped \<open>Close\<close> is forgotten, and the snapshot of the opening is not inert.

  \<^item> \<open>Tcp_Info\<close> (\<open>tcpinfo.go\<close>): \<open>Info\<close>, options, copies and maps; the record \<open>tcpinfo_pkg\<close> of what a platform
    file provides, and the locales \<open>tcpinfo_package\<close> and \<open>tcpinfo_answers\<close> of what callers rely on. Every
    platform theory interprets them on its own definitions.

  \<^item> \<open>Tcp_Info_Heap\<close>: the same copies on a store with addresses, where \<open>ToInfo\<close> shares memory and \<open>Clone\<close>
    allocates. A copy loads as the copy of the value and reaches fresh memory only, so a snapshot is
    detached from the wrapper. The locale \<open>sys_layout\<close> says where a platform record holds its lists.

  \<^item> \<open>Json_Map\<close>: \<open>Option.MarshalJSON\<close>, \<open>SysInfo.MarshalJSON\<close> and what \<open>encoding/json\<close> and \<open>strconv.Quote\<close> do
    with the types that the maps hold. The text of every value with plain option kinds reads back; the
    locale \<open>tcpinfo_json\<close> says that a platform has only such kinds.

  \<^item> \<open>Json_Text\<close>, \<open>Json_Struct\<close>: \<open>json.Indent\<close> and \<open>json.Compact\<close>, which change white space only; the JSON form of
    the structs \<open>Info\<close> and \<open>Conn\<close> by their tags, which say what the maps say.

  \<^item> \<open>Kernel_Version\<close> (\<open>pkg/kernel\<close>): parsing, printing and comparing versions. Printed versions parse back;
    the comparison is the lexicographic order.

  \<^item> \<open>Linux_Init\<close> (\<open>init_linux.go\<close>), \<open>Tcp_Linux_Data\<close>, \<open>Tcp_Info_Linux\<close>, \<open>Linux_Read\<close>
    (\<open>tcpinfo_linux.go\<close>, \<open>tcpinfo_linux_others.go\<close>, \<open>tcpinfo_linux_386.go\<close>): the flags are the comparisons with
    the version; the struct is read byte by byte at the kernel's offsets; the size asked for covers every
    field the flags declare present, but for the kernels for which it is shown not to; options, durations,
    nullable fields, congestion control data and the map are what the kernel's bytes say.

  \<^item> \<open>Tcp_Info_Darwin\<close>, \<open>Tcp_Info_Windows\<close>, \<open>Tcp_Info_Other\<close>: the other platform files. Options and flags name
    the bits set, durations are exact, the two versions of the Windows struct agree.

  \<^item> \<open>Os_Version\<close> (\<open>pkg/osversion\<close>), \<open>Os_Release\<close> (\<open>pkg/os\<close>): builds, the version read once, the window of
    container builds a host runs; values of \<open>os-release\<close> read back.

  \<^item> \<open>Httpstat\<close>, \<open>Httpstat_Visit\<close>, \<open>Httpstat_Flags\<close>, \<open>Httpstat_Print\<close> (\<open>cmd/httpstat\<close>): the request, client certificate, TLS
    settings, files and headers, then tracing, the report and the redirects, then the flags and the
    program on its arguments, then the text of everything that is printed and of the usage. Files stay in
    the directory, runs end, requests are made as asked, the phases add up, headers have one order, every
    setting can be given as arguments, the chart is aligned.

  \<^item> \<open>Commands\<close> (\<open>cmd/get\<close>, \<open>tcpdial\<close>): the other programs; what the programs print of a connection is exact
    under every interleaving, and maps and structs of a wrapper have a JSON form that reads back.

  This theory has the properties that span platforms: collecting is never silent, snapshots warn like
  their wrapper, snapshots share no memory, the JSON texts that the programs print read back.

  \<^bold>\<open>Bounds and fuel.\<close> Loops are structural or have a termination proof. Three functions take a number of
  steps: \<open>solo\<close>, at most the work left in a call, which its theorem supplies; \<open>read_value\<close>, the length of the
  text and one, which the theorems show to be enough; \<open>blocks_within\<close>, the length of the file. The loop of
  \<open>readClientCert\<close> ends only if \<open>pem.Decode\<close> consumes what it decodes: it is a partial function whose value
  is \<^const>\<open>None\<close> when it does not, and its termination is proved from that.

  \<^bold>\<open>What is assumed.\<close> A mutex makes a section atomic, and \<open>sync.Cond\<close> and channels behave as documented. Calls
  of the wrapped connection and of the callback return or panic at some time (needed only where calls are shown to end).
  The wrapped connection may answer anything. Go \<open>int\<close> values do not overflow where they are counters of
  calls or lengths; byte totals and times wrap as \<open>int64\<close>. Strings are bytes; JSON and quoting copy bytes
  from 0x80 on, which is what the libraries do with printable text in UTF-8.

  \<^bold>\<open>Not modelled.\<close> The data in buffers: the wrapper passes them on. Panics of the clock, the context and the
  platform package, which do not panic. The HTTP client, \<open>net/url\<close>, \<open>mime\<close>, \<open>encoding/pem\<close> and the package
  \<open>color\<close> are parameters, as are the system calls, the registry and the file system, and what
  \<open>encoding/json\<close> makes of an error, which depends on its type. Of \<open>fmt\<close>, precisions and
  flags other than the minus sign have no effect and the verbs are those for strings and decimal integers:
  the formats of the source have no others. The names \<open>EAGAIN\<close>, \<open>EINVAL\<close> and \<open>ENOENT\<close> for errors have no meaning of their own:
  an error is its text. \<open>runtime.KeepAlive\<close> and \<open>unsafe.Pointer\<close> have no counterpart; the kernel is given the
  buffer.
\<close>

subsection \<open>An example store\<close>

text \<open>An \<open>Info\<close> at 2 over a platform record at 1, which share the option list at 0.\<close>

definition demo_store :: "Tcp_Linux_Data.SysInfo store" where
  "demo_store = \<lparr>arrays = [0 \<mapsto> [\<lparr>Kind = ''SACK'', OptValue = 0\<rparr>]],
     sysinfos = [1 \<mapsto> \<lparr>sc_fields = SysInfo_zero, sc_TxOptions = Some 0, sc_RxOptions = None\<rparr>],
     infos = [2 \<mapsto> \<lparr>ic_fields = Info_zero, ic_TxOptions = Some 0, ic_RxOptions = None, ic_Sys = Some 1\<rparr>],
     next_addr = 3\<rparr>"

subsection \<open>The wrapper on every platform\<close>

lemmas linux_answers = lx.tcpinfo_answers_axioms
lemmas darwin_answers = dw.tcpinfo_answers_axioms
lemmas windows_answers = wn.tcpinfo_answers_axioms
lemmas other_answers = ot.tcpinfo_answers_axioms

lemmas platform_packages = linux_answers [THEN tcpinfo_answers.axioms(1)]
  darwin_answers [THEN tcpinfo_answers.axioms(1)] windows_answers [THEN tcpinfo_answers.axioms(1)]
  other_answers [THEN tcpinfo_answers.axioms(1)]


text \<open>On every platform the snapshot handed to the callback raises exactly the warnings of the
  wrapper it was taken from, and its map has the same keys in the same order.\<close>

lemma snapshot_warnings:
  "warnings (linux_pkg sys g) (snapshotLocked (linux_pkg sys g) w1) = warnings (linux_pkg sys g) w1
 \<and> warnings (darwin_pkg dsys) (snapshotLocked (darwin_pkg dsys) w2) = warnings (darwin_pkg dsys) w2
 \<and> warnings (windows_pkg wsys) (snapshotLocked (windows_pkg wsys) w3) = warnings (windows_pkg wsys) w3
 \<and> warnings (other_pkg GOOS) (snapshotLocked (other_pkg GOOS) w4) = warnings (other_pkg GOOS) w4
 \<and> map fst (ToMap (linux_pkg sys g) (snapshotLocked (linux_pkg sys g) w1)) = map fst (ToMap (linux_pkg sys g) w1)
 \<and> map fst (ToMap (darwin_pkg dsys) (snapshotLocked (darwin_pkg dsys) w2)) = map fst (ToMap (darwin_pkg dsys) w2)
 \<and> map fst (ToMap (windows_pkg wsys) (snapshotLocked (windows_pkg wsys) w3)) = map fst (ToMap (windows_pkg wsys) w3)
 \<and> map fst (ToMap (other_pkg GOOS) (snapshotLocked (other_pkg GOOS) w4)) = map fst (ToMap (other_pkg GOOS) w4)"
  by (intro conjI platform_packages [THEN tcpinfo_package.warnings_snapshot]
      platform_packages [THEN tcpinfo_package.ToMap_snapshot_keys])

subsection \<open>Snapshots in memory\<close>



subsection \<open>JSON\<close>

text \<open>C21: the JSON form of a platform record loses nothing. On every platform, marshalling a record that
  \<open>GetTCPInfo\<close> returned succeeds, and reading the text gives an object with the entries of the record's
  map, its keys in order. On other platforms the text is the empty object.\<close>

theorem MarshalJSON_reads_back:
  "(case fst (pkg_GetTCPInfo (linux_pkg sys g) fd) of None \<Rightarrow> True
    | Some s \<Rightarrow> \<exists>t kvs. linux_MarshalJSON s = Some t \<and> read_json t = Some (JObj kvs)
        \<and> sorted (map fst kvs) \<and> map_of kvs = map_option json_of \<circ> map_of (Tcp_Info_Linux.SysInfo_ToMap s))
 \<and> (case fst (pkg_GetTCPInfo (darwin_pkg dsys) fd) of None \<Rightarrow> True
    | Some s \<Rightarrow> \<exists>t kvs. darwin_MarshalJSON s = Some t \<and> read_json t = Some (JObj kvs)
        \<and> sorted (map fst kvs) \<and> map_of kvs = map_option json_of \<circ> map_of (Tcp_Info_Darwin.SysInfo_ToMap s))
 \<and> (case fst (pkg_GetTCPInfo (windows_pkg wsys) fd) of None \<Rightarrow> True
    | Some s \<Rightarrow> \<exists>t kvs. windows_MarshalJSON s = Some t \<and> read_json t = Some (JObj kvs)
        \<and> sorted (map fst kvs) \<and> map_of kvs = map_option json_of \<circ> map_of (Tcp_Info_Windows.SysInfo_ToMap s))
 \<and> other_MarshalJSON u = Some ''{}''"
proof -
  have reads: "case fst (pkg_GetTCPInfo pkg fd) of None \<Rightarrow> True
    | Some s \<Rightarrow> \<exists>t kvs. SysInfo_MarshalJSON (pkg_ToMap pkg) s = Some t \<and> read_json t = Some (JObj kvs)
        \<and> sorted (map fst kvs) \<and> map_of kvs = map_option json_of \<circ> map_of (pkg_ToMap pkg s)"
    if "tcpinfo_json pkg" for pkg :: "'z tcpinfo_pkg"
    using tcpinfo_json.MarshalJSON_entries [OF that] by (cases "pkg_GetTCPInfo pkg fd") (fastforce simp: fun_eq_iff split: option.split)
  have maps: "pkg_ToMap (linux_pkg sys g) = Tcp_Info_Linux.SysInfo_ToMap" "pkg_ToMap (darwin_pkg dsys) = Tcp_Info_Darwin.SysInfo_ToMap"
    "pkg_ToMap (windows_pkg wsys) = Tcp_Info_Windows.SysInfo_ToMap"
    by (simp_all add: linux_pkg_def darwin_pkg_def windows_pkg_def)
  have "other_MarshalJSON u = Some ''{}''"
    by (simp add: other_MarshalJSON_def SysInfo_MarshalJSON_def Tcp_Info_Other.SysInfo_ToMap_def)
  then show ?thesis
    unfolding linux_MarshalJSON_def darwin_MarshalJSON_def windows_MarshalJSON_def
    by (intro conjI) (assumption | rule reads [OF lj.tcpinfo_json_axioms, of sys g, unfolded maps]
      reads [OF dj.tcpinfo_json_axioms, of dsys, unfolded maps] reads [OF wj.tcpinfo_json_axioms, of wsys, unfolded maps])+
qed

text \<open>However a wrapper on Linux is used before it is closed, what it reports has options with plain names.\<close>

lemma report_plain:
  assumes "(used (linux_pkg sys g))\<^sup>*\<^sup>* (fst (WrapConn (linux_pkg sys g) ctl now background ncon fn opts)) w"
    and "Close (linux_pkg sys g) ctl' conn_Close now' w = Some (err, w', made)" "(fn', snap, st) \<in> set made"
  shows "infos_plain (linux_pkg sys g) snap"
proof -
  have ax: "tcpinfo_json (linux_pkg sys g)" by (rule lj.tcpinfo_json_axioms)
  have "infos_plain (linux_pkg sys g) w"
    by (rule tcpinfo_json.used_plain [OF ax assms(1)]) (unfold WrapConn_def, rule tcpinfo_json.wrap_plain [OF ax])
  then show ?thesis using tcpinfo_json.Close_plain(2) [OF ax assms(2) _ assms(3)] by blast
qed

lemma demo_report:
  "let pkg = linux_pkg (demo_sys 248) initial_globals;
       w = fst (WrapConn pkg (Control_fd 3) 10 () (Some demo_netconn) (Some 7) [])
   in \<exists>w' snap. Close pkg (Control_fd 3) (\<lambda>_. None) 20 w = Some (None, w', [(7, snap, Closed)])"
proof -
  let ?pkg = "linux_pkg (demo_sys 248) initial_globals"
  let ?w = "fst (WrapConn ?pkg (Control_fd 3) 10 () (Some demo_netconn) (Some 7) [])"
  have w: "netConn ?w = Some demo_netconn" "closeDone ?w = None" "inFlight ?w = 0" "reportStats ?w = Some 7"
    unfolding WrapConn_def WrapConn_eq by (auto simp: Conn_zero_def Let_def split: prod.splits)
  then show ?thesis
    by (auto simp: Close_def Close_start_def Close_detach_def Close_finish_def Let_def split: prod.split)
qed





end
